(* ===== verification/Prelude.thy ===== *)
theory Prelude
  imports Main "HOL-Library.Word" "HOL-Library.Signed_Division" "HOL-Library.Monad_Syntax"
begin

section \<open>Shared vocabulary of the development\<close>

text \<open>
  What every component uses: Rust's integer casts and checked operations on mathematical
  integers, its three-way comparison, the contracts that the number-like types of
  \<open>src/src/domain\<close> share (a bounded newtype, a type counted along a line of integers, a
  type shifted along such a line), and a few arithmetic facts.

  Machine integers are modelled as \<open>int\<close> with every narrowing cast written out
  (\<open>as_u8\<close>, \<open>as_i64\<close>, ...) and with the bounds that keep the arithmetic
  inside its width proved beside the operations; where the code relies on wrap-around
  (the civil-calendar algorithm) the model computes on words of the code's width.
  A fallible function returns \<open>option\<close> (\<open>?\<close> is the bind of the option monad) or
  a sum \<open>error + 'a\<close> with \<open>Inl\<close> for the error.
\<close>

named_theorems newtype_simps \<open>selector and constructor equations of the bounded newtypes\<close>
named_theorems bound_defs \<open>the numeric bounds of the scalar types\<close>

subsection \<open>Casts: \<open>x as u8\<close> and its kin\<close>

text \<open>An \<open>as\<close> cast keeps the low bits; the signed ones read them in two's complement.\<close>

definition as_u8 :: "int \<Rightarrow> int" where
  "as_u8 x = x mod 256"

definition as_u16 :: "int \<Rightarrow> int" where
  "as_u16 x = x mod 65536"

definition as_u32 :: "int \<Rightarrow> int" where
  "as_u32 x = x mod 4294967296"

definition as_u64 :: "int \<Rightarrow> int" where
  "as_u64 x = x mod 18446744073709551616"

definition as_i32 :: "int \<Rightarrow> int" where
  "as_i32 x = (x + 2147483648) mod 4294967296 - 2147483648"

definition as_i64 :: "int \<Rightarrow> int" where
  "as_i64 x = (x + 9223372036854775808) mod 18446744073709551616 - 9223372036854775808"

definition as_i128 :: "int \<Rightarrow> int" where
  "as_i128 x = (x + 2 ^ 127) mod 2 ^ 128 - 2 ^ 127"

lemma as_u8_id [simp]: "0 \<le> x \<Longrightarrow> x < 256 \<Longrightarrow> as_u8 x = x"
  by (simp add: as_u8_def)

lemma as_u16_id [simp]: "0 \<le> x \<Longrightarrow> x < 65536 \<Longrightarrow> as_u16 x = x"
  by (simp add: as_u16_def)

lemma as_u32_id [simp]: "0 \<le> x \<Longrightarrow> x < 4294967296 \<Longrightarrow> as_u32 x = x"
  by (simp add: as_u32_def)

lemma as_u64_id [simp]: "0 \<le> x \<Longrightarrow> x < 18446744073709551616 \<Longrightarrow> as_u64 x = x"
  by (simp add: as_u64_def)

lemma as_i32_id [simp]: "-2147483648 \<le> x \<Longrightarrow> x < 2147483648 \<Longrightarrow> as_i32 x = x"
  by (simp add: as_i32_def)

lemma as_i64_id [simp]:
  "-9223372036854775808 \<le> x \<Longrightarrow> x < 9223372036854775808 \<Longrightarrow> as_i64 x = x"
  by (simp add: as_i64_def)

lemma as_i128_id [simp]: "- (2 ^ 127) \<le> x \<Longrightarrow> x < 2 ^ 127 \<Longrightarrow> as_i128 x = x"
  by (simp add: as_i128_def)

subsection \<open>Checked operations: \<open>checked_mul\<close>, \<open>try_from\<close>\<close>

definition i32_ok :: "int \<Rightarrow> bool" where
  "i32_ok x \<longleftrightarrow> -2147483648 \<le> x \<and> x \<le> 2147483647"

definition i64_ok :: "int \<Rightarrow> bool" where
  "i64_ok x \<longleftrightarrow> -9223372036854775808 \<le> x \<and> x \<le> 9223372036854775807"

definition i128_ok :: "int \<Rightarrow> bool" where
  "i128_ok x \<longleftrightarrow>
     -170141183460469231731687303715884105728 \<le> x
     \<and> x \<le> 170141183460469231731687303715884105727"

definition u64_ok :: "int \<Rightarrow> bool" where
  "u64_ok x \<longleftrightarrow> 0 \<le> x \<and> x \<le> 18446744073709551615"

definition u128_ok :: "int \<Rightarrow> bool" where
  "u128_ok x \<longleftrightarrow> 0 \<le> x \<and> x \<le> 340282366920938463463374607431768211455"

text \<open>The result of a checked operation or of \<open>try_from\<close>: \<open>None\<close> when it does not fit.\<close>

definition checked :: "(int \<Rightarrow> bool) \<Rightarrow> int \<Rightarrow> int option" where
  "checked fits x = (if fits x then Some x else None)"

lemma checked_Some [simp]: "checked fits x = Some y \<longleftrightarrow> fits x \<and> y = x"
  by (auto simp: checked_def)

lemma checked_None [simp]: "checked fits x = None \<longleftrightarrow> \<not> fits x"
  by (auto simp: checked_def)

subsection \<open>Three-way comparison\<close>

datatype ordering = Less | Equal | Greater

definition cmp :: "'a::linorder \<Rightarrow> 'a \<Rightarrow> ordering" where
  "cmp x y = (if x < y then Less else if x = y then Equal else Greater)"

lemma cmp_simps [simp]:
  "cmp x y = Less \<longleftrightarrow> x < y"
  "cmp x y = Equal \<longleftrightarrow> x = y"
  "cmp x y = Greater \<longleftrightarrow> y < x"
  by (auto simp: cmp_def)

subsection \<open>The contract of a bounded newtype\<close>

text \<open>
  The scalar types are tuple structs around one integer, with a \<open>MIN\<close>, a
  \<open>MAX\<close>, a \<open>get\<close>, and a checked constructor \<open>new\<close>; \<open>ok\<close> is the
  type's invariant.
\<close>

locale bounded_newtype =
  fixes mk :: "int \<Rightarrow> 'a"
    and get :: "'a \<Rightarrow> int"
    and new :: "int \<Rightarrow> 'a option"
    and ok :: "'a \<Rightarrow> bool"
    and lo :: int
    and hi :: int
  assumes get_mk: "get (mk x) = x"
    and mk_get: "mk (get a) = a"
    and new_eq: "new x = (if lo \<le> x \<and> x \<le> hi then Some (mk x) else None)"
    and ok_eq: "ok a \<longleftrightarrow> lo \<le> get a \<and> get a \<le> hi"
begin

lemma new_Some_iff: "new x = Some a \<longleftrightarrow> ok a \<and> get a = x"
  using get_mk mk_get by (auto simp: new_eq ok_eq)

lemma new_None_iff: "new x = None \<longleftrightarrow> \<not> (lo \<le> x \<and> x \<le> hi)"
  by (simp add: new_eq)

lemma new_get: "ok a \<Longrightarrow> new (get a) = Some a"
  by (simp add: new_Some_iff)

lemma get_inject: "get a = get b \<longleftrightarrow> a = b"
  by (metis mk_get)

lemma ok_mk: "ok (mk x) \<longleftrightarrow> lo \<le> x \<and> x \<le> hi"
  by (simp add: ok_eq get_mk)

end

subsection \<open>Types counted along a line of integers\<close>

text \<open>
  A date is a day number, a time of day a number of nanoseconds, an instant a timestamp.
  The contract says that the valid values correspond one to one to an interval of
  integers.
\<close>

locale counted =
  fixes ok :: "'a \<Rightarrow> bool"
    and num :: "'a \<Rightarrow> int"
    and of_num :: "int \<Rightarrow> 'a"
    and lo :: int
    and hi :: int
  assumes num_bounds: "ok a \<Longrightarrow> lo \<le> num a \<and> num a \<le> hi"
    and of_num_num: "ok a \<Longrightarrow> of_num (num a) = a"
    and of_num_ok: "lo \<le> n \<Longrightarrow> n \<le> hi \<Longrightarrow> ok (of_num n)"
    and num_of_num: "lo \<le> n \<Longrightarrow> n \<le> hi \<Longrightarrow> num (of_num n) = n"
begin

lemma num_inject: "ok a \<Longrightarrow> ok b \<Longrightarrow> num a = num b \<longleftrightarrow> a = b"
  by (metis of_num_num)

lemma num_surj: "lo \<le> n \<Longrightarrow> n \<le> hi \<Longrightarrow> \<exists>!a. ok a \<and> num a = n"
  using of_num_ok num_of_num num_inject by blast

lemma num_image: "num ` {a. ok a} = {lo..hi}"
  by (auto simp: image_iff num_bounds) (metis of_num_ok num_of_num)

end

text \<open>
  A shift moves along the line. The contract of a shift that never returns a wrong value,
  and of one that fails only where the target is off the line.
\<close>

locale sound_shift = counted +
  fixes shift :: "'a \<Rightarrow> int \<Rightarrow> 'a option"
  assumes shift_sound: "ok a \<Longrightarrow> shift a n = Some b \<Longrightarrow> ok b \<and> num b = num a + n"
begin

lemma shift_functional:
  "ok a \<Longrightarrow> ok b \<Longrightarrow> shift a n = Some c \<Longrightarrow> shift b m = Some d \<Longrightarrow>
   num a + n = num b + m \<Longrightarrow> c = d"
  by (metis shift_sound num_inject)

lemma shift_mono:
  "ok a \<Longrightarrow> ok b \<Longrightarrow> num a \<le> num b \<Longrightarrow> shift a n = Some c \<Longrightarrow> shift b n = Some d \<Longrightarrow>
   num c \<le> num d"
  by (simp add: shift_sound)

end

locale exact_shift = sound_shift +
  assumes shift_total: "ok a \<Longrightarrow> lo \<le> num a + n \<Longrightarrow> num a + n \<le> hi \<Longrightarrow> shift a n \<noteq> None"
begin

lemma shift_eq:
  "ok a \<Longrightarrow>
   shift a n = (if lo \<le> num a + n \<and> num a + n \<le> hi then Some (of_num (num a + n)) else None)"
proof (cases "shift a n")
  case None
  moreover assume "ok a"
  ultimately show ?thesis using shift_total [of a n] by auto
next
  case (Some b)
  moreover assume "ok a"
  ultimately have b: "ok b" "num b = num a + n" using shift_sound by blast+
  then have "of_num (num a + n) = b" using of_num_num by fastforce
  with Some b num_bounds[of b] show ?thesis by simp
qed

lemma shift_zero: "ok a \<Longrightarrow> shift a 0 = Some a"
  using num_bounds by (simp add: shift_eq of_num_num)

lemma shift_inverse: "ok a \<Longrightarrow> shift a n = Some b \<Longrightarrow> shift b (- n) = Some a"
  using shift_sound[of a n b] num_bounds[of a] by (simp add: shift_eq of_num_num)

lemma shift_compose:
  "ok a \<Longrightarrow> shift a n = Some b \<Longrightarrow> shift b m = shift a (n + m)"
  using shift_sound[of a n b] by (simp add: shift_eq add.assoc)

lemma shift_between: "ok a \<Longrightarrow> ok b \<Longrightarrow> shift a (num b - num a) = Some b"
  using num_bounds[of b] by (simp add: shift_eq of_num_num)

end

subsection \<open>Arithmetic\<close>

lemma div_mod_unique:
  fixes q r n d :: int
  assumes "n = d * q + r" and "0 \<le> r" and "r < d"
  shows "n div d = q" and "n mod d = r"
  using assms by (auto simp: div_pos_pos_trivial)

lemma sdiv_nonneg [simp]:
  fixes a b :: int
  shows "0 \<le> a \<Longrightarrow> 0 \<le> b \<Longrightarrow> a sdiv b = a div b"
  by (cases "a = 0"; cases "b = 0") (simp_all add: signed_divide_int_def sgn_if)

lemma smod_nonneg [simp]:
  fixes a b :: int
  shows "0 \<le> a \<Longrightarrow> 0 \<le> b \<Longrightarrow> a smod b = a mod b"
  by (cases "a = 0") (simp_all add: signed_modulo_int_def)

lemma bind_Some_iff [simp]:
  "(m \<bind> f) = Some y \<longleftrightarrow> (\<exists>x. m = Some x \<and> f x = Some y)"
  by (rule Option.bind_eq_Some_conv)

lemma bind_None_iff:
  "(m \<bind> f) = None \<longleftrightarrow> m = None \<or> (\<exists>x. m = Some x \<and> f x = None)"
  by (cases m) auto

end
