(* ===== verification/Scalar.thy ===== *)
theory Scalar
  imports Prelude
begin

section \<open>Scalar types (\<open>src/src/domain/scalar.rs\<close>)\<close>

text \<open>
  The newtypes of \<open>scalar.rs\<close> as single-constructor datatypes, the enums
  \<open>Sign\<close>, \<open>Month\<close> and \<open>Weekday\<close>, their checked constructors and their
  arithmetic. Each invariant (\<open>offset_ok\<close>, ...) is what \<open>new_unchecked\<close>
  asserts; \<open>new_unchecked\<close> itself is the constructor. The calendar algorithms on these
  types are in \<open>Calendar\<close>, the time-of-day part in \<open>Clock\<close>.
\<close>

subsection \<open>UTC offsets\<close>

datatype sign = Plus | Minus

datatype offset = Offset (offset_get: int)

definition offset_min :: int where "offset_min = -86399"
definition offset_max :: int where "offset_max = 86399"

definition offset_ok :: "offset \<Rightarrow> bool" where
  "offset_ok o1 \<longleftrightarrow> offset_min \<le> offset_get o1 \<and> offset_get o1 \<le> offset_max"

definition offset_zero :: offset where "offset_zero = Offset 0"

definition offset_new :: "int \<Rightarrow> offset option" where
  "offset_new secs = (if offset_min \<le> secs \<and> secs \<le> offset_max then Some (Offset secs) else None)"

definition offset_from_hours :: "int \<Rightarrow> offset option" where
  "offset_from_hours hrs =
     (if -23 \<le> hrs \<and> hrs \<le> 23 then Some (Offset (as_i32 hrs * 3600)) else None)"

definition offset_from_i64 :: "int \<Rightarrow> offset option" where
  "offset_from_i64 secs =
     (if offset_min \<le> secs \<and> secs \<le> offset_max then Some (Offset (as_i32 secs)) else None)"

datatype offset_delta = OffsetDelta (offset_delta_get: int)

definition offset_delta_ok :: "offset_delta \<Rightarrow> bool" where
  "offset_delta_ok d \<longleftrightarrow> offset_min * 2 \<le> offset_delta_get d \<and> offset_delta_get d \<le> offset_max * 2"

definition offset_delta_abs :: "offset_delta \<Rightarrow> offset_delta" where
  "offset_delta_abs d = OffsetDelta \<bar>offset_delta_get d\<bar>"

definition offset_delta_neg :: "offset_delta \<Rightarrow> offset_delta" where
  "offset_delta_neg d = OffsetDelta (- offset_delta_get d)"

definition offset_shift :: "offset \<Rightarrow> offset_delta \<Rightarrow> offset option" where
  "offset_shift o1 x = offset_new (offset_get o1 + offset_delta_get x)"

definition offset_sub :: "offset \<Rightarrow> offset \<Rightarrow> offset_delta" where
  "offset_sub o1 x = OffsetDelta (offset_get o1 - offset_get x)"

definition offset_with_sign :: "offset \<Rightarrow> sign \<Rightarrow> offset" where
  "offset_with_sign o1 s =
     Offset (case s of Plus \<Rightarrow> offset_get o1 | Minus \<Rightarrow> - offset_get o1)"

definition offset_neg :: "offset \<Rightarrow> offset" where
  "offset_neg o1 = Offset (- offset_get o1)"

definition offset_as_delta :: "offset \<Rightarrow> offset_delta" where
  "offset_as_delta o1 = OffsetDelta (offset_get o1)"

instantiation offset :: linorder
begin
definition less_eq_offset :: "offset \<Rightarrow> offset \<Rightarrow> bool" where
  "less_eq_offset a b \<longleftrightarrow> offset_get a \<le> offset_get b"
definition less_offset :: "offset \<Rightarrow> offset \<Rightarrow> bool" where
  "less_offset a b \<longleftrightarrow> offset_get a < offset_get b"
instance
  by intro_classes (auto simp: less_eq_offset_def less_offset_def offset.expand)
end

subsection \<open>Seconds since the epoch\<close>

datatype epoch_secs = EpochSecs (epoch_get: int)

definition epoch_min :: int where "epoch_min = -62135596800"
definition epoch_max :: int where "epoch_max = 253402300799"

definition epoch_ok :: "epoch_secs \<Rightarrow> bool" where
  "epoch_ok e \<longleftrightarrow> epoch_min \<le> epoch_get e \<and> epoch_get e \<le> epoch_max"

definition epoch_new :: "int \<Rightarrow> epoch_secs option" where
  "epoch_new secs = (if epoch_min \<le> secs \<and> secs \<le> epoch_max then Some (EpochSecs secs) else None)"

definition epoch_clamp :: "int \<Rightarrow> epoch_secs" where
  "epoch_clamp secs = EpochSecs (max epoch_min (min epoch_max secs))"

definition epoch_from_i32 :: "int \<Rightarrow> epoch_secs" where
  "epoch_from_i32 secs = EpochSecs secs"

definition epoch_shift_by_offset :: "epoch_secs \<Rightarrow> offset \<Rightarrow> epoch_secs option" where
  "epoch_shift_by_offset e x = epoch_new (epoch_get e + offset_get x)"

definition epoch_saturating_shift_by_offset :: "epoch_secs \<Rightarrow> offset \<Rightarrow> epoch_secs" where
  "epoch_saturating_shift_by_offset e x = epoch_clamp (epoch_get e + offset_get x)"

definition epoch_saturating_add_i32 :: "epoch_secs \<Rightarrow> int \<Rightarrow> epoch_secs" where
  "epoch_saturating_add_i32 e x = epoch_clamp (epoch_get e + x)"

instantiation epoch_secs :: linorder
begin
definition less_eq_epoch_secs :: "epoch_secs \<Rightarrow> epoch_secs \<Rightarrow> bool" where
  "less_eq_epoch_secs a b \<longleftrightarrow> epoch_get a \<le> epoch_get b"
definition less_epoch_secs :: "epoch_secs \<Rightarrow> epoch_secs \<Rightarrow> bool" where
  "less_epoch_secs a b \<longleftrightarrow> epoch_get a < epoch_get b"
instance
  by intro_classes (auto simp: less_eq_epoch_secs_def less_epoch_secs_def epoch_secs.expand)
end

subsection \<open>Days since the epoch\<close>

datatype unix_days = UnixDays (unix_days_get: int)

definition unix_days_min :: int where "unix_days_min = -719162"
definition unix_days_max :: int where "unix_days_max = 2932896"

definition unix_days_ok :: "unix_days \<Rightarrow> bool" where
  "unix_days_ok u \<longleftrightarrow> unix_days_min \<le> unix_days_get u \<and> unix_days_get u \<le> unix_days_max"

definition unix_days_new :: "int \<Rightarrow> unix_days option" where
  "unix_days_new days =
     (if unix_days_min \<le> days \<and> days \<le> unix_days_max then Some (UnixDays days) else None)"

definition unix_days_add_unchecked :: "unix_days \<Rightarrow> int \<Rightarrow> unix_days" where
  "unix_days_add_unchecked u days = UnixDays (unix_days_get u + days)"

definition s_per_day :: int where "s_per_day = 86400"
definition ns_per_sec :: int where "ns_per_sec = 1000000000"
definition ns_per_minute :: int where "ns_per_minute = 60000000000"
definition ns_per_hour :: int where "ns_per_hour = 3600000000000"
definition ns_per_day :: int where "ns_per_day = 86400000000000"
definition ns_per_week :: int where "ns_per_week = 604800000000000"

definition epoch_as_days :: "epoch_secs \<Rightarrow> unix_days" where
  "epoch_as_days e = UnixDays (as_i32 (epoch_get e div s_per_day))"

subsection \<open>Years and months\<close>

datatype year = Year (year_get: int)

definition year_ok :: "year \<Rightarrow> bool" where
  "year_ok y \<longleftrightarrow> 1 \<le> year_get y \<and> year_get y \<le> 9999"

definition year_new :: "int \<Rightarrow> year option" where
  "year_new y = (if y \<le> 9999 then (if y \<noteq> 0 then Some (Year y) else None) else None)"

definition year_from_i64 :: "int \<Rightarrow> year option" where
  "year_from_i64 y = (if 1 \<le> y \<and> y \<le> 9999 then Some (Year (as_u16 y)) else None)"

definition year_from_i32 :: "int \<Rightarrow> year option" where
  "year_from_i32 y = (if 1 \<le> y \<and> y \<le> 9999 then Some (Year (as_u16 y)) else None)"

definition year_is_leap :: "year \<Rightarrow> bool" where
  "year_is_leap y \<longleftrightarrow>
     (year_get y mod 4 = 0 \<and> \<not> year_get y mod 100 = 0) \<or> year_get y mod 400 = 0"

definition year_add_i32 :: "year \<Rightarrow> int \<Rightarrow> year option" where
  "year_add_i32 y years = checked i32_ok (year_get y + years) \<bind> year_from_i32"

instantiation year :: linorder
begin
definition less_eq_year :: "year \<Rightarrow> year \<Rightarrow> bool" where
  "less_eq_year a b \<longleftrightarrow> year_get a \<le> year_get b"
definition less_year :: "year \<Rightarrow> year \<Rightarrow> bool" where
  "less_year a b \<longleftrightarrow> year_get a < year_get b"
instance
  by intro_classes (auto simp: less_eq_year_def less_year_def year.expand)
end

datatype month = January | February | March | April | May | June
  | July | August | September | October | November | December

fun month_get :: "month \<Rightarrow> int" where
  "month_get January = 1"
| "month_get February = 2"
| "month_get March = 3"
| "month_get April = 4"
| "month_get May = 5"
| "month_get June = 6"
| "month_get July = 7"
| "month_get August = 8"
| "month_get September = 9"
| "month_get October = 10"
| "month_get November = 11"
| "month_get December = 12"

text \<open>
  \<open>new_unchecked\<close> transmutes its argument; outside 1..12 that is undefined behaviour in
  the source, and the value here (December) is never relied on: the operations' safety
  lemmas show that they pass 1..12 only.
\<close>

definition month_new_unchecked :: "int \<Rightarrow> month" where
  "month_new_unchecked n =
     (if n = 1 then January else if n = 2 then February else if n = 3 then March
      else if n = 4 then April else if n = 5 then May else if n = 6 then June
      else if n = 7 then July else if n = 8 then August else if n = 9 then September
      else if n = 10 then October else if n = 11 then November else December)"

definition month_new :: "int \<Rightarrow> month option" where
  "month_new n = (if 1 \<le> n \<and> n \<le> 12 then Some (month_new_unchecked n) else None)"

definition month_from_i64 :: "int \<Rightarrow> month option" where
  "month_from_i64 m = (if 1 \<le> m \<and> m \<le> 12 then Some (month_new_unchecked (as_u8 m)) else None)"

instantiation month :: linorder
begin
definition less_eq_month :: "month \<Rightarrow> month \<Rightarrow> bool" where
  "less_eq_month a b \<longleftrightarrow> month_get a \<le> month_get b"
definition less_month :: "month \<Rightarrow> month \<Rightarrow> bool" where
  "less_month a b \<longleftrightarrow> month_get a < month_get b"
instance
proof intro_classes
  fix a b :: month
  show "a \<le> b \<Longrightarrow> b \<le> a \<Longrightarrow> a = b"
    by (cases a; cases b) (simp_all add: less_eq_month_def)
qed (auto simp: less_eq_month_def less_month_def)
end

subsection \<open>Calendar and clock deltas\<close>

datatype delta_months = DeltaMonths (delta_months_get: int)

definition delta_months_min :: int where "delta_months_min = - (9999 * 12)"
definition delta_months_max :: int where "delta_months_max = 9999 * 12"

definition delta_months_ok :: "delta_months \<Rightarrow> bool" where
  "delta_months_ok d \<longleftrightarrow> delta_months_min \<le> delta_months_get d \<and> delta_months_get d \<le> delta_months_max"

definition delta_months_new :: "int \<Rightarrow> delta_months option" where
  "delta_months_new months =
     (if delta_months_min \<le> months \<and> months \<le> delta_months_max then Some (DeltaMonths months) else None)"

definition delta_months_from_i64 :: "int \<Rightarrow> delta_months option" where
  "delta_months_from_i64 months =
     (if delta_months_min \<le> months \<and> months \<le> delta_months_max
      then Some (DeltaMonths (as_i32 months)) else None)"

definition delta_months_from_i64_years :: "int \<Rightarrow> delta_months option" where
  "delta_months_from_i64_years years = checked i64_ok (years * 12) \<bind> delta_months_from_i64"

definition delta_months_abs :: "delta_months \<Rightarrow> delta_months" where
  "delta_months_abs d = DeltaMonths \<bar>delta_months_get d\<bar>"

definition delta_months_mul :: "delta_months \<Rightarrow> int \<Rightarrow> delta_months option" where
  "delta_months_mul d n = checked i32_ok (delta_months_get d * n) \<bind> delta_months_new"

definition delta_months_add :: "delta_months \<Rightarrow> delta_months \<Rightarrow> delta_months option" where
  "delta_months_add a d = delta_months_new (delta_months_get a + delta_months_get d)"

definition delta_months_is_zero :: "delta_months \<Rightarrow> bool" where
  "delta_months_is_zero d \<longleftrightarrow> delta_months_get d = 0"

definition delta_months_neg :: "delta_months \<Rightarrow> delta_months" where
  "delta_months_neg d = DeltaMonths (- delta_months_get d)"

datatype delta_days = DeltaDays (delta_days_get: int)

definition delta_days_min :: int where "delta_days_min = unix_days_min - unix_days_max - 1"
definition delta_days_max :: int where "delta_days_max = unix_days_max - unix_days_min + 1"

definition delta_days_ok :: "delta_days \<Rightarrow> bool" where
  "delta_days_ok d \<longleftrightarrow> delta_days_min \<le> delta_days_get d \<and> delta_days_get d \<le> delta_days_max"

definition delta_days_new :: "int \<Rightarrow> delta_days option" where
  "delta_days_new days =
     (if delta_days_min \<le> days \<and> days \<le> delta_days_max then Some (DeltaDays days) else None)"

definition delta_days_from_i64 :: "int \<Rightarrow> delta_days option" where
  "delta_days_from_i64 days =
     (if delta_days_min \<le> days \<and> days \<le> delta_days_max then Some (DeltaDays (as_i32 days)) else None)"

definition delta_days_from_i64_weeks :: "int \<Rightarrow> delta_days option" where
  "delta_days_from_i64_weeks weeks = checked i64_ok (weeks * 7) \<bind> delta_days_from_i64"

definition delta_days_abs :: "delta_days \<Rightarrow> delta_days" where
  "delta_days_abs d = DeltaDays \<bar>delta_days_get d\<bar>"

definition delta_days_mul :: "delta_days \<Rightarrow> int \<Rightarrow> delta_days option" where
  "delta_days_mul d n = checked i32_ok (delta_days_get d * n) \<bind> delta_days_new"

definition delta_days_add :: "delta_days \<Rightarrow> delta_days \<Rightarrow> delta_days option" where
  "delta_days_add a d = delta_days_new (delta_days_get a + delta_days_get d)"

definition delta_days_is_zero :: "delta_days \<Rightarrow> bool" where
  "delta_days_is_zero d \<longleftrightarrow> delta_days_get d = 0"

definition delta_days_neg :: "delta_days \<Rightarrow> delta_days" where
  "delta_days_neg d = DeltaDays (- delta_days_get d)"

datatype delta_seconds = DeltaSeconds (delta_seconds_get: int)

instantiation delta_seconds :: linorder
begin
definition less_eq_delta_seconds :: "delta_seconds \<Rightarrow> delta_seconds \<Rightarrow> bool" where
  "less_eq_delta_seconds a b \<longleftrightarrow> delta_seconds_get a \<le> delta_seconds_get b"
definition less_delta_seconds :: "delta_seconds \<Rightarrow> delta_seconds \<Rightarrow> bool" where
  "less_delta_seconds a b \<longleftrightarrow> delta_seconds_get a < delta_seconds_get b"
instance
  by intro_classes (auto simp: less_eq_delta_seconds_def less_delta_seconds_def delta_seconds.expand)
end

definition delta_seconds_min :: int where "delta_seconds_min = - 9999 * 366 * 24 * 60 * 60"
definition delta_seconds_max :: int where "delta_seconds_max = 9999 * 366 * 24 * 60 * 60"

definition delta_seconds_ok :: "delta_seconds \<Rightarrow> bool" where
  "delta_seconds_ok d \<longleftrightarrow>
     delta_seconds_min \<le> delta_seconds_get d \<and> delta_seconds_get d \<le> delta_seconds_max"

definition delta_seconds_new :: "int \<Rightarrow> delta_seconds option" where
  "delta_seconds_new secs =
     (if delta_seconds_min \<le> secs \<and> secs \<le> delta_seconds_max then Some (DeltaSeconds secs) else None)"

definition delta_seconds_add :: "delta_seconds \<Rightarrow> delta_seconds \<Rightarrow> delta_seconds option" where
  "delta_seconds_add a d = delta_seconds_new (delta_seconds_get a + delta_seconds_get d)"

definition delta_seconds_neg :: "delta_seconds \<Rightarrow> delta_seconds" where
  "delta_seconds_neg d = DeltaSeconds (- delta_seconds_get d)"

text \<open>The magnitude in hours, minutes and seconds; \<open>/\<close> and \<open>%\<close> truncate.\<close>

definition delta_seconds_abs_hms :: "delta_seconds \<Rightarrow> int \<times> int \<times> int" where
  "delta_seconds_abs_hms d =
     (let secs = \<bar>delta_seconds_get d\<bar>
      in (secs sdiv 3600, as_u8 ((secs smod 3600) sdiv 60), as_u8 (secs smod 60)))"

definition epoch_shift :: "epoch_secs \<Rightarrow> delta_seconds \<Rightarrow> epoch_secs option" where
  "epoch_shift e d = epoch_new (epoch_get e + delta_seconds_get d)"

definition epoch_to_delta :: "epoch_secs \<Rightarrow> delta_seconds" where
  "epoch_to_delta e = DeltaSeconds (epoch_get e)"

definition unix_days_shift :: "unix_days \<Rightarrow> delta_days \<Rightarrow> unix_days option" where
  "unix_days_shift u d = unix_days_new (unix_days_get u + delta_days_get d)"

definition unix_days_diff :: "unix_days \<Rightarrow> unix_days \<Rightarrow> delta_days" where
  "unix_days_diff u other = DeltaDays (unix_days_get u - unix_days_get other)"

datatype delta_nanos = DeltaNanos (delta_nanos_get: int)

definition delta_nanos_min :: int where "delta_nanos_min = delta_seconds_min * 1000000000"
definition delta_nanos_max :: int where "delta_nanos_max = delta_seconds_max * 1000000000"

definition delta_nanos_ok :: "delta_nanos \<Rightarrow> bool" where
  "delta_nanos_ok d \<longleftrightarrow> delta_nanos_min \<le> delta_nanos_get d \<and> delta_nanos_get d \<le> delta_nanos_max"

definition delta_nanos_new :: "int \<Rightarrow> delta_nanos option" where
  "delta_nanos_new nanos =
     (if delta_nanos_min \<le> nanos \<and> nanos \<le> delta_nanos_max then Some (DeltaNanos nanos) else None)"

subsection \<open>Sub-second nanoseconds\<close>

datatype subsec_nanos = SubSecNanos (subsec_get: int)

instantiation subsec_nanos :: linorder
begin
definition less_eq_subsec_nanos :: "subsec_nanos \<Rightarrow> subsec_nanos \<Rightarrow> bool" where
  "less_eq_subsec_nanos a b \<longleftrightarrow> subsec_get a \<le> subsec_get b"
definition less_subsec_nanos :: "subsec_nanos \<Rightarrow> subsec_nanos \<Rightarrow> bool" where
  "less_subsec_nanos a b \<longleftrightarrow> subsec_get a < subsec_get b"
instance
  by intro_classes (auto simp: less_eq_subsec_nanos_def less_subsec_nanos_def subsec_nanos.expand)
end

definition subsec_min :: int where "subsec_min = 0"
definition subsec_max :: int where "subsec_max = 999999999"

definition subsec_ok :: "subsec_nanos \<Rightarrow> bool" where
  "subsec_ok n \<longleftrightarrow> subsec_min \<le> subsec_get n \<and> subsec_get n \<le> subsec_max"

definition subsec_new :: "int \<Rightarrow> subsec_nanos option" where
  "subsec_new nanos = (if subsec_min \<le> nanos \<and> nanos \<le> subsec_max then Some (SubSecNanos nanos) else None)"

definition subsec_from_i64 :: "int \<Rightarrow> subsec_nanos option" where
  "subsec_from_i64 n =
     (if subsec_min \<le> n \<and> n \<le> subsec_max then Some (SubSecNanos (as_i32 n)) else None)"

text \<open>One \<open>rem_euclid\<close> for every integer width of the \<open>NanosRemainder\<close> trait.\<close>

definition subsec_from_remainder :: "int \<Rightarrow> subsec_nanos" where
  "subsec_from_remainder nanos = SubSecNanos (as_i32 (nanos mod 1000000000))"

definition subsec_add :: "subsec_nanos \<Rightarrow> subsec_nanos \<Rightarrow> delta_seconds \<times> subsec_nanos" where
  "subsec_add a other =
     (let sum = subsec_get a + subsec_get other
      in (DeltaSeconds (sum div 1000000000), subsec_from_remainder sum))"

definition delta_nanos_sec_subsec :: "delta_nanos \<Rightarrow> delta_seconds \<times> subsec_nanos" where
  "delta_nanos_sec_subsec d =
     (DeltaSeconds (as_i64 (delta_nanos_get d div 1000000000)),
      subsec_from_remainder (delta_nanos_get d))"

subsection \<open>Weekdays\<close>

datatype weekday = Monday | Tuesday | Wednesday | Thursday | Friday | Saturday | Sunday

fun weekday_iso :: "weekday \<Rightarrow> int" where
  "weekday_iso Monday = 1"
| "weekday_iso Tuesday = 2"
| "weekday_iso Wednesday = 3"
| "weekday_iso Thursday = 4"
| "weekday_iso Friday = 5"
| "weekday_iso Saturday = 6"
| "weekday_iso Sunday = 7"

definition weekday_from_iso_unchecked :: "int \<Rightarrow> weekday" where
  "weekday_from_iso_unchecked n =
     (if n = 1 then Monday else if n = 2 then Tuesday else if n = 3 then Wednesday
      else if n = 4 then Thursday else if n = 5 then Friday else if n = 6 then Saturday
      else Sunday)"

definition unix_days_day_of_week :: "unix_days \<Rightarrow> weekday" where
  "unix_days_day_of_week u = weekday_from_iso_unchecked (as_u8 ((unix_days_get u + 3) mod 7 + 1))"

subsection \<open>The bounds in decimal, and the contracts the newtypes meet\<close>

lemmas scalar_bounds =
  offset_min_def offset_max_def epoch_min_def epoch_max_def unix_days_min_def unix_days_max_def
  delta_months_min_def delta_months_max_def delta_days_min_def delta_days_max_def
  delta_seconds_min_def delta_seconds_max_def delta_nanos_min_def delta_nanos_max_def
  subsec_min_def subsec_max_def

declare scalar_bounds [bound_defs]

lemmas time_units = s_per_day_def ns_per_sec_def ns_per_minute_def ns_per_hour_def
  ns_per_day_def ns_per_week_def

interpretation offset_nt: bounded_newtype Offset offset_get offset_new offset_ok offset_min offset_max
  by unfold_locales (simp_all add: offset_new_def offset_ok_def)

interpretation epoch_nt: bounded_newtype EpochSecs epoch_get epoch_new epoch_ok epoch_min epoch_max
  by unfold_locales (simp_all add: epoch_new_def epoch_ok_def)

interpretation unix_days_nt:
  bounded_newtype UnixDays unix_days_get unix_days_new unix_days_ok unix_days_min unix_days_max
  by unfold_locales (simp_all add: unix_days_new_def unix_days_ok_def)

interpretation delta_months_nt:
  bounded_newtype DeltaMonths delta_months_get delta_months_new delta_months_ok
    delta_months_min delta_months_max
  by unfold_locales (simp_all add: delta_months_new_def delta_months_ok_def)

interpretation delta_days_nt:
  bounded_newtype DeltaDays delta_days_get delta_days_new delta_days_ok delta_days_min delta_days_max
  by unfold_locales (simp_all add: delta_days_new_def delta_days_ok_def)

interpretation delta_seconds_nt:
  bounded_newtype DeltaSeconds delta_seconds_get delta_seconds_new delta_seconds_ok
    delta_seconds_min delta_seconds_max
  by unfold_locales (simp_all add: delta_seconds_new_def delta_seconds_ok_def)

interpretation delta_nanos_nt:
  bounded_newtype DeltaNanos delta_nanos_get delta_nanos_new delta_nanos_ok
    delta_nanos_min delta_nanos_max
  by unfold_locales (simp_all add: delta_nanos_new_def delta_nanos_ok_def)

interpretation subsec_nt:
  bounded_newtype SubSecNanos subsec_get subsec_new subsec_ok subsec_min subsec_max
  by unfold_locales (simp_all add: subsec_new_def subsec_ok_def)

subsection \<open>Months and weekdays as numbers\<close>

lemma month_get_range [simp]: "1 \<le> month_get m" "month_get m \<le> 12"
  by (cases m; simp)+

lemma month_get_unchecked [simp]: "1 \<le> n \<Longrightarrow> n \<le> 12 \<Longrightarrow> month_get (month_new_unchecked n) = n"
  by (auto simp: month_new_unchecked_def; presburger)

lemma month_unchecked_get [simp]: "month_new_unchecked (month_get m) = m"
  by (cases m) (simp_all add: month_new_unchecked_def)

lemma month_get_inject: "month_get a = month_get b \<longleftrightarrow> a = b"
  by (metis month_unchecked_get)

lemma month_new_Some_iff: "month_new n = Some m \<longleftrightarrow> month_get m = n"
  by (auto simp: month_new_def)

lemma weekday_iso_range [simp]: "1 \<le> weekday_iso w" "weekday_iso w \<le> 7"
  by (cases w; simp)+

lemma weekday_iso_unchecked [simp]:
  "1 \<le> n \<Longrightarrow> n \<le> 7 \<Longrightarrow> weekday_iso (weekday_from_iso_unchecked n) = n"
  by (auto simp: weekday_from_iso_unchecked_def; presburger)

lemma weekday_unchecked_iso [simp]: "weekday_from_iso_unchecked (weekday_iso w) = w"
  by (cases w) (simp_all add: weekday_from_iso_unchecked_def)

lemma weekday_iso_inject: "weekday_iso a = weekday_iso b \<longleftrightarrow> a = b"
  by (metis weekday_unchecked_iso)

lemma iso_day_of_week: "weekday_iso (unix_days_day_of_week u) = (unix_days_get u + 3) mod 7 + 1"
proof -
  have "0 \<le> (unix_days_get u + 3) mod 7" "(unix_days_get u + 3) mod 7 < 7"
    by simp_all
  then show ?thesis by (simp add: unix_days_day_of_week_def)
qed

lemma year_new_ok: "0 \<le> y \<Longrightarrow> year_new y = Some z \<longleftrightarrow> year_ok z \<and> year_get z = y"
  by (cases z) (auto simp: year_new_def year_ok_def)

lemma year_from_i32_eq:
  "year_from_i32 y = (if 1 \<le> y \<and> y \<le> 9999 then Some (Year y) else None)"
  by (auto simp: year_from_i32_def)

lemma year_from_i64_eq:
  "year_from_i64 y = (if 1 \<le> y \<and> y \<le> 9999 then Some (Year y) else None)"
  by (auto simp: year_from_i64_def)

end
