(* ===== verification/Round.thy ===== *)
theory Round
  imports Scalar
begin

section \<open>Rounding (\<open>src/src/domain/round.rs\<close>)\<close>

text \<open>
  The rounding modes, what each of them means for integers (\<open>rounds_to\<close>), and the
  contract that the three rounding routines of the program (\<open>Time::round\<close>,
  \<open>SubSecNanos::round\<close>, \<open>TimeDelta::round_u128\<close>) share. All three add one to
  the quotient when the remainder reaches a threshold that depends on the mode; the lemma
  \<open>threshold_rounds\<close> shows that this threshold is right for an even increment and for
  the increment one. For an odd increment it is not: \<open>increment / 2\<close> lies below the
  middle.
\<close>

datatype mode = Floor | Ceil | Trunc | Expand | HalfFloor | HalfCeil | HalfEven | HalfTrunc | HalfExpand

datatype abs_mode = AbsTrunc | AbsExpand | AbsHalfTrunc | AbsHalfExpand | AbsHalfEven

fun mode_to_abs_euclid :: "mode \<Rightarrow> bool \<Rightarrow> abs_mode" where
  "mode_to_abs_euclid Floor is_negative = AbsTrunc"
| "mode_to_abs_euclid Trunc False = AbsTrunc"
| "mode_to_abs_euclid Expand True = AbsTrunc"
| "mode_to_abs_euclid Ceil is_negative = AbsExpand"
| "mode_to_abs_euclid Expand False = AbsExpand"
| "mode_to_abs_euclid Trunc True = AbsExpand"
| "mode_to_abs_euclid HalfFloor is_negative = AbsHalfTrunc"
| "mode_to_abs_euclid HalfTrunc False = AbsHalfTrunc"
| "mode_to_abs_euclid HalfExpand True = AbsHalfTrunc"
| "mode_to_abs_euclid HalfCeil is_negative = AbsHalfExpand"
| "mode_to_abs_euclid HalfExpand False = AbsHalfExpand"
| "mode_to_abs_euclid HalfTrunc True = AbsHalfExpand"
| "mode_to_abs_euclid HalfEven is_negative = AbsHalfEven"

text \<open>The source matches on \<open>(self, !neg)\<close>; here the second argument is \<open>neg\<close>.\<close>

fun mode_to_abs_trunc :: "mode \<Rightarrow> bool \<Rightarrow> abs_mode" where
  "mode_to_abs_trunc Trunc neg = AbsTrunc"
| "mode_to_abs_trunc Floor False = AbsTrunc"
| "mode_to_abs_trunc Ceil True = AbsTrunc"
| "mode_to_abs_trunc Expand neg = AbsExpand"
| "mode_to_abs_trunc Ceil False = AbsExpand"
| "mode_to_abs_trunc Floor True = AbsExpand"
| "mode_to_abs_trunc HalfTrunc neg = AbsHalfTrunc"
| "mode_to_abs_trunc HalfFloor False = AbsHalfTrunc"
| "mode_to_abs_trunc HalfCeil True = AbsHalfTrunc"
| "mode_to_abs_trunc HalfExpand neg = AbsHalfExpand"
| "mode_to_abs_trunc HalfCeil False = AbsHalfExpand"
| "mode_to_abs_trunc HalfFloor True = AbsHalfExpand"
| "mode_to_abs_trunc HalfEven neg = AbsHalfEven"

subsection \<open>What rounding means\<close>

text \<open>\<open>rounds_to m i n r\<close>: \<open>r\<close> is the multiple of \<open>i\<close> that the mode picks
  for \<open>n\<close>, down and up being towards the smaller and the larger number.\<close>

fun rounds_to :: "abs_mode \<Rightarrow> int \<Rightarrow> int \<Rightarrow> int \<Rightarrow> bool" where
  "rounds_to AbsTrunc i n r \<longleftrightarrow> i dvd r \<and> r \<le> n \<and> n < r + i"
| "rounds_to AbsExpand i n r \<longleftrightarrow> i dvd r \<and> r - i < n \<and> n \<le> r"
| "rounds_to AbsHalfTrunc i n r \<longleftrightarrow> i dvd r \<and> 2 * (n - r) \<le> i \<and> 2 * (r - n) < i"
| "rounds_to AbsHalfExpand i n r \<longleftrightarrow> i dvd r \<and> 2 * (n - r) < i \<and> 2 * (r - n) \<le> i"
| "rounds_to AbsHalfEven i n r \<longleftrightarrow> i dvd r \<and> 2 * (n - r) \<le> i \<and> 2 * (r - n) \<le> i
     \<and> (2 * \<bar>n - r\<bar> = i \<longrightarrow> even (r div i))"

text \<open>The threshold that the three routines compare the remainder with.\<close>

fun threshold :: "abs_mode \<Rightarrow> int \<Rightarrow> int \<Rightarrow> int" where
  "threshold AbsHalfEven i q = max 1 (i div 2 + (if even q then 1 else 0))"
| "threshold AbsExpand i q = 1"
| "threshold AbsTrunc i q = i + 1"
| "threshold AbsHalfTrunc i q = i div 2 + 1"
| "threshold AbsHalfExpand i q = max 1 (i div 2)"

definition threshold_round :: "abs_mode \<Rightarrow> int \<Rightarrow> int \<Rightarrow> int" where
  "threshold_round m i n =
     (n div i + (if n mod i \<ge> threshold m i (n div i) then 1 else 0)) * i"

lemma threshold_rounds:
  assumes "0 < i" and "i = 1 \<or> even i"
  shows "rounds_to m i n (threshold_round m i n)"
proof -
  define q r where "q = n div i" and "r = n mod i"
  have n: "n = q * i + r" and r: "0 \<le> r" "r < i" using assms(1) by (simp_all add: q_def r_def)
  have eq: "threshold_round m i n = (q + (if r \<ge> threshold m i q then 1 else 0)) * i"
    by (simp add: threshold_round_def q_def r_def)
  show ?thesis
  proof (cases "i = 1")
    case True
    then show ?thesis using n r eq by (cases m) auto
  next
    case False
    then obtain h where i: "i = 2 * h" and h: "0 < h" using assms by (auto elim: evenE)
    show ?thesis
    proof (cases "r \<ge> threshold m i q")
      case True
      then have "threshold_round m i n = (q + 1) * i" using eq by simp
      moreover have "((q + 1) * i) div i = q + 1" using assms(1) by simp
      ultimately show ?thesis
        using n r i h True by (cases m) (auto simp: distrib_right split: if_splits)
    next
      case False
      then have "threshold_round m i n = q * i" using eq by simp
      moreover have "(q * i) div i = q" using assms(1) by simp
      ultimately show ?thesis
        using n r i h False by (cases m) (auto split: if_splits)
    qed
  qed
qed

subsection \<open>The contract of a rounding routine\<close>

lemma dvd_apart:
  fixes i a b :: int
  assumes "i dvd a" and "i dvd b" and "a < b" and "0 < i"
  shows "a + i \<le> b"
  using assms by (metis dvd_diff zdvd_imp_le add.commute diff_gt_0_iff_gt le_diff_eq)

lemma rounds_to_multiple: "rounds_to m i n r \<Longrightarrow> i dvd r"
  by (cases m) auto

lemma rounds_to_close: "rounds_to m i n r \<Longrightarrow> 0 < i \<Longrightarrow> \<bar>n - r\<bar> < i"
  by (cases m) auto

lemma rounds_to_mono:
  assumes "0 < i" and "rounds_to m i a r" and "rounds_to m i b s" and "a \<le> b"
  shows "r \<le> s"
proof (rule ccontr)
  assume "\<not> r \<le> s"
  then have s: "s < r" by simp
  with assms have "s + i \<le> r" by (intro dvd_apart) (auto dest: rounds_to_multiple)
  moreover have "m = AbsHalfEven \<Longrightarrow> s + i = r \<Longrightarrow> odd (s div i) \<or> odd (r div i)"
    using assms(1) rounds_to_multiple [OF assms(3)] by (auto simp: div_add)
  ultimately show False
    using assms by (cases m) (auto dest: dvd_div_mult_self)
qed

lemma rounds_to_unique:
  "0 < i \<Longrightarrow> rounds_to m i n r \<Longrightarrow> rounds_to m i n s \<Longrightarrow> r = s"
  using rounds_to_mono [of i m n r n s] rounds_to_mono [of i m n s n r] by simp

lemma rounds_to_self: "0 < i \<Longrightarrow> i dvd n \<Longrightarrow> rounds_to m i n n"
  by (cases m) auto

locale rounder =
  fixes dom :: "int \<Rightarrow> bool"
    and inc_ok :: "int \<Rightarrow> bool"
    and rnd :: "'m \<Rightarrow> int \<Rightarrow> int \<Rightarrow> int"
    and abs_of :: "'m \<Rightarrow> abs_mode"
  assumes inc_pos: "inc_ok i \<Longrightarrow> 0 < i"
    and rnd_rounds: "inc_ok i \<Longrightarrow> dom n \<Longrightarrow> rounds_to (abs_of m) i n (rnd m i n)"
begin

lemma rnd_eq_iff: "inc_ok i \<Longrightarrow> dom n \<Longrightarrow> rnd m i n = r \<longleftrightarrow> rounds_to (abs_of m) i n r"
  using rounds_to_unique [OF inc_pos] rnd_rounds by metis

lemma rnd_close: "inc_ok i \<Longrightarrow> dom n \<Longrightarrow> \<bar>n - rnd m i n\<bar> < i"
  using rounds_to_close inc_pos rnd_rounds by blast

lemma rnd_multiple: "inc_ok i \<Longrightarrow> dom n \<Longrightarrow> i dvd rnd m i n"
  using rounds_to_multiple rnd_rounds by blast

lemma rnd_fixed: "inc_ok i \<Longrightarrow> dom n \<Longrightarrow> i dvd n \<Longrightarrow> rnd m i n = n"
  by (simp add: rnd_eq_iff rounds_to_self inc_pos)

lemma rnd_mono: "inc_ok i \<Longrightarrow> dom a \<Longrightarrow> dom b \<Longrightarrow> a \<le> b \<Longrightarrow> rnd m i a \<le> rnd m i b"
  using rounds_to_mono [OF inc_pos] rnd_rounds by metis

end

end
