(* ===== verification/Delta.thy ===== *)
theory Delta
  imports Clock
begin

section \<open>Durations (\<open>time_delta.rs\<close>, \<open>date_delta.rs\<close>, \<open>datetime_delta.rs\<close>, \<open>shift.rs\<close>)\<close>

text \<open>
  \<open>TimeDelta\<close> (seconds plus nanoseconds), \<open>DateDelta\<close> (months and days),
  \<open>DateTimeDelta\<close> (both, of one sign), the shifts built from them, and the
  rounding of a \<open>TimeDelta\<close>. Reading and printing durations is in \<open>Delta_Text\<close>.
\<close>

subsection \<open>\<open>TimeDelta\<close>\<close>

record time_delta =
  td_secs :: delta_seconds
  td_subsec :: subsec_nanos

definition td_min :: time_delta where
  "td_min = \<lparr>td_secs = DeltaSeconds delta_seconds_min, td_subsec = SubSecNanos subsec_min\<rparr>"

definition td_max :: time_delta where
  "td_max = \<lparr>td_secs = DeltaSeconds delta_seconds_max, td_subsec = SubSecNanos subsec_min\<rparr>"

definition td_resolution :: time_delta where
  "td_resolution = \<lparr>td_secs = DeltaSeconds 0, td_subsec = SubSecNanos 1\<rparr>"

definition td_zero :: time_delta where
  "td_zero = \<lparr>td_secs = DeltaSeconds 0, td_subsec = SubSecNanos subsec_min\<rparr>"

definition td_from_nanos_unchecked :: "int \<Rightarrow> time_delta" where
  "td_from_nanos_unchecked nanos =
     \<lparr>td_secs = DeltaSeconds (as_i64 (nanos div ns_per_sec)),
      td_subsec = SubSecNanos (as_i32 (nanos mod ns_per_sec))\<rparr>"

definition td_from_nanos :: "int \<Rightarrow> time_delta option" where
  "td_from_nanos nanos =
     do { d \<leftarrow> delta_nanos_new nanos;
          let (secs, subsec) = delta_nanos_sec_subsec d;
          Some \<lparr>td_secs = secs, td_subsec = subsec\<rparr> }"

definition td_total_nanos :: "time_delta \<Rightarrow> int" where
  "td_total_nanos d = delta_seconds_get (td_secs d) * ns_per_sec + subsec_get (td_subsec d)"

definition td_is_zero :: "time_delta \<Rightarrow> bool" where
  "td_is_zero d \<longleftrightarrow> delta_seconds_get (td_secs d) = 0 \<and> subsec_get (td_subsec d) = 0"

definition td_is_negative :: "time_delta \<Rightarrow> bool" where
  "td_is_negative d \<longleftrightarrow> delta_seconds_get (td_secs d) < 0"

definition td_neg :: "time_delta \<Rightarrow> time_delta" where
  "td_neg d = td_from_nanos_unchecked (- td_total_nanos d)"

definition td_negate_if :: "time_delta \<Rightarrow> bool \<Rightarrow> time_delta" where
  "td_negate_if d condition = (if condition then td_neg d else d)"

definition td_abs :: "time_delta \<Rightarrow> time_delta" where
  "td_abs d = (if delta_seconds_get (td_secs d) \<ge> 0 then d else td_neg d)"

definition td_mul :: "time_delta \<Rightarrow> int \<Rightarrow> time_delta option" where
  "td_mul d factor = checked i128_ok (td_total_nanos d * factor) \<bind> td_from_nanos"

definition td_add :: "time_delta \<Rightarrow> time_delta \<Rightarrow> time_delta option" where
  "td_add d other = td_from_nanos (td_total_nanos d + td_total_nanos other)"

definition offset_to_delta :: "offset \<Rightarrow> time_delta" where
  "offset_to_delta o1 = \<lparr>td_secs = DeltaSeconds (offset_get o1), td_subsec = SubSecNanos subsec_min\<rparr>"

text \<open>The invariant of the type: between \<open>MIN\<close> and \<open>MAX\<close>, inclusive.\<close>

definition td_ok :: "time_delta \<Rightarrow> bool" where
  "td_ok d \<longleftrightarrow> delta_seconds_ok (td_secs d) \<and> subsec_ok (td_subsec d)
     \<and> td_total_nanos d \<le> delta_nanos_max"

subsection \<open>Rounding\<close>

record delta_increment =
  di_secs :: int
  di_subsec :: subsec_nanos

definition di_from_nanos :: "int \<Rightarrow> delta_increment option" where
  "di_from_nanos nanos =
     (if nanos \<noteq> 0
      then do { secs \<leftarrow> checked u64_ok (nanos div ns_per_sec);
                Some \<lparr>di_secs = secs, di_subsec = subsec_from_remainder nanos\<rparr> }
      else None)"

definition di_total_nanos :: "delta_increment \<Rightarrow> int" where
  "di_total_nanos i = di_secs i * ns_per_sec + subsec_get (di_subsec i)"

fun td_round_threshold :: "abs_mode \<Rightarrow> int \<Rightarrow> int \<Rightarrow> int" where
  "td_round_threshold AbsHalfEven increment quot =
     max 1 (increment sdiv 2 + (if \<bar>quot\<bar> mod 2 = 0 then 1 else 0))"
| "td_round_threshold AbsExpand increment quot = 1"
| "td_round_threshold AbsTrunc increment quot = increment + 1"
| "td_round_threshold AbsHalfTrunc increment quot = increment sdiv 2 + 1"
| "td_round_threshold AbsHalfExpand increment quot = max 1 (increment sdiv 2)"

definition td_round_u128 :: "time_delta \<Rightarrow> int \<Rightarrow> abs_mode \<Rightarrow> time_delta option" where
  "td_round_u128 d increment m =
     (let increment = as_i128 increment;
          total_ns = td_total_nanos d;
          quot = total_ns div increment;
          remainder = total_ns mod increment;
          result_ns = (quot + (if remainder \<ge> td_round_threshold m increment quot then 1 else 0)) * increment
      in do { secs \<leftarrow> delta_seconds_new (as_i64 (result_ns div ns_per_sec));
              Some \<lparr>td_secs = secs, td_subsec = SubSecNanos (as_i32 (result_ns mod ns_per_sec))\<rparr> })"

text \<open>The source unwraps \<open>secs.add(extra_secs)\<close>; \<open>td_round_no_panic\<close> shows that
  it is \<open>Some\<close>. \<open>n.is_multiple_of(0)\<close> is \<open>n == 0\<close>, as is \<open>dvd\<close>.\<close>

definition td_round :: "time_delta \<Rightarrow> delta_increment \<Rightarrow> abs_mode \<Rightarrow> time_delta option" where
  "td_round d increment m =
     (if di_secs increment = 0 \<and> as_u32 (subsec_get (di_subsec increment)) dvd ns_per_sec
      then (let (extra_secs, subsec) = subsec_round (td_subsec d) (as_u32 (subsec_get (di_subsec increment))) m
            in Some \<lparr>td_secs = the (delta_seconds_add (td_secs d) extra_secs), td_subsec = subsec\<rparr>)
      else td_round_u128 d (di_total_nanos increment) m)"

subsection \<open>\<open>DateDelta\<close> and \<open>DateTimeDelta\<close>\<close>

datatype init_error = TooBig | MixedSign

record date_delta =
  dd_months :: delta_months
  dd_days :: delta_days

definition dd_zero :: date_delta where
  "dd_zero = \<lparr>dd_months = DeltaMonths 0, dd_days = DeltaDays 0\<rparr>"

definition same_sign :: "delta_months \<Rightarrow> delta_days \<Rightarrow> bool" where
  "same_sign months days \<longleftrightarrow>
     delta_months_get months \<ge> 0 \<and> delta_days_get days \<ge> 0
     \<or> delta_months_get months \<le> 0 \<and> delta_days_get days \<le> 0"

definition dd_new :: "delta_months \<Rightarrow> delta_days \<Rightarrow> date_delta option" where
  "dd_new months days =
     (if same_sign months days then Some \<lparr>dd_months = months, dd_days = days\<rparr> else None)"

definition dd_from_months :: "delta_months \<Rightarrow> date_delta" where
  "dd_from_months months = \<lparr>dd_months = months, dd_days = DeltaDays 0\<rparr>"

definition dd_from_days :: "delta_days \<Rightarrow> date_delta" where
  "dd_from_days days = \<lparr>dd_months = DeltaMonths 0, dd_days = days\<rparr>"

definition dd_mul :: "date_delta \<Rightarrow> int \<Rightarrow> date_delta option" where
  "dd_mul d factor =
     do { months \<leftarrow> delta_months_mul (dd_months d) factor;
          days \<leftarrow> delta_days_mul (dd_days d) factor;
          Some \<lparr>dd_months = months, dd_days = days\<rparr> }"

definition dd_add :: "date_delta \<Rightarrow> date_delta \<Rightarrow> init_error + date_delta" where
  "dd_add d other =
     (case do { months \<leftarrow> delta_months_add (dd_months d) (dd_months other);
                days \<leftarrow> delta_days_add (dd_days d) (dd_days other);
                Some (months, days) } of
        None \<Rightarrow> Inl TooBig
      | Some (months, days) \<Rightarrow>
          (case dd_new months days of None \<Rightarrow> Inl MixedSign | Some r \<Rightarrow> Inr r))"

definition dd_is_zero :: "date_delta \<Rightarrow> bool" where
  "dd_is_zero d \<longleftrightarrow> delta_months_is_zero (dd_months d) \<and> delta_days_is_zero (dd_days d)"

definition dd_abs :: "date_delta \<Rightarrow> date_delta" where
  "dd_abs d = \<lparr>dd_months = delta_months_abs (dd_months d), dd_days = delta_days_abs (dd_days d)\<rparr>"

definition dd_neg :: "date_delta \<Rightarrow> date_delta" where
  "dd_neg d = \<lparr>dd_months = delta_months_neg (dd_months d), dd_days = delta_days_neg (dd_days d)\<rparr>"

record datetime_delta =
  dtd_date :: date_delta
  dtd_time :: time_delta

definition dtd_zero :: datetime_delta where
  "dtd_zero = \<lparr>dtd_date = dd_zero, dtd_time = td_zero\<rparr>"

text \<open>The sign condition that \<open>new\<close> and \<open>add\<close> both write out.\<close>

definition one_sign :: "date_delta \<Rightarrow> time_delta \<Rightarrow> bool" where
  "one_sign d t \<longleftrightarrow>
     delta_months_get (dd_months d) \<ge> 0 \<and> delta_days_get (dd_days d) \<ge> 0 \<and> delta_seconds_get (td_secs t) \<ge> 0
     \<or> delta_months_get (dd_months d) \<le> 0 \<and> delta_days_get (dd_days d) \<le> 0 \<and> delta_seconds_get (td_secs t) \<le> 0"

definition dtd_new :: "date_delta \<Rightarrow> time_delta \<Rightarrow> datetime_delta option" where
  "dtd_new d t = (if one_sign d t then Some \<lparr>dtd_date = d, dtd_time = t\<rparr> else None)"

definition dtd_mul :: "datetime_delta \<Rightarrow> int \<Rightarrow> datetime_delta option" where
  "dtd_mul d factor =
     do { date \<leftarrow> dd_mul (dtd_date d) factor;
          t \<leftarrow> td_mul (dtd_time d) factor;
          Some \<lparr>dtd_date = date, dtd_time = t\<rparr> }"

definition dtd_add :: "datetime_delta \<Rightarrow> datetime_delta \<Rightarrow> init_error + datetime_delta" where
  "dtd_add d other =
     (case dd_add (dtd_date d) (dtd_date other) of
        Inl e \<Rightarrow> Inl e
      | Inr date \<Rightarrow>
          (case td_add (dtd_time d) (dtd_time other) of
             None \<Rightarrow> Inl TooBig
           | Some t \<Rightarrow>
               if one_sign date t then Inr \<lparr>dtd_date = date, dtd_time = t\<rparr> else Inl MixedSign))"

definition dtd_neg :: "datetime_delta \<Rightarrow> datetime_delta" where
  "dtd_neg d = \<lparr>dtd_date = dd_neg (dtd_date d), dtd_time = td_neg (dtd_time d)\<rparr>"

subsection \<open>Shifts\<close>

record calendar_shift =
  cs_months :: delta_months
  cs_days :: delta_days

record datetime_shift =
  ds_calendar :: calendar_shift
  ds_time :: time_delta

definition cs_zero :: calendar_shift where
  "cs_zero = \<lparr>cs_months = DeltaMonths 0, cs_days = DeltaDays 0\<rparr>"

definition cs_add :: "calendar_shift \<Rightarrow> calendar_shift \<Rightarrow> calendar_shift option" where
  "cs_add s other =
     do { months \<leftarrow> delta_months_add (cs_months s) (cs_months other);
          days \<leftarrow> delta_days_add (cs_days s) (cs_days other);
          Some \<lparr>cs_months = months, cs_days = days\<rparr> }"

text \<open>\<open>NegateIf\<close> for every type with a negation.\<close>

definition negate_if :: "('a \<Rightarrow> 'a) \<Rightarrow> 'a \<Rightarrow> bool \<Rightarrow> 'a" where
  "negate_if neg x condition = (if condition then neg x else x)"

definition cs_negate_if :: "calendar_shift \<Rightarrow> bool \<Rightarrow> calendar_shift" where
  "cs_negate_if s negate =
     \<lparr>cs_months = negate_if delta_months_neg (cs_months s) negate,
      cs_days = negate_if delta_days_neg (cs_days s) negate\<rparr>"

definition cs_is_zero :: "calendar_shift \<Rightarrow> bool" where
  "cs_is_zero s \<longleftrightarrow> delta_months_is_zero (cs_months s) \<and> delta_days_is_zero (cs_days s)"

definition cs_to_shift :: "calendar_shift \<Rightarrow> datetime_shift" where
  "cs_to_shift s = \<lparr>ds_calendar = s, ds_time = td_zero\<rparr>"

definition ds_zero :: datetime_shift where
  "ds_zero = \<lparr>ds_calendar = cs_zero, ds_time = td_zero\<rparr>"

definition ds_add :: "datetime_shift \<Rightarrow> datetime_shift \<Rightarrow> datetime_shift option" where
  "ds_add s other =
     do { calendar \<leftarrow> cs_add (ds_calendar s) (ds_calendar other);
          t \<leftarrow> td_add (ds_time s) (ds_time other);
          Some \<lparr>ds_calendar = calendar, ds_time = t\<rparr> }"

definition ds_negate_if :: "datetime_shift \<Rightarrow> bool \<Rightarrow> datetime_shift" where
  "ds_negate_if s negate =
     \<lparr>ds_calendar = cs_negate_if (ds_calendar s) negate, ds_time = td_negate_if (ds_time s) negate\<rparr>"

definition td_to_shift :: "time_delta \<Rightarrow> datetime_shift" where
  "td_to_shift d = \<lparr>ds_calendar = cs_zero, ds_time = d\<rparr>"

end
