(* ===== verification/Calendar.thy ===== *)
theory Calendar
  imports Scalar "HOL-Library.Product_Lexorder"
begin

section \<open>The civil calendar (\<open>src/src/domain/date.rs\<close>, \<open>UnixDays\<close> of \<open>scalar.rs\<close>)\<close>

text \<open>
  Dates, the length and the start of months and years, the conversion between dates and day
  numbers in both directions, shifting by months and days, weekdays and ISO weeks, and the
  boundaries of the units. Parsing and printing of dates are in \<open>Iso_Text\<close>.
\<close>

subsection \<open>Dates\<close>

record date =
  d_year :: year
  d_month :: month
  d_day :: int

definition date_max :: date where
  "date_max = \<lparr>d_year = Year 9999, d_month = December, d_day = 31\<rparr>"

definition date_min :: date where
  "date_min = \<lparr>d_year = Year 1, d_month = January, d_day = 1\<rparr>"

text \<open>\<open>derive(Ord)\<close>: fields compared in order.\<close>

definition date_key :: "'a date_scheme \<Rightarrow> year \<times> month \<times> int \<times> 'a" where
  "date_key d = (d_year d, d_month d, d_day d, date.more d)"

lemma date_key_inject: "date_key a = date_key b \<longleftrightarrow> a = b"
  by (auto simp: date_key_def intro: date.equality)

instantiation date_ext :: (linorder) linorder
begin
definition less_eq_date_ext :: "'a date_scheme \<Rightarrow> 'a date_scheme \<Rightarrow> bool" where
  "less_eq_date_ext a b \<longleftrightarrow> date_key a \<le> date_key b"
definition less_date_ext :: "'a date_scheme \<Rightarrow> 'a date_scheme \<Rightarrow> bool" where
  "less_date_ext a b \<longleftrightarrow> date_key a < date_key b"
instance
  by intro_classes
    (simp_all only: less_eq_date_ext_def less_date_ext_def less_le_not_le order_refl linear
      date_key_inject flip: eq_iff, auto intro: order_trans simp: date_key_inject [symmetric])
end

lemma date_less_iff:
  "(a :: date) < b \<longleftrightarrow> d_year a < d_year b \<or> d_year a = d_year b \<and>
     (d_month a < d_month b \<or> d_month a = d_month b \<and> d_day a < d_day b)"
  by (auto simp: less_date_ext_def date_key_def)

definition max_month_days :: "int list list" where
  "max_month_days =
     [[0, 31, 28, 31, 30, 31, 30, 31, 31, 30, 31, 30, 31],
      [0, 31, 29, 31, 30, 31, 30, 31, 31, 30, 31, 30, 31]]"

definition days_before_month :: "int list list" where
  "days_before_month =
     [[0, 0, 31, 59, 90, 120, 151, 181, 212, 243, 273, 304, 334],
      [0, 0, 31, 60, 91, 121, 152, 182, 213, 244, 274, 305, 335]]"

definition year_days_in_month :: "year \<Rightarrow> month \<Rightarrow> int" where
  "year_days_in_month y m =
     max_month_days ! (if year_is_leap y then 1 else 0) ! nat (month_get m)"

definition year_days_before_month :: "year \<Rightarrow> month \<Rightarrow> int" where
  "year_days_before_month y m =
     days_before_month ! (if year_is_leap y then 1 else 0) ! nat (month_get m)"

text \<open>\<open>/\<close> on the non-negative \<open>year - 1\<close> is the floor division.\<close>

definition year_days_before :: "year \<Rightarrow> int" where
  "year_days_before yr =
     (let y = year_get yr - 1 in y * 365 + y div 4 - y div 100 + y div 400)"

definition year_unix_days_at_jan1 :: "year \<Rightarrow> unix_days" where
  "year_unix_days_at_jan1 yr =
     (let y = year_get yr - 1 in UnixDays (y * 365 + y div 4 - y div 100 + y div 400 - 719162))"

definition date_new :: "year \<Rightarrow> month \<Rightarrow> int \<Rightarrow> date option" where
  "date_new y m d =
     (if 1 \<le> d \<and> d \<le> year_days_in_month y m
      then Some \<lparr>d_year = y, d_month = m, d_day = d\<rparr> else None)"

definition date_new_clamp_days :: "year \<Rightarrow> month \<Rightarrow> int \<Rightarrow> date" where
  "date_new_clamp_days y m d =
     \<lparr>d_year = y, d_month = m, d_day = min d (year_days_in_month y m)\<rparr>"

definition date_last_of_month :: "year \<Rightarrow> month \<Rightarrow> date" where
  "date_last_of_month y m = \<lparr>d_year = y, d_month = m, d_day = year_days_in_month y m\<rparr>"

definition date_first_of_month :: "year \<Rightarrow> month \<Rightarrow> date" where
  "date_first_of_month y m = \<lparr>d_year = y, d_month = m, d_day = 1\<rparr>"

text \<open>The invariant of a date: what \<open>Date::new\<close> lets through, of a year in range.\<close>

definition date_ok :: "date \<Rightarrow> bool" where
  "date_ok d \<longleftrightarrow> year_ok (d_year d) \<and> 1 \<le> d_day d
     \<and> d_day d \<le> year_days_in_month (d_year d) (d_month d)"

subsection \<open>Day numbers\<close>

definition date_unix_days :: "date \<Rightarrow> unix_days" where
  "date_unix_days d =
     UnixDays (year_days_before (d_year d) + year_days_before_month (d_year d) (d_month d)
       + d_day d + unix_days_min - 1)"

text \<open>
  The Neri-Schneider algorithm, on words of the code's widths. \<open>as u32\<close> of the possibly
  negative day number is its two's complement.
\<close>

definition unix_days_date :: "unix_days \<Rightarrow> date" where
  "unix_days_date u =
     (let S = 82 :: 32 word;
          K = 719468 + 146097 * S;
          L = 400 * S;
          n = word_of_int (unix_days_get u) + K;
          n_1 = 4 * n + 3;
          c = n_1 div 146097;
          n_c = n_1 mod 146097 div 4;
          n_2 = 4 * n_c + 3;
          p_2 = 2939745 * (ucast n_2 :: 64 word);
          z = (ucast (p_2 div 4294967296) :: 32 word);
          n_y = (ucast (p_2 mod 4294967296) :: 32 word) div 2939745 div 4;
          y = 100 * c + z;
          n_3 = 2141 * n_y + 197913;
          m = n_3 div 65536;
          d = n_3 mod 65536 div 2141;
          j = n_y \<ge> 306;
          y_g = y - L + (if j then 1 else 0);
          m_g = (if j then m - 12 else m);
          d_g = d + 1
      in \<lparr>d_year = Year (uint (ucast y_g :: 16 word)),
          d_month = month_new_unchecked (uint (ucast m_g :: 8 word)),
          d_day = uint (ucast d_g :: 8 word)\<rparr>)"

definition epoch_date :: "epoch_secs \<Rightarrow> date" where
  "epoch_date e = unix_days_date (epoch_as_days e)"

definition date_day_of_week :: "date \<Rightarrow> weekday" where
  "date_day_of_week d = unix_days_day_of_week (date_unix_days d)"

subsection \<open>Shifting\<close>

definition month_shift :: "month \<Rightarrow> year \<Rightarrow> delta_months \<Rightarrow> (year \<times> month) option" where
  "month_shift m y delta =
     (let new_month_unclamped = month_get m + delta_months_get delta - 1
      in do { y' \<leftarrow> year_from_i32 (year_get y + new_month_unclamped div 12);
              Some (y', month_new_unchecked (as_u8 (new_month_unclamped mod 12) + 1)) })"

definition date_shift_days :: "date \<Rightarrow> delta_days \<Rightarrow> date option" where
  "date_shift_days d days =
     do { u \<leftarrow> unix_days_shift (date_unix_days d) days; Some (unix_days_date u) }"

definition date_shift_months :: "date \<Rightarrow> delta_months \<Rightarrow> date option" where
  "date_shift_months d months =
     do { (y, m) \<leftarrow> month_shift (d_month d) (d_year d) months;
          Some (date_new_clamp_days y m (d_day d)) }"

definition date_shift :: "date \<Rightarrow> delta_months \<Rightarrow> delta_days \<Rightarrow> date option" where
  "date_shift d months days =
     do { d' \<leftarrow> date_shift_months d months; date_shift_days d' days }"

definition date_tomorrow :: "date \<Rightarrow> date option" where
  "date_tomorrow dt =
     (let y = d_year dt; m = d_month dt; d = d_day dt
      in if d < year_days_in_month y m
         then Some \<lparr>d_year = y, d_month = m, d_day = d + 1\<rparr>
         else if m < December
         then Some \<lparr>d_year = y, d_month = month_new_unchecked (month_get m + 1), d_day = 1\<rparr>
         else do { y' \<leftarrow> year_new (year_get y + 1);
                   Some \<lparr>d_year = y', d_month = January, d_day = 1\<rparr> })"

definition date_yesterday :: "date \<Rightarrow> date option" where
  "date_yesterday dt =
     (let y = d_year dt; m = d_month dt; d = d_day dt
      in if d > 1
         then Some \<lparr>d_year = y, d_month = m, d_day = d - 1\<rparr>
         else if m > January
         then (let m' = month_new_unchecked (month_get m - 1)
               in Some \<lparr>d_year = y, d_month = m', d_day = year_days_in_month y m'\<rparr>)
         else do { y' \<leftarrow> year_new (year_get y - 1);
                   Some \<lparr>d_year = y', d_month = December, d_day = 31\<rparr> })"

subsection \<open>Weekdays, days of the year, ISO weeks\<close>

definition date_nth_weekday_in_month :: "year \<Rightarrow> month \<Rightarrow> int \<Rightarrow> weekday \<Rightarrow> date option" where
  "date_nth_weekday_in_month y m n target =
     (let target_dow = weekday_iso target;
          dim = year_days_in_month y m;
          day = (if n > 0 then
                   (let first_dow = weekday_iso (date_day_of_week (date_first_of_month y m));
                        off = (target_dow - first_dow) mod 7
                    in 1 + off + (n - 1) * 7)
                 else
                   (let last_dow = weekday_iso (date_day_of_week (date_last_of_month y m));
                        off = (last_dow - target_dow) mod 7
                    in dim - off + (n + 1) * 7))
      in if 1 \<le> day \<and> day \<le> dim
         then Some \<lparr>d_year = y, d_month = m, d_day = as_u8 day\<rparr> else None)"

definition date_day_of_year :: "date \<Rightarrow> int" where
  "date_day_of_year d = year_days_before_month (d_year d) (d_month d) + d_day d"

definition date_days_in_month :: "date \<Rightarrow> int" where
  "date_days_in_month d = year_days_in_month (d_year d) (d_month d)"

definition date_days_in_year :: "date \<Rightarrow> int" where
  "date_days_in_year d = (if year_is_leap (d_year d) then 366 else 365)"

definition date_is_in_leap_year :: "date \<Rightarrow> bool" where
  "date_is_in_leap_year d = year_is_leap (d_year d)"

definition date_iso_year_week :: "date \<Rightarrow> int \<times> int" where
  "date_iso_year_week d =
     (let doy = date_day_of_year d;
          dow = weekday_iso (date_day_of_week d);
          nearest_thursday_doy = doy + (4 - dow);
          iso_year = year_get (d_year d)
      in if nearest_thursday_doy \<le> 0 then
           (let iso_year' = iso_year - 1;
                prev_year_days = (if year_is_leap (Year (as_u16 iso_year')) then 366 else 365);
                week = (nearest_thursday_doy + prev_year_days - 1) sdiv 7 + 1
            in (iso_year', as_u8 week))
         else
           (let year_days = (if year_is_leap (d_year d) then 366 else 365)
            in if nearest_thursday_doy > year_days then (iso_year + 1, 1)
               else (let week = (nearest_thursday_doy - 1) sdiv 7 + 1
                     in (iso_year, as_u8 week))))"

subsection \<open>Boundaries of calendar units\<close>

datatype date_boundary_unit = BYear | BMonth | BWeekMon | BWeekSun

text \<open>\<open>end_of_week_mon\<close> and \<open>end_of_week_sun\<close> unwrap \<open>DeltaDays::new\<close> of
  0..6, which is in range (\<open>week_delta_days\<close> below).\<close>

definition date_end_of_week_mon :: "date \<Rightarrow> date option" where
  "date_end_of_week_mon d =
     (let days_fwd = 7 - weekday_iso (unix_days_day_of_week (date_unix_days d))
      in date_shift_days d (the (delta_days_new days_fwd)))"

definition date_end_of_week_sun :: "date \<Rightarrow> date option" where
  "date_end_of_week_sun d =
     (let dow = weekday_iso (unix_days_day_of_week (date_unix_days d));
          days_fwd = (6 - dow) mod 7
      in date_shift_days d (the (delta_days_new days_fwd)))"

definition date_start_of_week_mon :: "date \<Rightarrow> date option" where
  "date_start_of_week_mon d =
     (let days_back = weekday_iso (unix_days_day_of_week (date_unix_days d)) - 1
      in date_shift_days d (DeltaDays (- days_back)))"

definition date_start_of_week_sun :: "date \<Rightarrow> date option" where
  "date_start_of_week_sun d =
     (let dow = weekday_iso (unix_days_day_of_week (date_unix_days d)) mod 7
      in date_shift_days d (DeltaDays (- dow)))"

fun date_start_of :: "date \<Rightarrow> date_boundary_unit \<Rightarrow> date option" where
  "date_start_of d BWeekMon = date_start_of_week_mon d"
| "date_start_of d BWeekSun = date_start_of_week_sun d"
| "date_start_of d BMonth = Some \<lparr>d_year = d_year d, d_month = d_month d, d_day = 1\<rparr>"
| "date_start_of d BYear = Some \<lparr>d_year = d_year d, d_month = January, d_day = 1\<rparr>"

fun date_end_of :: "date \<Rightarrow> date_boundary_unit \<Rightarrow> date option" where
  "date_end_of d BWeekMon = date_end_of_week_mon d"
| "date_end_of d BWeekSun = date_end_of_week_sun d"
| "date_end_of d BMonth = Some (d\<lparr>d_day := year_days_in_month (d_year d) (d_month d)\<rparr>)"
| "date_end_of d BYear = Some (date_max\<lparr>d_year := d_year d\<rparr>)"

definition date_next_start_of :: "date \<Rightarrow> date_boundary_unit \<Rightarrow> date option" where
  "date_next_start_of d unit = do { e \<leftarrow> date_end_of d unit; date_tomorrow e }"

end
