(* ===== verification/Moments.thy ===== *)
theory Moments
  imports Delta Calendar
begin

section \<open>Instants and date-times (\<open>instant.rs\<close>, \<open>plain_datetime.rs\<close>, \<open>offset_datetime.rs\<close>, \<open>local.rs\<close>)\<close>

text \<open>
  An \<open>Instant\<close> is a count of seconds since the epoch with nanoseconds, a
  \<open>PlainDateTime\<close> a date with a time of day, an \<open>OffsetDateTime\<close> such a pair with a
  UTC offset, and \<open>LocalMapping\<close> says which offsets a local time has in a time zone.
  Reading these from text is in \<open>Iso_Text\<close>; the conversions from floating-point
  timestamps are not modelled.
\<close>

subsection \<open>Instants\<close>

record instant =
  i_epoch :: epoch_secs
  i_subsec :: subsec_nanos

record plain_datetime =
  pdt_date :: date
  pdt_time :: time

definition instant_key :: "'a instant_scheme \<Rightarrow> epoch_secs \<times> subsec_nanos \<times> 'a" where
  "instant_key i = (i_epoch i, i_subsec i, instant.more i)"

lemma instant_key_inject: "instant_key a = instant_key b \<longleftrightarrow> a = b"
  by (auto simp: instant_key_def intro: instant.equality)

instantiation instant_ext :: (linorder) linorder
begin
definition less_eq_instant_ext :: "'a instant_scheme \<Rightarrow> 'a instant_scheme \<Rightarrow> bool" where
  "less_eq_instant_ext a b \<longleftrightarrow> instant_key a \<le> instant_key b"
definition less_instant_ext :: "'a instant_scheme \<Rightarrow> 'a instant_scheme \<Rightarrow> bool" where
  "less_instant_ext a b \<longleftrightarrow> instant_key a < instant_key b"
instance
  by intro_classes
    (simp_all only: less_eq_instant_ext_def less_instant_ext_def less_le_not_le order_refl linear
      instant_key_inject flip: eq_iff, auto intro: order_trans simp: instant_key_inject [symmetric])
end

definition epoch_datetime :: "epoch_secs \<Rightarrow> subsec_nanos \<Rightarrow> plain_datetime" where
  "epoch_datetime e nanos = \<lparr>pdt_date = epoch_date e, pdt_time = epoch_time e nanos\<rparr>"

definition instant_to_utc_plain :: "instant \<Rightarrow> plain_datetime" where
  "instant_to_utc_plain i = epoch_datetime (i_epoch i) (i_subsec i)"

definition instant_timestamp_millis :: "instant \<Rightarrow> int" where
  "instant_timestamp_millis i = epoch_get (i_epoch i) * 1000 + subsec_get (i_subsec i) sdiv 1000000"

definition instant_timestamp_nanos :: "instant \<Rightarrow> int" where
  "instant_timestamp_nanos i = epoch_get (i_epoch i) * 1000000000 + subsec_get (i_subsec i)"

definition instant_diff :: "instant \<Rightarrow> instant \<Rightarrow> time_delta" where
  "instant_diff i other = td_from_nanos_unchecked (instant_timestamp_nanos i - instant_timestamp_nanos other)"

definition instant_from_timestamp :: "int \<Rightarrow> instant option" where
  "instant_from_timestamp timestamp =
     do { epoch \<leftarrow> epoch_new timestamp; Some \<lparr>i_epoch = epoch, i_subsec = SubSecNanos subsec_min\<rparr> }"

definition instant_from_timestamp_millis :: "int \<Rightarrow> instant option" where
  "instant_from_timestamp_millis millis =
     do { epoch \<leftarrow> epoch_new (millis div 1000);
          Some \<lparr>i_epoch = epoch, i_subsec = SubSecNanos (as_i32 (millis mod 1000) * 1000000)\<rparr> }"

definition instant_from_timestamp_nanos :: "int \<Rightarrow> instant option" where
  "instant_from_timestamp_nanos timestamp =
     do { secs \<leftarrow> checked i64_ok (timestamp div 1000000000);
          epoch \<leftarrow> epoch_new secs;
          Some \<lparr>i_epoch = epoch, i_subsec = subsec_from_remainder timestamp\<rparr> }"

definition instant_shift :: "instant \<Rightarrow> time_delta \<Rightarrow> instant option" where
  "instant_shift i delta =
     (let (extra_sec, subsec) = subsec_add (i_subsec i) (td_subsec delta)
      in do { e \<leftarrow> epoch_shift (i_epoch i) (td_secs delta);
              e' \<leftarrow> epoch_shift e extra_sec;
              Some \<lparr>i_epoch = e', i_subsec = subsec\<rparr> })"

definition instant_shift_by_offset :: "instant \<Rightarrow> offset \<Rightarrow> instant option" where
  "instant_shift_by_offset i x =
     do { e \<leftarrow> epoch_shift_by_offset (i_epoch i) x; Some \<lparr>i_epoch = e, i_subsec = i_subsec i\<rparr> }"

definition instant_to_delta :: "instant \<Rightarrow> time_delta" where
  "instant_to_delta i = \<lparr>td_secs = epoch_to_delta (i_epoch i), td_subsec = i_subsec i\<rparr>"

subsection \<open>Local seconds and plain date-times\<close>

definition unix_days_epoch_at :: "unix_days \<Rightarrow> time \<Rightarrow> epoch_secs" where
  "unix_days_epoch_at u t = EpochSecs (unix_days_get u * s_per_day + time_total_seconds t)"

definition date_epoch_at :: "date \<Rightarrow> time \<Rightarrow> epoch_secs" where
  "date_epoch_at d t = unix_days_epoch_at (date_unix_days d) t"

definition date_at :: "date \<Rightarrow> time \<Rightarrow> plain_datetime" where
  "date_at d t = \<lparr>pdt_date = d, pdt_time = t\<rparr>"

definition time_on :: "time \<Rightarrow> date \<Rightarrow> plain_datetime" where
  "time_on t d = \<lparr>pdt_date = d, pdt_time = t\<rparr>"

definition date_shift_by :: "date \<Rightarrow> calendar_shift \<Rightarrow> date option" where
  "date_shift_by d s = date_shift d (cs_months s) (cs_days s)"

datatype local_seconds = LocalSeconds (ls_epoch: epoch_secs)

definition ls_from_instant_saturating :: "epoch_secs \<Rightarrow> offset \<Rightarrow> local_seconds" where
  "ls_from_instant_saturating e x = LocalSeconds (epoch_saturating_shift_by_offset e x)"

definition ls_assume_utc :: "local_seconds \<Rightarrow> epoch_secs" where
  "ls_assume_utc l = ls_epoch l"

definition ls_to_epoch :: "local_seconds \<Rightarrow> offset \<Rightarrow> epoch_secs option" where
  "ls_to_epoch l x = epoch_shift_by_offset (ls_epoch l) (offset_neg x)"

definition ls_to_epoch_saturating :: "local_seconds \<Rightarrow> offset \<Rightarrow> epoch_secs" where
  "ls_to_epoch_saturating l x = epoch_saturating_shift_by_offset (ls_epoch l) (offset_neg x)"

definition ls_get :: "local_seconds \<Rightarrow> int" where
  "ls_get l = epoch_get (ls_epoch l)"

definition ls_saturating_add_i32 :: "local_seconds \<Rightarrow> int \<Rightarrow> local_seconds" where
  "ls_saturating_add_i32 l seconds = LocalSeconds (epoch_saturating_add_i32 (ls_epoch l) seconds)"

definition ls_datetime :: "local_seconds \<Rightarrow> subsec_nanos \<Rightarrow> plain_datetime" where
  "ls_datetime l subsec = epoch_datetime (ls_epoch l) subsec"

definition ls_date :: "local_seconds \<Rightarrow> date" where
  "ls_date l = epoch_date (ls_epoch l)"

definition pdt_local_seconds :: "plain_datetime \<Rightarrow> local_seconds" where
  "pdt_local_seconds p = LocalSeconds (date_epoch_at (pdt_date p) (pdt_time p))"

definition pdt_min :: plain_datetime where
  "pdt_min = \<lparr>pdt_date = date_min, pdt_time = time_min\<rparr>"

definition pdt_max :: plain_datetime where
  "pdt_max = \<lparr>pdt_date = date_max, pdt_time = time_max\<rparr>"

definition pdt_assume_utc :: "plain_datetime \<Rightarrow> instant" where
  "pdt_assume_utc p = \<lparr>i_epoch = ls_assume_utc (pdt_local_seconds p), i_subsec = t_subsec (pdt_time p)\<rparr>"

definition pdt_diff :: "plain_datetime \<Rightarrow> plain_datetime \<Rightarrow> time_delta" where
  "pdt_diff p other = instant_diff (pdt_assume_utc p) (pdt_assume_utc other)"

definition pdt_with_date :: "plain_datetime \<Rightarrow> date \<Rightarrow> plain_datetime" where
  "pdt_with_date p d = \<lparr>pdt_date = d, pdt_time = pdt_time p\<rparr>"

definition pdt_with_time :: "plain_datetime \<Rightarrow> time \<Rightarrow> plain_datetime" where
  "pdt_with_time p t = \<lparr>pdt_date = pdt_date p, pdt_time = t\<rparr>"

definition pdt_shift_date :: "plain_datetime \<Rightarrow> delta_months \<Rightarrow> delta_days \<Rightarrow> plain_datetime option" where
  "pdt_shift_date p months days =
     map_option (\<lambda>d. \<lparr>pdt_date = d, pdt_time = pdt_time p\<rparr>) (date_shift (pdt_date p) months days)"

definition pdt_shift :: "plain_datetime \<Rightarrow> time_delta \<Rightarrow> plain_datetime option" where
  "pdt_shift p delta = map_option instant_to_utc_plain (instant_shift (pdt_assume_utc p) delta)"

definition pdt_shift_by :: "plain_datetime \<Rightarrow> datetime_shift \<Rightarrow> plain_datetime option" where
  "pdt_shift_by p s =
     do { dt \<leftarrow> pdt_shift_date p (cs_months (ds_calendar s)) (cs_days (ds_calendar s));
          pdt_shift dt (ds_time s) }"

text \<open>The last branch of the match is \<open>unreachable!()\<close>; \<open>shift_by_offset_days\<close> in
  \<open>Moments_Facts\<close> shows that it is not reached.\<close>

definition pdt_shift_by_offset :: "plain_datetime \<Rightarrow> offset_delta \<Rightarrow> plain_datetime option" where
  "pdt_shift_by_offset p x =
     (let seconds = time_total_seconds (pdt_time p) + offset_delta_get x;
          days = seconds div s_per_day;
          d = pdt_date p
      in do { d' \<leftarrow> (if days = 0 then Some d
                     else if days = 1 then date_tomorrow d
                     else if days = -1 then date_yesterday d
                     else if days = 2 then date_tomorrow d \<bind> date_tomorrow
                     else if days = -2 then date_yesterday d \<bind> date_yesterday
                     else None);
              Some \<lparr>pdt_date = d',
                    pdt_time = time_from_sec_subsec (as_u32 (seconds mod s_per_day)) (t_subsec (pdt_time p))\<rparr> })"

datatype datetime_boundary_unit = DateUnit date_boundary_unit | TimeUnit time_boundary_unit | DayUnit

fun pdt_start_of_unit :: "plain_datetime \<Rightarrow> datetime_boundary_unit \<Rightarrow> plain_datetime option" where
  "pdt_start_of_unit p (DateUnit u) =
     do { d \<leftarrow> date_start_of (pdt_date p) u; Some \<lparr>pdt_date = d, pdt_time = time_min\<rparr> }"
| "pdt_start_of_unit p (TimeUnit u) =
     Some \<lparr>pdt_date = pdt_date p, pdt_time = time_start_of (pdt_time p) u\<rparr>"
| "pdt_start_of_unit p DayUnit = Some \<lparr>pdt_date = pdt_date p, pdt_time = time_min\<rparr>"

fun pdt_end_of_unit :: "plain_datetime \<Rightarrow> datetime_boundary_unit \<Rightarrow> plain_datetime option" where
  "pdt_end_of_unit p (DateUnit u) =
     do { d \<leftarrow> date_end_of (pdt_date p) u; Some \<lparr>pdt_date = d, pdt_time = time_max\<rparr> }"
| "pdt_end_of_unit p (TimeUnit u) =
     Some \<lparr>pdt_date = pdt_date p, pdt_time = time_end_of (pdt_time p) u\<rparr>"
| "pdt_end_of_unit p DayUnit = Some \<lparr>pdt_date = pdt_date p, pdt_time = time_max\<rparr>"

fun pdt_next_start_of_unit :: "plain_datetime \<Rightarrow> datetime_boundary_unit \<Rightarrow> plain_datetime option" where
  "pdt_next_start_of_unit p (DateUnit u) =
     do { d \<leftarrow> date_next_start_of (pdt_date p) u; Some \<lparr>pdt_date = d, pdt_time = time_min\<rparr> }"
| "pdt_next_start_of_unit p (TimeUnit u) =
     (let (t, overflow) = time_next_start_of (pdt_time p) u
      in do { d \<leftarrow> (if overflow then date_tomorrow (pdt_date p) else Some (pdt_date p));
              Some \<lparr>pdt_date = d, pdt_time = t\<rparr> })"
| "pdt_next_start_of_unit p DayUnit =
     do { d \<leftarrow> date_tomorrow (pdt_date p); Some \<lparr>pdt_date = d, pdt_time = time_min\<rparr> }"

subsection \<open>Date-times with an offset\<close>

record offset_datetime =
  odt_date :: date
  odt_time :: time
  odt_offset :: offset

definition odt_new :: "date \<Rightarrow> time \<Rightarrow> offset \<Rightarrow> offset_datetime option" where
  "odt_new d t x =
     do { e \<leftarrow> ls_to_epoch (pdt_local_seconds (date_at d t)) x;
          Some \<lparr>odt_date = d, odt_time = t, odt_offset = x\<rparr> }"

definition odt_to_plain :: "offset_datetime \<Rightarrow> plain_datetime" where
  "odt_to_plain o1 = date_at (odt_date o1) (odt_time o1)"

text \<open>The source unwraps the shift; \<open>odt_instant_defined\<close> shows that it is
  \<open>Some\<close> for every valid offset date-time.\<close>

definition odt_to_instant :: "offset_datetime \<Rightarrow> instant" where
  "odt_to_instant o1 =
     the (instant_shift_by_offset (pdt_assume_utc (odt_to_plain o1)) (offset_neg (odt_offset o1)))"

definition pdt_assume_offset :: "plain_datetime \<Rightarrow> offset \<Rightarrow> offset_datetime option" where
  "pdt_assume_offset p x = odt_new (pdt_date p) (pdt_time p) x"

definition pdt_assume_offset_unchecked :: "plain_datetime \<Rightarrow> offset \<Rightarrow> offset_datetime" where
  "pdt_assume_offset_unchecked p x = \<lparr>odt_date = pdt_date p, odt_time = pdt_time p, odt_offset = x\<rparr>"

definition instant_to_offset :: "instant \<Rightarrow> offset \<Rightarrow> offset_datetime option" where
  "instant_to_offset i x =
     do { i' \<leftarrow> instant_shift_by_offset i x;
          Some (pdt_assume_offset_unchecked (instant_to_utc_plain i') x) }"

definition odt_shift :: "offset_datetime \<Rightarrow> time_delta \<Rightarrow> offset_datetime option" where
  "odt_shift o1 delta =
     do { p \<leftarrow> pdt_shift (odt_to_plain o1) delta; pdt_assume_offset p (odt_offset o1) }"

definition odt_shift_by :: "offset_datetime \<Rightarrow> datetime_shift \<Rightarrow> offset_datetime option" where
  "odt_shift_by o1 s =
     do { p \<leftarrow> pdt_shift_by (odt_to_plain o1) s; pdt_assume_offset p (odt_offset o1) }"

subsection \<open>Resolving local times\<close>

datatype local_mapping =
    Unique (lm_offset: offset)
  | Gap (lm_transition: local_seconds) (lm_before: offset) (lm_after: offset)
  | Fold (lm_transition: local_seconds) (lm_before: offset) (lm_after: offset)

datatype disambiguation = Compatible | Earlier | Later | Reject

datatype resolve_policy = Disambiguate disambiguation | PreserveOffset offset

datatype resolve_error = GapError | FoldError | OutOfRange

definition or_out_of_range :: "'a option \<Rightarrow> resolve_error + 'a" where
  "or_out_of_range x = (case x of Some r \<Rightarrow> Inr r | None \<Rightarrow> Inl OutOfRange)"

fun lm_resolve :: "local_mapping \<Rightarrow> plain_datetime \<Rightarrow> resolve_policy \<Rightarrow> resolve_error + offset_datetime" where
  "lm_resolve (Unique x) p policy = or_out_of_range (pdt_assume_offset p x)"
| "lm_resolve (Fold transition before after) p policy =
     (case policy of
        Disambiguate Reject \<Rightarrow> Inl FoldError
      | Disambiguate Earlier \<Rightarrow> or_out_of_range (pdt_assume_offset p before)
      | Disambiguate Compatible \<Rightarrow> or_out_of_range (pdt_assume_offset p before)
      | Disambiguate Later \<Rightarrow> or_out_of_range (pdt_assume_offset p after)
      | PreserveOffset preferred \<Rightarrow>
          or_out_of_range (pdt_assume_offset p (if preferred = after then after else before)))"
| "lm_resolve (Gap transition before after) p policy =
     (let shift = offset_sub after before
      in case policy of
           Disambiguate Reject \<Rightarrow> Inl GapError
         | Disambiguate Earlier \<Rightarrow>
             or_out_of_range (do { dt \<leftarrow> pdt_shift_by_offset p (offset_delta_neg shift);
                                   pdt_assume_offset dt before })
         | _ \<Rightarrow>
             or_out_of_range (do { dt \<leftarrow> pdt_shift_by_offset p shift;
                                   pdt_assume_offset dt after }))"

end
