(* ===== verification/Civil.thy ===== *)
theory Civil
  imports Calendar
begin

section \<open>The civil-calendar algorithm is right\<close>

text \<open>
  \<open>UnixDays::date\<close> computes the date of a day number with multiplications and shifts
  on 32- and 64-bit words. Here its word arithmetic is first shown to be the same
  arithmetic on integers (\<open>unix_days_date_civil\<close>), then that arithmetic is shown to
  invert \<open>Date::unix_days\<close> (\<open>date_unix_days_date\<close>). The day number is strictly
  monotone in the date, so the two conversions are inverse bijections between the valid
  dates and the valid day numbers, which is the contract \<open>counted\<close> of the prelude.
\<close>

subsection \<open>Words as integers\<close>

lemma u32_eval:
  "0 \<le> x \<Longrightarrow> x < 4294967296 \<Longrightarrow> uint (word_of_int x :: 32 word) = x"
  by (simp add: unsigned_of_int take_bit_int_eq_self)

lemma u64_eval:
  "0 \<le> x \<Longrightarrow> x < 18446744073709551616 \<Longrightarrow> uint (word_of_int x :: 64 word) = x"
  by (simp add: unsigned_of_int take_bit_int_eq_self)

lemma u32_div:
  assumes "0 \<le> x" "x < 4294967296" "0 \<le> y" "y < 4294967296"
  shows "(word_of_int x :: 32 word) div word_of_int y = word_of_int (x div y)"
  using assms by (simp add: word_div_def u32_eval del: of_int_numeral)

lemma u32_mod:
  assumes "0 \<le> x" "x < 4294967296" "0 \<le> y" "y < 4294967296"
  shows "(word_of_int x :: 32 word) mod word_of_int y = word_of_int (x mod y)"
  using assms by (simp add: word_mod_def u32_eval)

lemma u64_div:
  assumes "0 \<le> x" "x < 18446744073709551616" "0 \<le> y" "y < 18446744073709551616"
  shows "(word_of_int x :: 64 word) div word_of_int y = word_of_int (x div y)"
  using assms by (simp add: word_div_def u64_eval)

lemma u64_mod:
  assumes "0 \<le> x" "x < 18446744073709551616" "0 \<le> y" "y < 18446744073709551616"
  shows "(word_of_int x :: 64 word) mod word_of_int y = word_of_int (x mod y)"
  using assms by (simp add: word_mod_def u64_eval)

lemma u32_le:
  assumes "0 \<le> x" "x < 4294967296" "0 \<le> y" "y < 4294967296"
  shows "(word_of_int x :: 32 word) \<le> word_of_int y \<longleftrightarrow> x \<le> y"
  using assms by (simp add: word_le_def u32_eval)

lemma ucast_eval: "0 \<le> x \<Longrightarrow> x < 2 ^ LENGTH('a) \<Longrightarrow>
    (ucast (word_of_int x :: 'a::len word) :: 'b::len word) = word_of_int x"
  by (simp add: ucast_eq unsigned_of_int take_bit_int_eq_self)

lemma u32_as_small:
  "0 \<le> x \<Longrightarrow> x < 256 \<Longrightarrow> uint (ucast (word_of_int x :: 32 word) :: 8 word) = x"
  "0 \<le> x \<Longrightarrow> x < 65536 \<Longrightarrow> uint (ucast (word_of_int x :: 32 word) :: 16 word) = x"
  by (simp_all add: ucast_eval unsigned_of_int take_bit_int_eq_self)

lemma year_split:
  fixes n :: int
  assumes "0 \<le> n" "n \<le> 146099"
  shows "(2939745 * n) div 4294967296 = n div 1461"
    and "(2939745 * n) mod 4294967296 div 2939745 = n mod 1461"
proof -
  define q r where "q = n div 1461" and "r = n mod 1461"
  have n: "n = 1461 * q + r" and r: "0 \<le> r" "r \<le> 1460" and q: "0 \<le> q" "q \<le> 99"
    using assms by (auto simp: q_def r_def)
  let ?s = "149 * q + 2939745 * r"
  have eq: "2939745 * n = 4294967296 * q + ?s" and s: "0 \<le> ?s" "?s < 4294967296"
    using n r q by simp_all
  show "(2939745 * n) div 4294967296 = n div 1461"
    using div_mod_unique(1)[OF eq s] by (simp add: q_def)
  have "(2939745 * n) mod 4294967296 = 2939745 * r + 149 * q"
    using div_mod_unique(2)[OF eq s] by simp
  moreover have "(2939745 * r + 149 * q) div 2939745 = r"
    using q by (intro div_mod_unique(1)[OF refl]) auto
  ultimately show "(2939745 * n) mod 4294967296 div 2939745 = n mod 1461"
    by (simp add: r_def)
qed


subsection \<open>The algorithm on integers\<close>

definition civil :: "int \<Rightarrow> date" where
  "civil N =
     (let c = (4 * N + 3) div 146097;
          n_c = (4 * N + 3) mod 146097 div 4;
          z = (4 * n_c + 3) div 1461;
          n_y = (4 * n_c + 3) mod 1461 div 4;
          m = (2141 * n_y + 197913) div 65536;
          d = (2141 * n_y + 197913) mod 65536 div 2141;
          j = n_y \<ge> 306
      in \<lparr>d_year = Year (100 * c + z - 32800 + (if j then 1 else 0)),
          d_month = month_new_unchecked (if j then m - 12 else m), d_day = d + 1\<rparr>)"

lemma month_day_bounds:
  fixes n :: int
  assumes "0 \<le> n" "n \<le> 365"
  shows "306 \<le> n \<Longrightarrow> 13 \<le> (2141 * n + 197913) div 65536 \<and> (2141 * n + 197913) div 65536 \<le> 14"
    and "n < 306 \<Longrightarrow> 3 \<le> (2141 * n + 197913) div 65536 \<and> (2141 * n + 197913) div 65536 \<le> 12"
    and "(2141 * n + 197913) mod 65536 div 2141 \<le> 30" and "0 \<le> (2141 * n + 197913) mod 65536 div 2141"
  using assms by simp_all linarith+

lemma unix_days_date_civil:
  assumes "unix_days_ok u"
  shows "unix_days_date u = civil (unix_days_get u + 12699422)"
proof -
  define N where "N = unix_days_get u + 12699422"
  have N: "11980260 \<le> N" "N \<le> 15632318"
    using assms by (simp_all add: N_def unix_days_ok_def bound_defs)
  define c where "c = (4 * N + 3) div 146097"
  define nc where "nc = (4 * N + 3) mod 146097 div 4"
  define z where "z = (4 * nc + 3) div 1461"
  define ny where "ny = (4 * nc + 3) mod 1461 div 4"
  have c: "328 \<le> c" "c \<le> 428" using N unfolding c_def by linarith+
  have nc: "0 \<le> nc" "nc \<le> 36524" unfolding nc_def by simp_all
  have z: "0 \<le> z" "z \<le> 99" using nc unfolding z_def by linarith+
  have ny: "0 \<le> ny" "ny \<le> 365" unfolding ny_def by simp_all
  have w_n: "word_of_int (unix_days_get u) + (719468 + 146097 * 82) = (word_of_int N :: 32 word)"
    by (simp add: N_def)
  have w_n1: "4 * (word_of_int N) + 3 = (word_of_int (4 * N + 3) :: 32 word)" by simp
  have w_c: "word_of_int (4 * N + 3) div 146097 = (word_of_int c :: 32 word)"
    using u32_div [of "4 * N + 3" 146097] N by (simp add: c_def)
  have w_nc: "word_of_int (4 * N + 3) mod 146097 div 4 = (word_of_int nc :: 32 word)"
    using u32_mod [of "4 * N + 3" 146097] u32_div [of "(4 * N + 3) mod 146097" 4] N
    by (simp add: nc_def)
  have w_n2: "4 * (word_of_int nc) + 3 = (word_of_int (4 * nc + 3) :: 32 word)" by simp
  have w_u: "ucast (word_of_int (4 * nc + 3) :: 32 word) = (word_of_int (4 * nc + 3) :: 64 word)"
    using nc by (intro ucast_eval) simp_all
  have w_p: "2939745 * word_of_int (4 * nc + 3) = (word_of_int (2939745 * (4 * nc + 3)) :: 64 word)"
    by simp
  have p: "0 \<le> 2939745 * (4 * nc + 3)" "2939745 * (4 * nc + 3) < 18446744073709551616"
    using nc by simp_all
  have w_z: "ucast (word_of_int (2939745 * (4 * nc + 3)) div 4294967296 :: 64 word) = (word_of_int z :: 32 word)"
    using u64_div [OF p, of 4294967296] year_split(1) [of "4 * nc + 3"] nc z
    by (simp add: z_def ucast_eval del: of_int_add of_int_mult)
  have w_ny: "ucast (word_of_int (2939745 * (4 * nc + 3)) mod 4294967296 :: 64 word) div 2939745 div 4
      = (word_of_int ny :: 32 word)"
  proof -
    let ?p = "2939745 * (4 * nc + 3) mod 4294967296"
    have q: "0 \<le> ?p" "?p < 4294967296" by simp_all
    have "ucast (word_of_int (2939745 * (4 * nc + 3)) mod 4294967296 :: 64 word) = (word_of_int ?p :: 32 word)"
      using u64_mod [OF p, of 4294967296] q by (simp add: ucast_eval del: of_int_add of_int_mult)
    moreover have "?p div 2939745 = (4 * nc + 3) mod 1461"
      using year_split(2) [of "4 * nc + 3"] nc by simp
    ultimately show ?thesis
      using u32_div [OF q, of 2939745] u32_div [of "(4 * nc + 3) mod 1461" 4]
      by (simp add: ny_def)
  qed
  define m where "m = (2141 * ny + 197913) div 65536"
  define d where "d = (2141 * ny + 197913) mod 65536 div 2141"
  note md = month_day_bounds [OF ny, folded m_def d_def]
  have w_m: "(2141 * word_of_int ny + 197913) div 65536 = (word_of_int m :: 32 word)"
    using u32_div [of "2141 * ny + 197913" 65536] ny by (simp add: m_def)
  have w_d: "(2141 * word_of_int ny + 197913) mod 65536 div 2141 = (word_of_int d :: 32 word)"
    using u32_mod [of "2141 * ny + 197913" 65536]
      u32_div [of "(2141 * ny + 197913) mod 65536" 2141] ny by (simp add: d_def)
  have w_j: "(306 \<le> (word_of_int ny :: 32 word)) = (306 \<le> ny)"
    using u32_le [of 306 ny] ny by simp
  define yg where "yg = 100 * c + z - 32800 + (if 306 \<le> ny then 1 else 0)"
  have yg: "0 \<le> yg" "yg < 65536" using c z by (simp_all add: yg_def)
  have w_yg: "uint (ucast (100 * word_of_int c + word_of_int z - 400 * 82
      + (if 306 \<le> ny then 1 else 0) :: 32 word) :: 16 word) = yg"
  proof -
    have "100 * word_of_int c + word_of_int z - 400 * 82 + (if 306 \<le> ny then 1 else 0)
        = (word_of_int yg :: 32 word)" by (simp add: yg_def)
    then show ?thesis using u32_as_small(2) [OF yg] by simp
  qed
  define mg where "mg = (if 306 \<le> ny then m - 12 else m)"
  have mg: "0 \<le> mg" "mg < 256" using md(1,2) by (auto simp: mg_def)
  have w_mg: "uint (ucast (if 306 \<le> ny then word_of_int m - 12 else word_of_int m :: 32 word) :: 8 word) = mg"
  proof -
    have "(if 306 \<le> ny then word_of_int m - 12 else word_of_int m) = (word_of_int mg :: 32 word)"
      by (simp add: mg_def)
    then show ?thesis using u32_as_small(1) [OF mg] by simp
  qed
  define dg where "dg = d + 1"
  have w_dg: "uint (ucast (word_of_int d + 1 :: 32 word) :: 8 word) = dg"
  proof -
    have "word_of_int d + 1 = (word_of_int dg :: 32 word)" by (simp add: dg_def)
    then show ?thesis using u32_as_small(1) [of dg] md(3,4) by (simp add: dg_def)
  qed
  have "unix_days_date u =
      \<lparr>d_year = Year yg, d_month = month_new_unchecked mg, d_day = dg\<rparr>"
    unfolding unix_days_date_def Let_def w_n w_n1 w_c w_nc w_n2 w_u w_p w_z w_ny w_m w_d w_j
      w_yg w_mg w_dg ..
  then show ?thesis
    unfolding civil_def Let_def N_def [symmetric] c_def [symmetric] nc_def [symmetric]
      z_def [symmetric] ny_def [symmetric] m_def [symmetric] d_def [symmetric]
      yg_def [symmetric] mg_def [symmetric]
      dg_def [symmetric] .
qed


lemma civil_table:
  fixes n :: int
  assumes "0 \<le> n" "n \<le> 365"
  defines "m \<equiv> (2141 * n + 197913) div 65536"
    and "d \<equiv> (2141 * n + 197913) mod 65536 div 2141"
  shows "n < 306 \<Longrightarrow> 3 \<le> m \<and> m \<le> 12 \<and> days_before_month ! 0 ! nat m + d = n + 59
      \<and> d + 1 \<le> max_month_days ! 0 ! nat m"
    and "306 \<le> n \<Longrightarrow> 13 \<le> m \<and> m \<le> 14 \<and> days_before_month ! 0 ! nat (m - 12) + d = n - 306
      \<and> d + 1 \<le> max_month_days ! 1 ! nat (m - 12)
      \<and> (n < 365 \<longrightarrow> d + 1 \<le> max_month_days ! 0 ! nat (m - 12))"
    and "0 \<le> d"
proof -
  have "list_all (\<lambda>n. let m = (2141 * n + 197913) div 65536; d = (2141 * n + 197913) mod 65536 div 2141
      in 0 \<le> d \<and> (if n < 306
         then 3 \<le> m \<and> m \<le> 12 \<and> days_before_month ! 0 ! nat m + d = n + 59
           \<and> d + 1 \<le> max_month_days ! 0 ! nat m
         else 13 \<le> m \<and> m \<le> 14 \<and> days_before_month ! 0 ! nat (m - 12) + d = n - 306
           \<and> d + 1 \<le> max_month_days ! 1 ! nat (m - 12)
           \<and> (n < 365 \<longrightarrow> d + 1 \<le> max_month_days ! 0 ! nat (m - 12)))) [0..365]"
    by code_simp
  then have "\<forall>n \<in> {0..365}. let m = (2141 * n + 197913) div 65536; d = (2141 * n + 197913) mod 65536 div 2141
      in 0 \<le> d \<and> (if n < 306
         then 3 \<le> m \<and> m \<le> 12 \<and> days_before_month ! 0 ! nat m + d = n + 59
           \<and> d + 1 \<le> max_month_days ! 0 ! nat m
         else 13 \<le> m \<and> m \<le> 14 \<and> days_before_month ! 0 ! nat (m - 12) + d = n - 306
           \<and> d + 1 \<le> max_month_days ! 1 ! nat (m - 12)
           \<and> (n < 365 \<longrightarrow> d + 1 \<le> max_month_days ! 0 ! nat (m - 12)))"
    by (simp only: list_all_iff set_upto)
  from bspec [OF this, of n] assms(1,2)
  show "n < 306 \<Longrightarrow> 3 \<le> m \<and> m \<le> 12 \<and> days_before_month ! 0 ! nat m + d = n + 59
      \<and> d + 1 \<le> max_month_days ! 0 ! nat m"
    and "306 \<le> n \<Longrightarrow> 13 \<le> m \<and> m \<le> 14 \<and> days_before_month ! 0 ! nat (m - 12) + d = n - 306
      \<and> d + 1 \<le> max_month_days ! 1 ! nat (m - 12)
      \<and> (n < 365 \<longrightarrow> d + 1 \<le> max_month_days ! 0 ! nat (m - 12))"
    and "0 \<le> d"
    by (simp_all add: Let_def m_def d_def)
qed

lemma tables_by_month:
  "year_days_in_month y m = (case m of February \<Rightarrow> if year_is_leap y then 29 else 28
     | April \<Rightarrow> 30 | June \<Rightarrow> 30 | September \<Rightarrow> 30 | November \<Rightarrow> 30 | _ \<Rightarrow> 31)"
  "year_days_before_month y m = (case m of January \<Rightarrow> 0 | February \<Rightarrow> 31
     | March \<Rightarrow> 59 | April \<Rightarrow> 90 | May \<Rightarrow> 120 | June \<Rightarrow> 151 | July \<Rightarrow> 181
     | August \<Rightarrow> 212 | September \<Rightarrow> 243 | October \<Rightarrow> 273 | November \<Rightarrow> 304 | December \<Rightarrow> 334)
     + (if year_is_leap y \<and> 3 \<le> month_get m then 1 else 0)"
  by (cases m; simp add: year_days_in_month_def year_days_before_month_def max_month_days_def
      days_before_month_def)+

lemma table_mono:
  "max_month_days ! 0 ! nat (month_get m) \<le> year_days_in_month y m"
  "year_days_before_month y m = days_before_month ! 0 ! nat (month_get m)
     + (if year_is_leap y \<and> 3 \<le> month_get m then 1 else 0)"
  by (cases m; simp add: year_days_in_month_def year_days_before_month_def max_month_days_def
      days_before_month_def)+

lemma div_pred:
  fixes a k :: int
  assumes "1 < k"
  shows "(a - 1) div k = a div k - (if a mod k = 0 then 1 else 0)"
proof (cases "a mod k = 0")
  case True
  have "a - 1 = k * (a div k - 1) + (k - 1)"
    using True mult_div_mod_eq [of k a] by (simp add: algebra_simps)
  from div_mod_unique(1) [OF this] assms True show ?thesis by simp
next
  case False
  have "a - 1 = k * (a div k) + (a mod k - 1)"
    using mult_div_mod_eq [of k a] by (simp add: algebra_simps)
  moreover have "0 < a mod k" "a mod k < k"
    using False assms pos_mod_sign [of k a] pos_mod_bound [of k a] by linarith+
  ultimately show ?thesis using div_mod_unique(1) [of "a - 1" k "a div k" "a mod k - 1"] False by simp
qed

lemma leap_count:
  "a * 365 + a div 4 - a div 100 + a div 400 =
   year_days_before (Year a) + (if year_is_leap (Year a) then 366 else 365)"
proof -
  have "a mod 4 = 0" if "a mod 100 = 0"
    using that mod_mod_cancel [of 4 100 a] by simp
  moreover have "a mod 100 = 0" if "a mod 400 = 0"
    using that mod_mod_cancel [of 100 400 a] by simp
  ultimately show ?thesis
    by (auto simp: year_days_before_def Let_def div_pred year_is_leap_def)
qed

lemma leap_count_next:
  "year_days_before (Year (a + 1)) = year_days_before (Year a) + (if year_is_leap (Year a) then 366 else 365)"
  using leap_count [of a] by (simp add: year_days_before_def Let_def)

text \<open>
  The years counted from March: \<open>march_year N\<close> and \<open>march_day N\<close> are the year
  and the day of that year in which day \<open>N\<close> falls.
\<close>

definition march_century :: "int \<Rightarrow> int" where
  "march_century N = (4 * N + 3) div 146097 - 328"

definition march_century_day :: "int \<Rightarrow> int" where
  "march_century_day N = (4 * N + 3) mod 146097 div 4"

definition march_year_of_century :: "int \<Rightarrow> int" where
  "march_year_of_century N = (4 * march_century_day N + 3) div 1461"

definition march_day :: "int \<Rightarrow> int" where
  "march_day N = (4 * march_century_day N + 3) mod 1461 div 4"

definition march_year :: "int \<Rightarrow> int" where
  "march_year N = 100 * march_century N + march_year_of_century N"

lemma civil_march:
  "civil N = \<lparr>d_year = Year (march_year N + (if 306 \<le> march_day N then 1 else 0)),
     d_month = month_new_unchecked (if 306 \<le> march_day N
       then (2141 * march_day N + 197913) div 65536 - 12
       else (2141 * march_day N + 197913) div 65536),
     d_day = (2141 * march_day N + 197913) mod 65536 div 2141 + 1\<rparr>"
  unfolding civil_def Let_def march_century_day_def [symmetric]
    march_year_of_century_def [symmetric] march_day_def [symmetric]
  by (simp add: march_year_def march_century_def)

lemma quarter: "x + y = 4 * k + 3 \<Longrightarrow> k = x div 4 + y div 4" for x y k :: int
  by presburger

lemma three_mod_four: "x = 4 * k + 3 \<Longrightarrow> x mod 4 = 3" for x k :: int
  by presburger

lemma march_ranges:
  "0 \<le> march_century_day N" "march_century_day N \<le> 36524"
  "0 \<le> march_year_of_century N" "march_year_of_century N \<le> 99"
  "0 \<le> march_day N" "march_day N \<le> 365"
proof -
  show nc: "0 \<le> march_century_day N" "march_century_day N \<le> 36524"
    unfolding march_century_day_def by simp_all
  show "0 \<le> march_year_of_century N" "march_year_of_century N \<le> 99"
    using nc unfolding march_year_of_century_def by linarith+
  show "0 \<le> march_day N" "march_day N \<le> 365"
    unfolding march_day_def by simp_all
qed

lemma march_splits:
  "N = 36524 * (march_century N + 328) + (march_century N + 328) div 4 + march_century_day N"
  "march_century_day N =
     365 * march_year_of_century N + march_year_of_century N div 4 + march_day N"
proof -
  have "4 * N + 3 = 146097 * (march_century N + 328) + (4 * N + 3) mod 146097"
    by (simp add: march_century_def)
  then show "N = 36524 * (march_century N + 328) + (march_century N + 328) div 4 + march_century_day N"
    using quarter [of "march_century N + 328" "(4 * N + 3) mod 146097" "N - 36524 * (march_century N + 328)"]
    by (simp add: march_century_day_def)
  have "4 * march_century_day N + 3 =
      1461 * march_year_of_century N + (4 * march_century_day N + 3) mod 1461"
    by (simp add: march_year_of_century_def)
  then show "march_century_day N =
     365 * march_year_of_century N + march_year_of_century N div 4 + march_day N"
    using quarter [of "march_year_of_century N" "(4 * march_century_day N + 3) mod 1461"
        "march_century_day N - 365 * march_year_of_century N"]
    by (simp add: march_day_def)
qed

lemma march_count:
  "march_year N * 365 + march_year N div 4 - march_year N div 100 + march_year N div 400
   = N - march_day N - 11979954"
proof -
  define e z where "e = march_century N" and "z = march_year_of_century N"
  have z: "0 \<le> z" "z \<le> 99" unfolding z_def by (rule march_ranges)+
  have A: "march_year N = 100 * e + z" by (simp add: march_year_def e_def z_def)
  have hundred: "march_year N div 100 = e"
    using div_mod_unique(1) [OF A] z by simp
  have "march_year N div 4 = 25 * e + z div 4" unfolding A by linarith
  moreover have "march_year N div 400 = march_year N div 100 div 4"
    by (simp add: zdiv_zmult2_eq [symmetric])
  moreover have "N = 36524 * e + 11979954 + e div 4 + 365 * z + z div 4 + march_day N"
    using march_splits [of N] by (simp add: e_def z_def)
  ultimately show ?thesis by (simp add: hundred) (simp add: A)
qed

lemma march_days_before:
  "year_days_before (Year (march_year N))
   = N - march_day N - 11979954 - (if year_is_leap (Year (march_year N)) then 366 else 365)"
  "year_days_before (Year (march_year N + 1)) = N - march_day N - 11979954"
  using march_count [of N] leap_count [of "march_year N"] leap_count_next [of "march_year N"]
  by simp_all

lemma leap_after_century: "e mod 4 = 3 \<Longrightarrow> year_is_leap (Year (100 * e + 99 + 1))"
proof -
  assume "e mod 4 = 3"
  then have "100 * e + 99 + 1 = 400 * (e div 4 + 1)" using mult_div_mod_eq [of 4 e] by simp
  then have "(100 * e + 99 + 1) mod 400 = 0" by (simp only: mod_mult_self1_is_0)
  then show ?thesis by (simp only: year_is_leap_def year.sel simp_thms)
qed

lemma leap_within_century:
  assumes "z mod 4 = 3" "0 \<le> z" "z < 99"
  shows "year_is_leap (Year (100 * e + z + 1))"
proof -
  have "(100 * e + z + 1) mod 100 = z + 1"
    using div_mod_unique(2) [of "100 * e + z + 1" 100 e "z + 1"] assms by simp
  moreover have "100 * e + z + 1 = 4 * (25 * e + z div 4 + 1)"
    using assms mult_div_mod_eq [of 4 z] by simp
  then have "(100 * e + z + 1) mod 4 = 0" by (simp only: mod_mult_self1_is_0)
  ultimately show ?thesis using assms by (simp only: year_is_leap_def year.sel) simp
qed

lemma march_leap:
  assumes "march_day N = 365"
  shows "year_is_leap (Year (march_year N + 1))"
proof -
  define z nc where "z = march_year_of_century N" and "nc = march_century_day N"
  have "(4 * nc + 3) mod 1461 = 1460"
  proof -
    have "0 \<le> (4 * nc + 3) mod 1461" "(4 * nc + 3) mod 1461 < 1461" by simp_all
    then show ?thesis using assms unfolding march_day_def nc_def [symmetric] by linarith
  qed
  then have "4 * nc + 3 = 1461 * z + 1460"
    using mult_div_mod_eq [of 1461 "4 * nc + 3"]
    by (simp add: z_def nc_def march_year_of_century_def)
  then have z4: "z mod 4 = 3" using three_mod_four [of z "nc - 365 * z - 365"] by simp
  show ?thesis
  proof (cases "z = 99")
    case True
    then have "nc = 36524" using march_splits(2) [of N] assms by (simp add: z_def nc_def)
    moreover have "0 \<le> (4 * N + 3) mod 146097" "(4 * N + 3) mod 146097 < 146097" by simp_all
    ultimately have "(4 * N + 3) mod 146097 = 146096"
      unfolding nc_def march_century_day_def by linarith
    then have "4 * N + 3 = 146097 * (march_century N + 328) + 146096"
      using mult_div_mod_eq [of 146097 "4 * N + 3"] by (simp add: march_century_def)
    then have "march_century N mod 4 = 3"
      using three_mod_four [of "march_century N" "N - 36524 - 36524 * march_century N - 11979954"]
      by simp
    from leap_after_century [OF this] True show ?thesis by (simp add: march_year_def z_def)
  next
    case False
    then have "z < 99" using march_ranges(4) [of N] by (simp add: z_def)
    with leap_within_century [OF z4] march_ranges(3) [of N] show ?thesis
      by (simp add: march_year_def z_def)
  qed
qed

lemma march_year_bounds:
  assumes "11980260 \<le> N" "N \<le> 15632318"
  shows "0 \<le> march_year N" and "march_year N \<le> 9999"
    and "march_day N < 306 \<Longrightarrow> 1 \<le> march_year N"
    and "306 \<le> march_day N \<Longrightarrow> march_year N \<le> 9998"
proof -
  define e z where "e = march_century N" and "z = march_year_of_century N"
  have z: "0 \<le> z" "z \<le> 99" unfolding z_def by (rule march_ranges)+
  have A: "march_year N = 100 * e + z" by (simp add: march_year_def e_def z_def)
  have N: "N = 36524 * e + e div 4 + 365 * z + z div 4 + march_day N + 11979954"
    using march_splits [of N] by (simp add: e_def z_def)
  have e: "0 \<le> e" "e \<le> 99"
    using N assms z march_ranges(5,6) [of N] by linarith+
  then show "0 \<le> march_year N" "march_year N \<le> 9999" using A z by simp_all
  show "1 \<le> march_year N" if "march_day N < 306"
  proof (rule ccontr)
    assume "\<not> 1 \<le> march_year N"
    then have "e = 0 \<and> z = 0" using A z e by simp
    then show False using N that assms(1) by simp
  qed
  show "march_year N \<le> 9998" if "306 \<le> march_day N"
  proof (rule ccontr)
    assume "\<not> march_year N \<le> 9998"
    then have "e = 99 \<and> z = 99" using A z e by simp
    then show False using N that assms(2) by simp
  qed
qed

lemma civil_spring:
  assumes "11980260 \<le> N" "N \<le> 15632318" and early: "march_day N < 306"
  shows "date_ok (civil N) \<and> unix_days_get (date_unix_days (civil N)) = N - 12699422"
proof -
  define m where "m = (2141 * march_day N + 197913) div 65536"
  define d where "d = (2141 * march_day N + 197913) mod 65536 div 2141"
  note table = civil_table [OF march_ranges(5,6) [of N], folded m_def d_def]
  have mon: "month_get (month_new_unchecked m) = m" using table(1) early by simp
  have "civil N = \<lparr>d_year = Year (march_year N), d_month = month_new_unchecked m, d_day = d + 1\<rparr>"
    using early by (simp add: civil_march m_def d_def)
  moreover have "max_month_days ! 0 ! nat m \<le> year_days_in_month (Year (march_year N)) (month_new_unchecked m)"
    using table_mono(1) [where m = "month_new_unchecked m" and y = "Year (march_year N)"] mon by simp
  moreover have "year_days_before_month (Year (march_year N)) (month_new_unchecked m)
      = days_before_month ! 0 ! nat m + (if year_is_leap (Year (march_year N)) then 1 else 0)"
    using table_mono(2) [where m = "month_new_unchecked m" and y = "Year (march_year N)"]
      mon table(1) early by simp
  ultimately show ?thesis
    using early table(1,3) march_year_bounds [OF assms(1,2)]
    by (cases "year_is_leap (Year (march_year N))")
      (simp_all add: date_ok_def date_unix_days_def year_ok_def bound_defs march_days_before)
qed

lemma civil_winter:
  assumes "11980260 \<le> N" "N \<le> 15632318" and late: "306 \<le> march_day N"
  shows "date_ok (civil N) \<and> unix_days_get (date_unix_days (civil N)) = N - 12699422"
proof -
  define m where "m = (2141 * march_day N + 197913) div 65536 - 12"
  define d where "d = (2141 * march_day N + 197913) mod 65536 div 2141"
  define y where "y = Year (march_year N + 1)"
  note table = civil_table [OF march_ranges(5,6) [of N], folded m_def d_def]
  have m12: "1 \<le> m" "m \<le> 2" using table(2) late unfolding m_def by linarith+
  then have mon: "month_get (month_new_unchecked m) = m" by simp
  have "civil N = \<lparr>d_year = y, d_month = month_new_unchecked m, d_day = d + 1\<rparr>"
    using late by (simp add: civil_march m_def d_def y_def)
  moreover have "d + 1 \<le> year_days_in_month y (month_new_unchecked m)"
  proof (cases "march_day N = 365")
    case True
    then show ?thesis using march_leap [of N] table(2) late mon
      by (simp add: year_days_in_month_def y_def)
  next
    case False
    then show ?thesis
      using table_mono(1) [where m = "month_new_unchecked m" and y = y] mon m12 table(2) late
        march_ranges(6) [of N] by simp
  qed
  moreover have "year_days_before_month y (month_new_unchecked m) = days_before_month ! 0 ! nat m"
    using table_mono(2) [where m = "month_new_unchecked m" and y = y] mon m12 by simp
  ultimately show ?thesis
    using late table(2,3) march_year_bounds [OF assms(1,2)]
    by (simp add: date_ok_def date_unix_days_def year_ok_def bound_defs y_def march_days_before)
qed

lemma unix_days_date_ok: "unix_days_ok u \<Longrightarrow> date_ok (unix_days_date u)"
  and date_unix_days_date: "unix_days_ok u \<Longrightarrow> date_unix_days (unix_days_date u) = u"
proof -
  assume u: "unix_days_ok u"
  let ?N = "unix_days_get u + 12699422"
  have N: "11980260 \<le> ?N" "?N \<le> 15632318"
    using u by (simp_all add: unix_days_ok_def bound_defs)
  have "date_ok (civil ?N) \<and> unix_days_get (date_unix_days (civil ?N)) = unix_days_get u"
    using civil_spring [OF N] civil_winter [OF N] by (cases "march_day ?N < 306") simp_all
  then show "date_ok (unix_days_date u)" "date_unix_days (unix_days_date u) = u"
    by (simp_all add: unix_days_date_civil [OF u] unix_days.expand)
qed

subsection \<open>The day number grows with the date\<close>

lemma year_length: "year_days_before_month y m + year_days_in_month y m \<le> (if year_is_leap y then 366 else 365)"
  by (cases m) (simp_all add: tables_by_month)

lemma days_before_month_nonneg [simp]: "0 \<le> year_days_before_month y m"
  by (cases m) (simp_all add: tables_by_month)

lemma days_in_month_range: "28 \<le> year_days_in_month y m" "year_days_in_month y m \<le> 31"
  by (cases m; simp add: tables_by_month)+

lemma days_before_month_mono:
  "m < m' \<Longrightarrow> year_days_before_month y m + year_days_in_month y m \<le> year_days_before_month y m'"
  by (cases m; cases m') (simp_all add: tables_by_month less_month_def)

lemma days_before_mono:
  assumes "a \<le> b"
  shows "year_days_before (Year a) \<le> year_days_before (Year b)"
  using assms
proof (induction b rule: int_ge_induct)
  case (step i)
  then show ?case using leap_count_next [of i] by simp
qed simp

lemma days_before_less:
  assumes "y < y'"
  shows "year_days_before y + (if year_is_leap y then 366 else 365) \<le> year_days_before y'"
  using days_before_mono [of "year_get y + 1" "year_get y'"] leap_count_next [of "year_get y"] assms
  by (simp add: less_year_def)

lemma date_unix_days_less:
  assumes "date_ok a" and "date_ok b" and "a < b"
  shows "unix_days_get (date_unix_days a) < unix_days_get (date_unix_days b)"
proof -
  have in_year: "year_days_before_month (d_year x) (d_month x) + d_day x
      \<le> (if year_is_leap (d_year x) then 366 else 365)" if "date_ok x" for x
    using year_length [of "d_year x" "d_month x"] that by (simp add: date_ok_def)
  from assms(3) consider "d_year a < d_year b"
    | "d_year a = d_year b" "d_month a < d_month b"
    | "d_year a = d_year b" "d_month a = d_month b" "d_day a < d_day b"
    by (auto simp: date_less_iff)
  then show ?thesis
  proof cases
    case 1
    then show ?thesis
      using days_before_less [OF 1] in_year [OF assms(1)] days_before_month_nonneg [of "d_year b" "d_month b"] assms(2)
      by (simp add: date_unix_days_def date_ok_def; linarith)
  next
    case 2
    then show ?thesis
      using days_before_month_mono [OF 2(2), of "d_year b"] assms(1,2)
      by (simp add: date_unix_days_def date_ok_def)
  next
    case 3
    then show ?thesis by (simp add: date_unix_days_def)
  qed
qed

lemma date_min_ok: "date_ok date_min" and date_max_ok: "date_ok date_max"
  by (simp_all add: date_ok_def date_min_def date_max_def year_ok_def tables_by_month)

lemma date_between: "date_ok d \<Longrightarrow> date_min \<le> d \<and> d \<le> date_max"
proof -
  assume d: "date_ok d"
  have "\<not> d < date_min"
    using d by (simp add: date_less_iff date_min_def date_ok_def year_ok_def less_year_def less_month_def
        not_less year.expand)
  moreover have "\<not> date_max < d"
    using d days_in_month_range(2) [of "d_year d" "d_month d"]
    by (auto simp: date_less_iff date_max_def date_ok_def year_ok_def less_year_def less_month_def
        not_less year.expand)
  ultimately show ?thesis by (simp add: not_less)
qed

lemma date_unix_days_le:
  assumes "date_ok a" and "date_ok b"
  shows "unix_days_get (date_unix_days a) \<le> unix_days_get (date_unix_days b) \<longleftrightarrow> a \<le> b"
  using date_unix_days_less [OF assms] date_unix_days_less [OF assms(2,1)]
  by (metis linorder_neq_iff linorder_not_less order_less_imp_le)

lemma date_unix_days_ok: "date_ok d \<Longrightarrow> unix_days_ok (date_unix_days d)"
proof -
  assume d: "date_ok d"
  have "unix_days_get (date_unix_days date_min) = unix_days_min"
    "unix_days_get (date_unix_days date_max) = unix_days_max"
    by (simp_all add: date_unix_days_def date_min_def date_max_def year_days_before_def
        tables_by_month year_is_leap_def bound_defs)
  with date_between [OF d] date_unix_days_le [OF d date_max_ok] date_unix_days_le [OF date_min_ok d]
  show ?thesis by (simp add: unix_days_ok_def)
qed

lemma date_unix_days_inject:
  "date_ok a \<Longrightarrow> date_ok b \<Longrightarrow> date_unix_days a = date_unix_days b \<longleftrightarrow> a = b"
  by (metis date_unix_days_le order_antisym order_refl)

lemma unix_days_date_unix: "date_ok d \<Longrightarrow> unix_days_date (date_unix_days d) = d"
  using date_unix_days_ok [of d] unix_days_date_ok date_unix_days_date date_unix_days_inject by blast

interpretation dates: counted date_ok "\<lambda>d. unix_days_get (date_unix_days d)"
    "\<lambda>n. unix_days_date (UnixDays n)" unix_days_min unix_days_max
proof unfold_locales
  fix d :: date
  assume d: "date_ok d"
  show "unix_days_min \<le> unix_days_get (date_unix_days d) \<and> unix_days_get (date_unix_days d) \<le> unix_days_max"
    using date_unix_days_ok [OF d] by (simp add: unix_days_ok_def)
  show "unix_days_date (UnixDays (unix_days_get (date_unix_days d))) = d"
    using d by (simp add: unix_days_date_unix)
next
  fix n :: int
  assume "unix_days_min \<le> n" "n \<le> unix_days_max"
  then have "unix_days_ok (UnixDays n)" by (simp add: unix_days_ok_def)
  then show "date_ok (unix_days_date (UnixDays n))"
    "unix_days_get (date_unix_days (unix_days_date (UnixDays n))) = n"
    by (simp_all add: unix_days_date_ok date_unix_days_date)
qed

subsection \<open>Shifting by days follows the day number\<close>

interpretation date_days: exact_shift date_ok "\<lambda>d. unix_days_get (date_unix_days d)"
    "\<lambda>n. unix_days_date (UnixDays n)" unix_days_min unix_days_max
    "\<lambda>d n. date_shift_days d (DeltaDays n)"
proof unfold_locales
  fix a b :: date and n :: int
  assume "date_ok a" and "date_shift_days a (DeltaDays n) = Some b"
  then show "date_ok b \<and> unix_days_get (date_unix_days b) = unix_days_get (date_unix_days a) + n"
    by (auto simp: date_shift_days_def unix_days_shift_def unix_days_nt.new_Some_iff
        unix_days_date_ok date_unix_days_date)
qed (auto simp: date_shift_days_def unix_days_shift_def unix_days_new_def)

end
