(* ===== verification/Calendar_Facts.thy ===== *)
theory Calendar_Facts
  imports Civil
begin

section \<open>What the calendar operations compute\<close>

text \<open>
  The properties of \<open>date.rs\<close>: the conversion between dates and day numbers, the
  neighbours of a date, shifting by months, the n-th weekday of a month, ISO weeks, and the
  boundaries of years, months and weeks. They are proved over the contracts
  \<open>counted\<close> and \<open>exact_shift\<close> that \<open>Civil\<close> establishes for dates.
\<close>

abbreviation day_number :: "date \<Rightarrow> int" where
  "day_number d \<equiv> unix_days_get (date_unix_days d)"

subsection \<open>Dates and day numbers\<close>

text \<open>C1. \<open>UnixDays::date\<close> and \<open>Date::unix_days\<close> are inverse to each other: every
  valid day number gives a valid date and back, every valid date a valid day number and
  back.\<close>

theorem date_day_number_roundtrip:
  assumes "unix_days_ok u" and "date_ok d"
  shows "date_ok (unix_days_date u) \<and> date_unix_days (unix_days_date u) = u
    \<and> unix_days_ok (date_unix_days d) \<and> unix_days_date (date_unix_days d) = d"
  using assms unix_days_date_ok date_unix_days_date date_unix_days_ok unix_days_date_unix by simp

theorem date_day_number_roundtrip_witness:
  "unix_days_date (UnixDays 19782) = \<lparr>d_year = Year 2024, d_month = February, d_day = 29\<rparr>
   \<and> date_unix_days \<lparr>d_year = Year 2024, d_month = February, d_day = 29\<rparr> = UnixDays 19782"
proof -
  let ?d = "\<lparr>d_year = Year 2024, d_month = February, d_day = 29\<rparr> :: date"
  have u: "date_unix_days ?d = UnixDays 19782"
    by (simp add: date_unix_days_def year_days_before_def tables_by_month year_is_leap_def bound_defs)
  have "unix_days_ok (UnixDays 19782)" "date_ok ?d"
    by (simp_all add: unix_days_ok_def bound_defs date_ok_def year_ok_def tables_by_month year_is_leap_def)
  from date_day_number_roundtrip [OF this] u show ?thesis by simp
qed

text \<open>The derived order on dates (year, then month, then day) is the order of their day
  numbers.\<close>

theorem date_order_is_day_order:
  assumes "date_ok a" and "date_ok b"
  shows "(a < b \<longleftrightarrow> day_number a < day_number b) \<and> (a = b \<longleftrightarrow> day_number a = day_number b)"
  using date_unix_days_le [OF assms(2,1)] dates.num_inject [OF assms] by auto

theorem date_order_is_day_order_witness:
  "(date_min < date_max \<longleftrightarrow> day_number date_min < day_number date_max)
   \<and> (date_min = date_max \<longleftrightarrow> day_number date_min = day_number date_max)"
  by (rule date_order_is_day_order [OF date_min_ok date_max_ok])

subsection \<open>Neighbours\<close>

lemma next_year_day:
  "year_days_before (Year (year_get y + 1)) = year_days_before y + (if year_is_leap y then 366 else 365)"
  using leap_count_next [of "year_get y"] by simp

lemma december_length:
  "year_days_before_month y December + 31 = (if year_is_leap y then 366 else 365)"
  by (simp add: tables_by_month)

lemma month_last: "m < December \<or> m = December" and month_first: "January < m \<or> m = January"
  by (cases m; simp add: less_month_def)+

lemma month_succ:
  assumes "m < December"
  shows "year_days_before_month y (month_new_unchecked (month_get m + 1))
      = year_days_before_month y m + year_days_in_month y m"
    and "1 \<le> year_days_in_month y (month_new_unchecked (month_get m + 1))"
  using assms by (cases m; simp add: tables_by_month less_month_def month_new_unchecked_def)+

lemma month_pred:
  assumes "January < m"
  shows "year_days_before_month y m = year_days_before_month y (month_new_unchecked (month_get m - 1))
      + year_days_in_month y (month_new_unchecked (month_get m - 1))"
  using assms by (cases m; simp add: tables_by_month less_month_def month_new_unchecked_def)

lemma date_tomorrow_sound:
  assumes "date_ok d" and "date_tomorrow d = Some e"
  shows "date_ok e \<and> day_number e = day_number d + 1"
proof -
  obtain y m k where d: "d = \<lparr>d_year = y, d_month = m, d_day = k\<rparr>" by (cases d)
  consider "k < year_days_in_month y m" | "k = year_days_in_month y m" "m < December"
    | "k = year_days_in_month y m" "m = December"
    using assms(1) d month_last [of m] by (fastforce simp: date_ok_def)
  then show ?thesis
  proof cases
    case 1
    then show ?thesis using assms d by (auto simp: date_tomorrow_def date_ok_def date_unix_days_def)
  next
    case 2
    then show ?thesis
      using assms d month_succ [OF 2(2), of y] by (auto simp: date_tomorrow_def date_ok_def date_unix_days_def)
  next
    case 3
    then show ?thesis
      using assms d next_year_day [of y] december_length [of y]
      by (auto simp: date_tomorrow_def date_ok_def date_unix_days_def less_month_def year_new_def
          year_ok_def tables_by_month split: if_splits)
  qed
qed

lemma date_yesterday_sound:
  assumes "date_ok d" and "date_yesterday d = Some e"
  shows "date_ok e \<and> day_number e = day_number d - 1"
proof -
  obtain y m k where d: "d = \<lparr>d_year = y, d_month = m, d_day = k\<rparr>" by (cases d)
  consider "1 < k" | "k = 1" "January < m" | "k = 1" "m = January"
    using assms(1) d month_first [of m] by (fastforce simp: date_ok_def)
  then show ?thesis
  proof cases
    case 1
    then show ?thesis using assms d by (auto simp: date_yesterday_def date_ok_def date_unix_days_def)
  next
    case 2
    then show ?thesis
      using assms d month_pred [OF 2(2), of y] days_in_month_range(1) [of y "month_new_unchecked (month_get m - 1)"]
      by (auto simp: date_yesterday_def date_ok_def date_unix_days_def Let_def)
  next
    case 3
    then show ?thesis
      using assms d next_year_day [of "Year (year_get y - 1)"] december_length [of "Year (year_get y - 1)"]
      by (auto simp: date_yesterday_def date_ok_def date_unix_days_def less_month_def year_new_def
          year_ok_def tables_by_month split: if_splits)
  qed
qed

lemma date_tomorrow_None: "date_ok d \<Longrightarrow> date_tomorrow d = None \<Longrightarrow> d = date_max"
  by (cases d; cases "d_month d")
    (auto simp: date_tomorrow_def date_ok_def date_max_def year_new_def year_ok_def tables_by_month
      less_month_def year.expand split: if_splits)

lemma date_yesterday_None: "date_ok d \<Longrightarrow> date_yesterday d = None \<Longrightarrow> d = date_min"
  by (cases d; cases "d_month d")
    (auto simp: date_yesterday_def date_ok_def date_min_def year_new_def year_ok_def tables_by_month
      less_month_def year.expand Let_def split: if_splits)

lemma date_extremes: "day_number date_min = unix_days_min" "day_number date_max = unix_days_max"
  by (simp_all add: date_unix_days_def date_min_def date_max_def year_days_before_def
        tables_by_month year_is_leap_def bound_defs)

lemma neighbours_are_shifts_aux:
  assumes "date_ok d"
  shows "date_tomorrow d = date_shift_days d (DeltaDays 1)
    \<and> date_yesterday d = date_shift_days d (DeltaDays (-1))
    \<and> (date_tomorrow d = None \<longleftrightarrow> d = date_max) \<and> (date_yesterday d = None \<longleftrightarrow> d = date_min)"
proof -
  have tm: "date_tomorrow d = date_shift_days d (DeltaDays 1)"
  proof (cases "date_tomorrow d")
    case None
    then show ?thesis using date_tomorrow_None [OF assms] date_days.shift_eq [OF assms] date_extremes by simp
  next
    case (Some e)
    then show ?thesis
      using date_tomorrow_sound [OF assms Some] date_days.shift_between [OF assms, of e] by simp
  qed
  have ys: "date_yesterday d = date_shift_days d (DeltaDays (-1))"
  proof (cases "date_yesterday d")
    case None
    then show ?thesis using date_yesterday_None [OF assms] date_days.shift_eq [OF assms] date_extremes by simp
  next
    case (Some e)
    then show ?thesis
      using date_yesterday_sound [OF assms Some] date_days.shift_between [OF assms, of e] by simp
  qed
  have "date_tomorrow date_max = None" "date_yesterday date_min = None"
    by (simp_all add: date_tomorrow_def date_yesterday_def date_max_def date_min_def tables_by_month
        year_new_def less_month_def)
  with tm ys date_tomorrow_None date_yesterday_None assms show ?thesis by metis
qed

text \<open>\<open>Date::tomorrow\<close> and \<open>Date::yesterday\<close>, which work on the calendar
  fields, agree with the shift of the day number by one day either way, failing exactly at the
  last and the first date.\<close>

theorem neighbours_are_shifts:
  assumes "date_ok d"
  shows "date_tomorrow d = date_shift_days d (DeltaDays 1)
    \<and> date_yesterday d = date_shift_days d (DeltaDays (-1))
    \<and> (date_tomorrow d = None \<longleftrightarrow> d = date_max) \<and> (date_yesterday d = None \<longleftrightarrow> d = date_min)"
  by (rule neighbours_are_shifts_aux [OF assms])

theorem neighbours_are_shifts_witness:
  "date_tomorrow date_max = date_shift_days date_max (DeltaDays 1)
    \<and> date_yesterday date_max = date_shift_days date_max (DeltaDays (-1))
    \<and> (date_tomorrow date_max = None \<longleftrightarrow> date_max = date_max)
    \<and> (date_yesterday date_max = None \<longleftrightarrow> date_max = date_min)"
  by (rule neighbours_are_shifts [OF date_max_ok])

subsection \<open>Shifting by months\<close>

abbreviation month_index :: "date \<Rightarrow> int" where
  "month_index d \<equiv> year_get (d_year d) * 12 + month_get (d_month d) - 1"

lemma month_shift_eq:
  assumes "year_ok y"
  shows "month_shift m y (DeltaMonths k) =
    (let i = year_get y * 12 + month_get m - 1 + k
     in if 12 \<le> i \<and> i < 120000 then Some (Year (i div 12), month_new_unchecked (i mod 12 + 1)) else None)"
proof -
  define j where "j = month_get m + k - 1"
  have i: "year_get y * 12 + month_get m - 1 + k = j + year_get y * 12" by (simp add: j_def)
  have j: "month_get m + delta_months_get (DeltaMonths k) - 1 = j" by (simp add: j_def)
  have "(j + year_get y * 12) div 12 = year_get y + j div 12" "(j + year_get y * 12) mod 12 = j mod 12"
    by simp_all
  moreover have "12 \<le> j + year_get y * 12 \<and> j + year_get y * 12 < 120000
      \<longleftrightarrow> 1 \<le> year_get y + j div 12 \<and> year_get y + j div 12 \<le> 9999"
    using calculation(1) by linarith
  moreover have "as_u8 (j mod 12) = j mod 12" by (simp add: pos_mod_bound order_less_trans [OF pos_mod_bound])
  ultimately show ?thesis
    unfolding i j month_shift_def Let_def year_from_i32_eq by simp
qed

text \<open>C3. \<open>Date::shift_months\<close> moves the month index (12 times the year plus the month) by
  exactly the given number of months, and clamps the day to the length of the target month; it
  fails exactly when the target month is outside the years 1 to 9999.\<close>

theorem date_shift_months_spec:
  assumes "date_ok d"
  shows "case date_shift_months d (DeltaMonths k) of
      None \<Rightarrow> month_index d + k < month_index date_min \<or> month_index date_max < month_index d + k
    | Some e \<Rightarrow> date_ok e \<and> month_index e = month_index d + k
        \<and> d_day e = min (d_day d) (year_days_in_month (d_year e) (d_month e))"
proof -
  have y: "year_ok (d_year d)" using assms by (simp add: date_ok_def)
  define i where "i = month_index d + k"
  have eq: "date_shift_months d (DeltaMonths k) = (if 12 \<le> i \<and> i < 120000
      then Some (date_new_clamp_days (Year (i div 12)) (month_new_unchecked (i mod 12 + 1)) (d_day d))
      else None)"
    using month_shift_eq [OF y] by (simp add: date_shift_months_def i_def Let_def)
  show ?thesis
  proof (cases "12 \<le> i \<and> i < 120000")
    case True
    define y' m' where "y' = Year (i div 12)" and "m' = month_new_unchecked (i mod 12 + 1)"
    have "year_ok y'" "year_get y' * 12 + month_get m' - 1 = i"
      using True by (simp_all add: y'_def m'_def year_ok_def) linarith
    moreover have "date_shift_months d (DeltaMonths k) = Some (date_new_clamp_days y' m' (d_day d))"
      using eq True by (simp add: y'_def m'_def)
    moreover have "1 \<le> min (d_day d) (year_days_in_month y' m')"
      using assms days_in_month_range(1) [of y' m'] by (simp add: date_ok_def)
    ultimately show ?thesis by (simp add: date_new_clamp_days_def date_ok_def i_def)
  next
    case False
    then show ?thesis using eq by (auto simp: date_min_def date_max_def i_def)
  qed
qed

theorem date_shift_months_spec_witness:
  "case date_shift_months date_max (DeltaMonths (-10)) of
      None \<Rightarrow> month_index date_max + -10 < month_index date_min
         \<or> month_index date_max < month_index date_max + -10
    | Some e \<Rightarrow> date_ok e \<and> month_index e = month_index date_max + -10
        \<and> d_day e = min (d_day date_max) (year_days_in_month (d_year e) (d_month e))"
  using date_shift_months_spec [OF date_max_ok, of "-10"] .

subsection \<open>Weekdays\<close>

lemma weekday_of_date: "weekday_iso (date_day_of_week d) = (day_number d + 3) mod 7 + 1"
  by (simp add: date_day_of_week_def iso_day_of_week)

lemma day_number_in_month:
  "day_number \<lparr>d_year = y, d_month = m, d_day = k\<rparr> = day_number (date_first_of_month y m) + k - 1"
  by (simp add: date_unix_days_def date_first_of_month_def)

lemma weekday_iff: "date_day_of_week d = w \<longleftrightarrow> (day_number d + 4 - weekday_iso w) mod 7 = 0"
proof -
  have "(weekday_iso w - 1) mod 7 = weekday_iso w - 1"
    by (cases w) simp_all
  moreover have "(day_number d + 3) mod 7 = (weekday_iso w - 1) mod 7
      \<longleftrightarrow> (day_number d + 4 - weekday_iso w) mod 7 = 0"
    by (simp add: mod_eq_dvd_iff dvd_eq_mod_eq_0 algebra_simps)
  ultimately have "(day_number d + 3) mod 7 + 1 = weekday_iso w
      \<longleftrightarrow> (day_number d + 4 - weekday_iso w) mod 7 = 0" by auto
  then show ?thesis by (metis weekday_of_date weekday_iso_inject)
qed

text \<open>The arithmetic of the two directions: \<open>x\<close> is the weekday number of the month's
  first (last) day, \<open>w\<close> the wanted one.\<close>

lemma slot:
  fixes a b q m :: int
  assumes "0 < m"
  shows "a mod m + q * m = b \<longleftrightarrow> (b - a) mod m = 0 \<and> b div m = q"
proof -
  have "a mod m + q * m = b \<longleftrightarrow> b mod m = a mod m \<and> b div m = q"
  proof
    assume "a mod m + q * m = b"
    then have "b = m * q + a mod m" by (simp add: mult.commute)
    from div_mod_unique [OF this] assms show "b mod m = a mod m \<and> b div m = q" by simp
  next
    assume "b mod m = a mod m \<and> b div m = q"
    then show "a mod m + q * m = b" by (metis add.commute div_mult_mod_eq)
  qed
  then show ?thesis by (simp add: mod_eq_dvd_iff dvd_eq_mod_eq_0)
qed

lemmas week_slot = slot [of 7, OF zero_less_numeral]

lemma nth_forward:
  fixes x w n k :: int
  shows "1 + (w - x) mod 7 + (n - 1) * 7 = k \<longleftrightarrow> (x + k - 1 - w) mod 7 = 0 \<and> (k - 1) div 7 = n - 1"
  using week_slot [of "w - x" "n - 1" "k - 1"] by (auto simp: algebra_simps)

lemma nth_backward:
  fixes x w n k dim :: int
  shows "dim - (x - w) mod 7 + (n + 1) * 7 = k
    \<longleftrightarrow> (x - dim + k - w) mod 7 = 0 \<and> (dim - k) div 7 = - n - 1"
proof -
  have "7 dvd dim - k - (x - w) \<longleftrightarrow> 7 dvd x - dim + k - w"
    by (subst dvd_minus_iff [symmetric]) (simp add: algebra_simps)
  then have "(dim - k - (x - w)) mod 7 = 0 \<longleftrightarrow> (x - dim + k - w) mod 7 = 0"
    by (simp add: dvd_eq_mod_eq_0)
  then show ?thesis using week_slot [of "x - w" "- n - 1" "dim - k"] by (auto simp: algebra_simps)
qed

lemma nth_weekday_in_month_aux:
  assumes "year_ok y" and "n \<noteq> 0"
  shows "date_nth_weekday_in_month y m n w = Some d \<longleftrightarrow>
    date_ok d \<and> d_year d = y \<and> d_month d = m \<and> date_day_of_week d = w
    \<and> (if 0 < n then (d_day d - 1) div 7 = n - 1
       else (year_days_in_month y m - d_day d) div 7 = - n - 1)"
proof -
  define b where "b = day_number (date_first_of_month y m)"
  define dim where "dim = year_days_in_month y m"
  have dim: "dim \<le> 31" using days_in_month_range(2) [of y m] by (simp add: dim_def)
  define x where "x = weekday_iso w"
  have first: "weekday_iso (date_day_of_week (date_first_of_month y m)) = (b + 3) mod 7 + 1"
    by (simp add: weekday_of_date b_def)
  have last: "weekday_iso (date_day_of_week (date_last_of_month y m)) = (b + dim + 2) mod 7 + 1"
    by (simp add: weekday_of_date date_last_of_month_def day_number_in_month b_def dim_def algebra_simps)
  have wd: "date_day_of_week \<lparr>d_year = y, d_month = m, d_day = k\<rparr> = w \<longleftrightarrow> (b + k + 3 - x) mod 7 = 0" for k
    by (simp add: weekday_iff day_number_in_month b_def x_def add.commute add.left_commute)
  define day where "day = (if 0 < n then 1 + (x - ((b + 3) mod 7 + 1)) mod 7 + (n - 1) * 7
      else dim - ((b + dim + 2) mod 7 + 1 - x) mod 7 + (n + 1) * 7)"
  have "date_nth_weekday_in_month y m n w = (if 1 \<le> day \<and> day \<le> dim
      then Some \<lparr>d_year = y, d_month = m, d_day = day\<rparr> else None)"
    using dim by (simp add: date_nth_weekday_in_month_def Let_def first last day_def dim_def [symmetric] x_def)
  moreover have "day = k \<longleftrightarrow> (b + k + 3 - x) mod 7 = 0
      \<and> (if 0 < n then (k - 1) div 7 = n - 1 else (dim - k) div 7 = - n - 1)" for k
  proof -
    have "((b + 3) mod 7 + 1 + k - 1 - x) mod 7 = (b + k + 3 - x) mod 7"
      "((b + dim + 2) mod 7 + 1 - dim + k - x) mod 7 = (b + k + 3 - x) mod 7"
      using mod_add_left_eq [of "b + 3" 7 "k - x"] mod_add_left_eq [of "b + dim + 2" 7 "1 - dim + k - x"]
      by (simp_all add: algebra_simps)
    then show ?thesis
      using nth_forward [of x "(b + 3) mod 7 + 1" n k] nth_backward [of dim "(b + dim + 2) mod 7 + 1" x n k]
      by (cases "0 < n") (simp_all only: day_def if_True if_False)
  qed
  ultimately have "date_nth_weekday_in_month y m n w = Some d \<longleftrightarrow>
      d = \<lparr>d_year = y, d_month = m, d_day = d_day d\<rparr> \<and> 1 \<le> d_day d \<and> d_day d \<le> dim
      \<and> (b + d_day d + 3 - x) mod 7 = 0
      \<and> (if 0 < n then (d_day d - 1) div 7 = n - 1 else (dim - d_day d) div 7 = - n - 1)"
    by (cases d) (simp; metis)
  moreover have "d = \<lparr>d_year = y, d_month = m, d_day = d_day d\<rparr> \<longleftrightarrow> d_year d = y \<and> d_month d = m"
    by (cases d) auto
  moreover have "date_day_of_week d = w \<longleftrightarrow> (b + d_day d + 3 - x) mod 7 = 0"
    if "d = \<lparr>d_year = y, d_month = m, d_day = d_day d\<rparr>"
    using wd [of "d_day d"] that by simp
  ultimately show ?thesis
    using assms(1) unfolding date_ok_def dim_def by (cases "d_year d = y \<and> d_month d = m") auto
qed

text \<open>\<open>Date::nth_weekday_in_month\<close> finds the n-th given weekday of the month,
  counted from the start for positive \<open>n\<close> and from the end for negative \<open>n\<close>: it
  returns a date exactly when that date is a valid day of the month, falls on the weekday and
  has \<open>n - 1\<close> (respectively \<open>-n - 1\<close>) full weeks before (after) it in the month.\<close>

theorem nth_weekday_in_month_spec:
  assumes "year_ok y" and "n \<noteq> 0"
  shows "date_nth_weekday_in_month y m n w = Some d \<longleftrightarrow>
    date_ok d \<and> d_year d = y \<and> d_month d = m \<and> date_day_of_week d = w
    \<and> (if 0 < n then (d_day d - 1) div 7 = n - 1
       else (year_days_in_month y m - d_day d) div 7 = - n - 1)"
  using assms by (rule nth_weekday_in_month_aux)

theorem nth_weekday_in_month_spec_witness:
  "date_nth_weekday_in_month (Year 2024) February (-1) Thursday
     = Some \<lparr>d_year = Year 2024, d_month = February, d_day = 29\<rparr>"
  by (subst nth_weekday_in_month_spec)
    (simp_all add: year_ok_def date_ok_def tables_by_month year_is_leap_def date_day_of_week_def
      date_unix_days_def year_days_before_def bound_defs unix_days_day_of_week_def
      weekday_from_iso_unchecked_def)

subsection \<open>ISO weeks\<close>

lemma day_of_year: "day_number d = day_number (date_first_of_month (d_year d) January) + date_day_of_year d - 1"
  by (simp add: date_unix_days_def date_first_of_month_def date_day_of_year_def tables_by_month)

lemma day_of_year_range: "date_ok d \<Longrightarrow> 1 \<le> date_day_of_year d \<and> date_day_of_year d \<le> (if year_is_leap (d_year d) then 366 else 365)"
  using year_length [of "d_year d" "d_month d"] days_before_month_nonneg [of "d_year d" "d_month d"]
  by (auto simp: date_day_of_year_def date_ok_def simp del: days_before_month_nonneg)

lemma day_number_in_year: "day_number d = year_days_before (d_year d) + date_day_of_year d + unix_days_min - 1"
  by (simp add: date_unix_days_def date_day_of_year_def)

lemma year_of_day:
  assumes "date_ok t" and "day_number t = year_days_before y + j + unix_days_min - 1"
    and "1 \<le> j" and "j \<le> (if year_is_leap y then 366 else 365)"
  shows "d_year t = y \<and> date_day_of_year t = j"
proof -
  have "\<not> d_year t < y"
    using days_before_less [of "d_year t" y] day_of_year_range [OF assms(1)] day_number_in_year [of t] assms(2,3)
    by auto
  moreover have "\<not> y < d_year t"
    using days_before_less [of y "d_year t"] day_of_year_range [OF assms(1)] day_number_in_year [of t] assms(2,4)
    by auto
  ultimately have "d_year t = y" by auto
  with day_number_in_year [of t] assms(2) show ?thesis by simp
qed

lemma thursday_of_week:
  assumes "date_ok d"
  obtains t where "date_shift_days d (DeltaDays (4 - weekday_iso (date_day_of_week d))) = Some t"
    and "date_ok t" and "day_number t = day_number d + 4 - weekday_iso (date_day_of_week d)"
    and "date_day_of_week t = Thursday"
proof -
  define n where "n = day_number d"
  define w where "w = weekday_iso (date_day_of_week d)"
  have w: "w = (n + 3) mod 7 + 1" by (simp add: w_def n_def weekday_of_date)
  have "unix_days_min \<le> n" "n \<le> unix_days_max" using dates.num_bounds [OF assms] by (simp_all add: n_def)
  then have r: "unix_days_min \<le> n + (4 - w) \<and> n + (4 - w) \<le> unix_days_max"
    unfolding w bound_defs by presburger
  then obtain t where t: "date_shift_days d (DeltaDays (4 - w)) = Some t"
    using date_days.shift_eq [OF assms, of "4 - w"] by (simp add: n_def)
  with date_days.shift_sound [OF assms t] have "date_ok t" and n: "day_number t = n + 4 - w"
    by (simp_all add: n_def)
  moreover have "date_day_of_week t = Thursday"
    unfolding weekday_iff n by (simp add: w) presburger
  ultimately show thesis using that t by (simp add: n_def w_def)
qed

text \<open>C2. \<open>Date::iso_year_week\<close> is the ISO 8601 rule: the year of the Thursday of the same
  Monday-based week, and the number of that Thursday among the Thursdays of its year. That
  Thursday is always a valid date, so the function is total.\<close>

theorem iso_year_week_is_thursday_rule:
  assumes "date_ok d"
  shows "\<exists>t. date_shift_days d (DeltaDays (4 - weekday_iso (date_day_of_week d))) = Some t
    \<and> date_day_of_week t = Thursday
    \<and> date_iso_year_week d = (year_get (d_year t), (date_day_of_year t - 1) div 7 + 1)"
proof -
  define w where "w = weekday_iso (date_day_of_week d)"
  obtain t where t: "date_shift_days d (DeltaDays (4 - w)) = Some t" "date_ok t"
    "day_number t = day_number d + 4 - w" "date_day_of_week t = Thursday"
    using thursday_of_week [OF assms] unfolding w_def by metis
  define j where "j = date_day_of_year d + (4 - w)"
  define len where "len y = (if year_is_leap y then 366 else 365 :: int)" for y
  have n: "day_number t = year_days_before (d_year d) + j + unix_days_min - 1"
    using t(3) day_number_in_year [of d] by (simp add: j_def)
  have j: "-2 \<le> j" "j \<le> len (d_year d) + 3"
    using day_of_year_range [OF assms] weekday_iso_range [of "date_day_of_week d"]
    unfolding j_def w_def len_def by linarith+
  have y: "year_ok (d_year d)" "year_ok (d_year t)" using assms t(2) by (simp_all add: date_ok_def)
  have "date_iso_year_week d = (year_get (d_year t), (date_day_of_year t - 1) div 7 + 1)"
  proof -
    consider (before) "j \<le> 0" | (same) "1 \<le> j" "j \<le> len (d_year d)" | (after) "len (d_year d) < j" by linarith
    then show ?thesis
    proof cases
      case before
      let ?p = "Year (year_get (d_year d) - 1)"
      have "d_year t = ?p \<and> date_day_of_year t = j + len ?p"
        using next_year_day [of ?p] n before j by (intro year_of_day [OF t(2)]) (auto simp: len_def)
      then show ?thesis
        using before j y by (auto simp: date_iso_year_week_def Let_def w_def [symmetric]
            j_def [symmetric] len_def year_ok_def)
    next
      case same
      have "d_year t = d_year d \<and> date_day_of_year t = j"
        using n same by (intro year_of_day [OF t(2)]) (auto simp: len_def)
      moreover have "0 \<le> (j - 1) div 7" "(j - 1) div 7 \<le> 52"
        using same by (auto simp: len_def split: if_splits)
      ultimately show ?thesis
        using same y by (auto simp: date_iso_year_week_def Let_def w_def [symmetric]
            j_def [symmetric] len_def year_ok_def)
    next
      case after
      let ?s = "Year (year_get (d_year d) + 1)"
      have "d_year t = ?s \<and> date_day_of_year t = j - len (d_year d)"
        using next_year_day [of "d_year d"] n after j by (intro year_of_day [OF t(2)]) (auto simp: len_def)
      moreover have "(j - len (d_year d) - 1) div 7 = 0" using after j by simp
      moreover have "\<not> j \<le> 0" using after by (simp add: len_def split: if_splits)
      ultimately show ?thesis
        using after by (simp add: date_iso_year_week_def Let_def w_def [symmetric]
            j_def [symmetric] len_def [symmetric])
    qed
  qed
  with t show ?thesis unfolding w_def by blast
qed

theorem iso_year_week_is_thursday_rule_witness:
  "\<exists>t. date_shift_days date_min (DeltaDays (4 - weekday_iso (date_day_of_week date_min))) = Some t
    \<and> date_day_of_week t = Thursday
    \<and> date_iso_year_week date_min = (year_get (d_year t), (date_day_of_year t - 1) div 7 + 1)"
  by (rule iso_year_week_is_thursday_rule [OF date_min_ok])

subsection \<open>Boundaries of units\<close>

lemma week_delta_days: "0 \<le> n \<Longrightarrow> n \<le> 6 \<Longrightarrow> delta_days_new n = Some (DeltaDays n)"
  by (simp add: delta_days_new_def bound_defs)

text \<open>The unit a date is in, as a number: its year, month index, or week number.\<close>

fun unit_index :: "date_boundary_unit \<Rightarrow> date \<Rightarrow> int" where
  "unit_index BYear d = year_get (d_year d)"
| "unit_index BMonth d = month_index d"
| "unit_index BWeekMon d = (day_number d + 3) div 7"
| "unit_index BWeekSun d = (day_number d + 4) div 7"

lemma sunday_week:
  fixes n :: int
  shows "(6 - ((n + 3) mod 7 + 1)) mod 7 = 6 - (n + 4) mod 7" and "((n + 3) mod 7 + 1) mod 7 = (n + 4) mod 7"
proof -
  define r where "r = (n + 3) mod 7"
  have r: "0 \<le> r" "r < 7" by (simp_all add: r_def)
  have n: "(n + 4) mod 7 = (r + 1) mod 7" using mod_add_left_eq [of "n + 3" 7 1] by (simp add: r_def add.commute)
  show "(6 - ((n + 3) mod 7 + 1)) mod 7 = 6 - (n + 4) mod 7"
    using r unfolding n r_def [symmetric] by (cases "r = 6") simp_all
  show "((n + 3) mod 7 + 1) mod 7 = (n + 4) mod 7" by (simp add: n r_def [symmetric])
qed

lemma end_of_week_shift:
  "date_end_of d BWeekMon = date_shift_days d (DeltaDays (6 - (day_number d + 3) mod 7))"
  "date_end_of d BWeekSun = date_shift_days d (DeltaDays (6 - (day_number d + 4) mod 7))"
proof -
  have "0 \<le> (day_number d + 3) mod 7" "(day_number d + 3) mod 7 \<le> 6" by simp_all
  then show "date_end_of d BWeekMon = date_shift_days d (DeltaDays (6 - (day_number d + 3) mod 7))"
    using week_delta_days [of "6 - (day_number d + 3) mod 7"]
    by (simp add: date_end_of_week_mon_def iso_day_of_week)
  have "0 \<le> (day_number d + 4) mod 7" "(day_number d + 4) mod 7 \<le> 6" by simp_all
  then show "date_end_of d BWeekSun = date_shift_days d (DeltaDays (6 - (day_number d + 4) mod 7))"
    using week_delta_days [of "6 - (day_number d + 4) mod 7"]
    by (simp only: date_end_of.simps date_end_of_week_sun_def iso_day_of_week sunday_week(1) Let_def option.sel)
qed

lemma start_of_week_shift:
  "date_start_of d BWeekMon = date_shift_days d (DeltaDays (- ((day_number d + 3) mod 7)))"
  "date_start_of d BWeekSun = date_shift_days d (DeltaDays (- ((day_number d + 4) mod 7)))"
  by (simp_all add: date_start_of_week_mon_def date_start_of_week_sun_def iso_day_of_week sunday_week(2))

text \<open>Every unit is an interval of dates, and its two ends are the results of
  \<open>start_of\<close> and \<open>end_of\<close>.\<close>

lemma week_slice:
  fixes n x :: int
  shows "x div 7 = n div 7 \<longleftrightarrow> n - n mod 7 \<le> x \<and> x \<le> n - n mod 7 + 6"
  by presburger

lemma day_number_first: "day_number \<lparr>d_year = y, d_month = m, d_day = 1\<rparr>
    = year_days_before y + year_days_before_month y m + unix_days_min"
  by (simp add: date_unix_days_def)

lemma date_le_iff:
  "(a :: date) \<le> b \<longleftrightarrow> d_year a < d_year b \<or> d_year a = d_year b \<and>
     (d_month a < d_month b \<or> d_month a = d_month b \<and> d_day a \<le> d_day b)"
  by (auto simp: less_eq_date_ext_def date_key_def)

lemma month_index_eq: "month_index x = month_index d \<longleftrightarrow> d_year x = d_year d \<and> d_month x = d_month d"
proof
  assume "month_index x = month_index d"
  moreover have "month_get (d_month x) - 1 \<in> {0..<12}" "month_get (d_month d) - 1 \<in> {0..<12}"
    by (cases "d_month x"; simp) (cases "d_month d"; simp)
  ultimately have "year_get (d_year x) = year_get (d_year d) \<and> month_get (d_month x) = month_get (d_month d)"
    by auto presburger+
  then show "d_year x = d_year d \<and> d_month x = d_month d" by (simp add: month_get_inject year.expand)
qed simp

lemma month_interval:
  assumes "date_ok d" and "date_ok x"
  shows "month_index x = month_index d \<longleftrightarrow>
    \<lparr>d_year = d_year d, d_month = d_month d, d_day = 1\<rparr> \<le> x
    \<and> x \<le> d\<lparr>d_day := year_days_in_month (d_year d) (d_month d)\<rparr>"
  using assms unfolding month_index_eq date_le_iff date_ok_def
  by (cases "d_year x" "d_year d" rule: linorder_cases; cases "d_month x" "d_month d" rule: linorder_cases)
    (simp_all add: less_imp_not_less less_imp_neq less_imp_neq [THEN not_sym])

lemma year_interval:
  assumes "date_ok d" and "date_ok x"
  shows "d_year x = d_year d \<longleftrightarrow>
    \<lparr>d_year = d_year d, d_month = January, d_day = 1\<rparr> \<le> x \<and> x \<le> date_max\<lparr>d_year := d_year d\<rparr>"
proof -
  have "d_day x \<le> 31"
    using assms(2) days_in_month_range(2) [of "d_year x" "d_month x"] by (simp add: date_ok_def)
  moreover have "\<not> d_month x < January" "\<not> December < d_month x" by (simp_all add: less_month_def not_less)
  ultimately show ?thesis
    using assms unfolding date_le_iff date_ok_def date_max_def
    by (cases "d_year x" "d_year d" rule: linorder_cases)
      (simp_all add: not_less le_less less_imp_not_less less_imp_neq less_imp_neq [THEN not_sym])
qed

lemma date_unit_is_interval_aux:
  assumes "date_ok d" and "date_start_of d u = Some s" and "date_end_of d u = Some e" and "date_ok x"
  shows "date_ok s \<and> date_ok e \<and> (unit_index u x = unit_index u d \<longleftrightarrow> s \<le> x \<and> x \<le> e)"
proof (cases "u = BYear \<or> u = BMonth")
  case True
  then consider "u = BYear" | "u = BMonth" by auto
  then show ?thesis
  proof cases
    case 1
    then show ?thesis
      using assms year_interval [OF assms(1,4)]
      by (auto simp: date_ok_def date_max_def tables_by_month year.expand)
  next
    case 2
    then show ?thesis
      using assms month_interval [OF assms(1,4)] days_in_month_range(1) [of "d_year d" "d_month d"]
      by (auto simp: date_ok_def simp del: days_before_month_nonneg)
  qed
next
  case False
  then consider "u = BWeekMon" | "u = BWeekSun" by (cases u) auto
  then show ?thesis
  proof cases
    case 1
    with assms have "date_ok s" "date_ok e" "day_number s = day_number d - (day_number d + 3) mod 7"
      "day_number e = day_number d + 6 - (day_number d + 3) mod 7"
      using date_days.shift_sound [OF assms(1)] by (fastforce simp only: start_of_week_shift end_of_week_shift)+
    with 1 week_slice [of "day_number x + 3" "day_number d + 3"] assms(4) show ?thesis
      by (auto simp flip: date_unix_days_le)
  next
    case 2
    with assms have "date_ok s" "date_ok e" "day_number s = day_number d - (day_number d + 4) mod 7"
      "day_number e = day_number d + 6 - (day_number d + 4) mod 7"
      using date_days.shift_sound [OF assms(1)] by (fastforce simp only: start_of_week_shift end_of_week_shift)+
    with 2 week_slice [of "day_number x + 4" "day_number d + 4"] assms(4) show ?thesis
      by (auto simp flip: date_unix_days_le)
  qed
qed


lemma unit_index_mono:
  assumes "date_ok x" and "date_ok y" and "x \<le> y"
  shows "unit_index u x \<le> unit_index u y"
proof -
  have "day_number x \<le> day_number y" using assms by (simp add: date_unix_days_le)
  moreover have "month_index x \<le> month_index y" "year_get (d_year x) \<le> year_get (d_year y)"
  proof -
    consider "d_year x < d_year y" | "d_year x = d_year y" "d_month x \<le> d_month y"
      using assms(3) by (auto simp: date_le_iff)
    then show "month_index x \<le> month_index y" "year_get (d_year x) \<le> year_get (d_year y)"
      using month_get_range [of "d_month x"] month_get_range [of "d_month y"]
      by (cases; simp add: less_year_def less_eq_month_def; linarith)+
  qed
  ultimately show ?thesis by (cases u) (auto intro: zdiv_mono1)
qed

text \<open>C4. \<open>Date::start_of\<close> and \<open>Date::end_of\<close> are the first and the last date of the
  year, month, or week (starting on Monday or on Sunday) the date is in: the dates of that unit
  are exactly those between them.\<close>

theorem date_unit_is_interval:
  assumes "date_ok d" and "date_start_of d u = Some s" and "date_end_of d u = Some e" and "date_ok x"
  shows "date_ok s \<and> date_ok e \<and> (unit_index u x = unit_index u d \<longleftrightarrow> s \<le> x \<and> x \<le> e)"
  using assms by (rule date_unit_is_interval_aux)

theorem date_unit_is_interval_witness:
  "date_ok \<lparr>d_year = Year 9999, d_month = December, d_day = 1\<rparr> \<and> date_ok date_max
   \<and> (unit_index BMonth date_min = unit_index BMonth date_max
      \<longleftrightarrow> \<lparr>d_year = Year 9999, d_month = December, d_day = 1\<rparr> \<le> date_min \<and> date_min \<le> date_max)"
  by (rule date_unit_is_interval [OF date_max_ok _ _ date_min_ok, where u = BMonth])
    (simp_all add: date_max_def tables_by_month)

text \<open>\<open>Date::next_start_of\<close> is the first date of the following unit: the dates from
  it on are exactly those of later units.\<close>

theorem next_start_begins_next_unit:
  assumes "date_ok d" and "date_start_of d u = Some s" and "date_next_start_of d u = Some n"
    and "date_ok x"
  shows "date_ok n \<and> (n \<le> x \<longleftrightarrow> unit_index u d < unit_index u x)"
proof -
  obtain e where e: "date_end_of d u = Some e" and n: "date_tomorrow e = Some n"
    using assms(3) by (auto simp: date_next_start_of_def)
  note unit = date_unit_is_interval_aux [OF assms(1,2) e]
  have ok: "date_ok s" "date_ok e" using unit [OF assms(1)] by auto
  have d: "s \<le> d" "d \<le> e" using unit [OF assms(1)] by auto
  have nx: "date_ok n" "n \<le> x \<longleftrightarrow> e < x"
    using date_tomorrow_sound [OF ok(2) n] date_unix_days_le [OF _ assms(4), of n]
      date_unix_days_le [OF assms(4) ok(2)] by auto
  have "unit_index u e = unit_index u d" using unit [OF ok(2)] d by auto
  moreover have "s \<le> e" using d by (rule order_trans)
  moreover have "e < x \<Longrightarrow> unit_index u x \<noteq> unit_index u d" using unit [OF assms(4)] by auto
  moreover have "unit_index u e \<le> unit_index u x" if "e < x"
    using that by (intro unit_index_mono [OF ok(2) assms(4)]) simp
  moreover have "unit_index u x \<le> unit_index u e" if "\<not> e < x"
    using that by (intro unit_index_mono [OF assms(4) ok(2)]) (simp add: not_less)
  ultimately have "e < x \<longleftrightarrow> unit_index u d < unit_index u x"
    by (cases "e < x") fastforce+
  with nx show ?thesis by blast
qed

theorem next_start_begins_next_unit_witness:
  "date_ok \<lparr>d_year = Year 2, d_month = January, d_day = 1\<rparr>
   \<and> (\<lparr>d_year = Year 2, d_month = January, d_day = 1\<rparr> \<le> date_max
      \<longleftrightarrow> unit_index BYear date_min < unit_index BYear date_max)"
  by (rule next_start_begins_next_unit [OF date_min_ok _ _ date_max_ok])
    (simp_all add: date_next_start_of_def date_tomorrow_def date_max_def date_min_def tables_by_month
      year_new_def)

end
