(* ===== verification/Clock_Facts.thy ===== *)
theory Clock_Facts
  imports Clock
begin

section \<open>What the operations on times of day compute\<close>

text \<open>
  The nanoseconds since midnight number the times of day (contract \<open>counted\<close>); the order
  of times, rounding and the boundaries of hours, minutes and seconds are read off that number.
\<close>

lemma time_total_nanos_eq:
  "time_ok t \<Longrightarrow> time_total_nanos t =
     ((t_hour t * 60 + t_minute t) * 60 + t_second t) * 1000000000 + subsec_get (t_subsec t)"
  by (simp add: time_total_nanos_def time_total_seconds_def time_units time_ok_def subsec_ok_def bound_defs)

lemma time_of_nanos:
  assumes "0 \<le> h" "h < 24" "0 \<le> m" "m < 60" "0 \<le> s" "s < 60" "0 \<le> n" "n < 1000000000"
  shows "time_from_total_nanos_unchecked (((h * 60 + m) * 60 + s) * 1000000000 + n)
    = \<lparr>t_hour = h, t_minute = m, t_second = s, t_subsec = SubSecNanos n\<rparr>"
proof -
  define N where "N = ((h * 60 + m) * 60 + s) * 1000000000 + n"
  have hour: "N = 3600000000000 * h + ((m * 60 + s) * 1000000000 + n)"
    and minute: "(m * 60 + s) * 1000000000 + n = 60000000000 * m + (s * 1000000000 + n)"
    and minutes: "N = 60000000000 * (h * 60 + m) + (s * 1000000000 + n)"
    and second: "s * 1000000000 + n = 1000000000 * s + n"
    and seconds: "N = 1000000000 * ((h * 60 + m) * 60 + s) + n"
    by (simp_all add: N_def algebra_simps)
  have b: "0 \<le> (m * 60 + s) * 1000000000 + n" "(m * 60 + s) * 1000000000 + n < 3600000000000"
    "0 \<le> s * 1000000000 + n" "s * 1000000000 + n < 60000000000"
    using assms by (simp_all add: algebra_simps)
  have "N div 3600000000000 = h" "N mod 3600000000000 = (m * 60 + s) * 1000000000 + n"
    using div_mod_unique [OF hour b(1,2)] by blast+
  moreover have "((m * 60 + s) * 1000000000 + n) div 60000000000 = m"
    using div_mod_unique(1) [OF minute b(3,4)] by blast
  moreover have "N mod 60000000000 = s * 1000000000 + n"
    using div_mod_unique(2) [OF minutes b(3,4)] by blast
  moreover have "(s * 1000000000 + n) div 1000000000 = s"
    using div_mod_unique(1) [OF second assms(7,8)] by blast
  moreover have "N mod 1000000000 = n"
    using div_mod_unique(2) [OF seconds assms(7,8)] by blast
  moreover have "as_u8 h = h" "as_u8 m = m" "as_u8 s = s" "as_i32 n = n"
    using assms by simp_all
  ultimately show ?thesis
    unfolding N_def [symmetric] time_from_total_nanos_unchecked_def time_units subsec_from_remainder_def
    by (simp only:)
qed

lemma split_nanos:
  fixes N :: int
  assumes "0 \<le> N" and "N \<le> 86399999999999"
  obtains h m s n where "N = ((h * 60 + m) * 60 + s) * 1000000000 + n"
    and "0 \<le> h" "h < 24" "0 \<le> m" "m < 60" "0 \<le> s" "s < 60" "0 \<le> n" "n < 1000000000"
proof -
  define S where "S = N div 1000000000"
  define M where "M = S div 60"
  have N: "N = S * 1000000000 + N mod 1000000000" and S: "S = M * 60 + S mod 60"
    and M: "M = M div 60 * 60 + M mod 60"
    by (simp_all add: S_def M_def)
  have "0 \<le> S" "S \<le> 86399" using assms by (simp_all add: S_def)
  then have "0 \<le> M" "M \<le> 1439" by (simp_all add: M_def)
  then have "0 \<le> M div 60" "M div 60 < 24" by simp_all
  then show thesis using N S M by (intro that [of "M div 60" "M mod 60" "S mod 60" "N mod 1000000000"]) auto
qed

interpretation times: counted time_ok time_total_nanos time_from_total_nanos_unchecked 0 86399999999999
proof unfold_locales
  fix t :: time
  assume t: "time_ok t"
  then show "0 \<le> time_total_nanos t \<and> time_total_nanos t \<le> 86399999999999"
    unfolding time_total_nanos_eq [OF t] by (simp add: time_ok_def subsec_ok_def bound_defs)
  show "time_from_total_nanos_unchecked (time_total_nanos t) = t"
    unfolding time_total_nanos_eq [OF t]
    using t by (subst time_of_nanos) (simp_all add: time_ok_def subsec_ok_def bound_defs)
next
  fix n :: int
  assume "0 \<le> n" "n \<le> 86399999999999"
  from split_nanos [OF this] obtain h m s k where n: "n = ((h * 60 + m) * 60 + s) * 1000000000 + k"
    and r: "0 \<le> h" "h < 24" "0 \<le> m" "m < 60" "0 \<le> s" "s < 60" "0 \<le> k" "k < 1000000000" .
  have t: "time_ok (time_from_total_nanos_unchecked n)"
    unfolding n time_of_nanos [OF r] using r by (simp add: time_ok_def subsec_ok_def bound_defs)
  then show "time_ok (time_from_total_nanos_unchecked n)" .
  show "time_total_nanos (time_from_total_nanos_unchecked n) = n"
    unfolding time_total_nanos_eq [OF t] using n time_of_nanos [OF r] by simp
qed

text \<open>A time of day is its number of nanoseconds since midnight: \<open>total_nanos\<close> and
  \<open>from_total_nanos_unchecked\<close> are inverse to each other on valid times and on the numbers
  below one day.\<close>

theorem time_nanos_roundtrip:
  assumes "time_ok t" and "0 \<le> n" and "n < ns_per_day"
  shows "time_from_total_nanos_unchecked (time_total_nanos t) = t
    \<and> 0 \<le> time_total_nanos t \<and> time_total_nanos t < ns_per_day
    \<and> time_ok (time_from_total_nanos_unchecked n)
    \<and> time_total_nanos (time_from_total_nanos_unchecked n) = n"
  using times.num_bounds [OF assms(1)] times.of_num_num [OF assms(1)] times.of_num_ok [of n]
    times.num_of_num [of n] assms(2,3) by (auto simp: ns_per_day_def)

lemma time_max_ok: "time_ok time_max" and time_min_ok: "time_ok time_min"
  by (simp_all add: time_max_def time_min_def time_ok_def subsec_ok_def bound_defs)

theorem time_nanos_roundtrip_witness:
  "time_from_total_nanos_unchecked (time_total_nanos time_max) = time_max
    \<and> 0 \<le> time_total_nanos time_max \<and> time_total_nanos time_max < ns_per_day
    \<and> time_ok (time_from_total_nanos_unchecked 45296000000001)
    \<and> time_total_nanos (time_from_total_nanos_unchecked 45296000000001) = 45296000000001"
  by (rule time_nanos_roundtrip [OF time_max_ok]) (simp_all add: ns_per_day_def)

lemma time_less_iff:
  "(a :: time) < b \<longleftrightarrow> t_hour a < t_hour b \<or> t_hour a = t_hour b \<and>
     (t_minute a < t_minute b \<or> t_minute a = t_minute b \<and>
       (t_second a < t_second b \<or> t_second a = t_second b \<and> t_subsec a < t_subsec b))"
  by (auto simp: less_time_ext_def time_key_def)

lemma time_less_nanos:
  assumes "time_ok a" and "time_ok b" and "a < b"
  shows "time_total_nanos a < time_total_nanos b"
  using assms unfolding time_total_nanos_eq [OF assms(1)] time_total_nanos_eq [OF assms(2)] time_less_iff
  by (auto simp: time_ok_def subsec_ok_def bound_defs less_subsec_nanos_def)

lemma time_le_nanos:
  assumes "time_ok a" and "time_ok b"
  shows "time_total_nanos a \<le> time_total_nanos b \<longleftrightarrow> a \<le> b"
  using time_less_nanos [OF assms] time_less_nanos [OF assms(2,1)]
  by (metis linorder_neq_iff linorder_not_less order_less_imp_le)

subsection \<open>Rounding\<close>

lemma time_threshold: "time_round_threshold m i q = threshold (mode_to_abs_euclid m False) i q"
  by (cases m) (simp_all add: even_iff_mod_2_eq_zero)

lemma subsec_threshold: "subsec_round_threshold m i q = threshold m i q"
  by (cases m) (simp_all add: even_iff_mod_2_eq_zero)

text \<open>The rounded number of nanoseconds, before it is split into time and overflow.\<close>

definition time_round_nanos :: "mode \<Rightarrow> int \<Rightarrow> int \<Rightarrow> int" where
  "time_round_nanos m increment n = threshold_round (mode_to_abs_euclid m False) increment n"

lemma time_round_eq:
  "time_round t i m = (let n = time_round_nanos m i (time_total_nanos t)
     in (time_from_total_nanos_unchecked (n mod ns_per_day), n div ns_per_day))"
  by (simp add: time_round_def time_round_nanos_def threshold_round_def Let_def time_threshold)

lemma subsec_round_eq:
  "subsec_ok n \<Longrightarrow> subsec_round n i m = (let r = threshold_round m i (subsec_get n)
     in (DeltaSeconds (r div 1000000000), subsec_from_remainder r))"
  by (simp add: subsec_round_def threshold_round_def Let_def subsec_threshold subsec_ok_def bound_defs)

definition splits_evenly :: "int \<Rightarrow> int \<Rightarrow> bool" where
  "splits_evenly whole i \<longleftrightarrow> 0 < i \<and> i dvd whole \<and> (i = 1 \<or> even i)"

interpretation time_rounder: rounder "\<lambda>n. 0 \<le> n \<and> n < ns_per_day" "splits_evenly ns_per_day"
    time_round_nanos "\<lambda>m. mode_to_abs_euclid m False"
  by unfold_locales
    (auto simp: splits_evenly_def time_round_nanos_def intro: threshold_rounds)

interpretation subsec_rounder: rounder "\<lambda>n. 0 \<le> n \<and> n < 1000000000" "splits_evenly 1000000000"
    threshold_round "\<lambda>m. m"
  by unfold_locales (auto simp: splits_evenly_def intro: threshold_rounds)

text \<open>A rounded number below a total that the increment divides stays at or below it.\<close>

lemma rounds_to_below:
  assumes "rounds_to m i n r" and "0 < i" and "i dvd d" and "0 \<le> n" and "n \<le> d"
  shows "0 \<le> r \<and> r \<le> d"
  using rounds_to_mono [OF assms(2) _ assms(1), of 0 0] rounds_to_mono [OF assms(2) assms(1), of d d]
    rounds_to_self [OF assms(2)] assms(3,4,5) by simp

text \<open>C5. \<open>Time::round\<close> with an increment that divides the day and has a middle (or is one
  nanosecond) rounds the nanoseconds since midnight as its mode says; the time it returns is
  valid and the overflow is 0 or 1 day.\<close>

theorem time_round_spec:
  assumes "time_ok t" and "0 < i" and "i dvd ns_per_day" and "i = 1 \<or> even i"
    and "time_round t i m = (r, days)"
  shows "time_ok r \<and> (days = 0 \<or> days = 1)
    \<and> rounds_to (mode_to_abs_euclid m False) i (time_total_nanos t) (time_total_nanos r + days * ns_per_day)"
proof -
  define n where "n = time_round_nanos m i (time_total_nanos t)"
  have rd: "rounds_to (mode_to_abs_euclid m False) i (time_total_nanos t) n"
    using time_rounder.rnd_rounds [of i "time_total_nanos t" m] times.num_bounds [OF assms(1)] assms
    by (simp add: n_def splits_evenly_def ns_per_day_def)
  have n: "0 \<le> n" "n \<le> ns_per_day"
    using rounds_to_below [OF rd assms(2,3)] times.num_bounds [OF assms(1)] by (simp_all add: ns_per_day_def)
  have eq: "r = time_from_total_nanos_unchecked (n mod ns_per_day)" "days = n div ns_per_day"
    using assms(5) by (simp_all add: time_round_eq Let_def n_def)
  have "0 \<le> n mod ns_per_day" "n mod ns_per_day \<le> 86399999999999"
    by (simp_all add: ns_per_day_def)
  then have "time_ok r" "time_total_nanos r + days * ns_per_day = n"
    using times.of_num_ok times.num_of_num unfolding eq by simp_all
  moreover have "days = 0 \<or> days = 1"
    using n unfolding eq by (cases "n = ns_per_day") (auto simp: ns_per_day_def)
  ultimately show ?thesis using rd by simp
qed

theorem time_round_spec_witness:
  "time_round time_max 60000000000 HalfEven = (time_min, 1)
   \<and> rounds_to AbsHalfEven 60000000000 86399999999999 86400000000000"
proof -
  have eq: "time_round time_max 60000000000 HalfEven = (time_min, 1)"
    by code_simp
  have "time_total_nanos time_max = 86399999999999" "time_total_nanos time_min = 0"
    by code_simp+
  with time_round_spec [OF time_max_ok _ _ _ eq] eq show ?thesis by (simp add: time_units)
qed

text \<open>For an odd increment \<open>Time::round\<close> does not round to the nearest multiple: with
  five nanoseconds and \<open>HalfExpand\<close>, seven nanoseconds become ten, although five is
  nearer.\<close>

theorem time_round_odd_increment:
  "let t = time_from_total_nanos_unchecked 7
   in time_round t 5 HalfExpand = (time_from_total_nanos_unchecked 10, 0)
     \<and> \<not> rounds_to (mode_to_abs_euclid HalfExpand False) 5 7 10
     \<and> rounds_to (mode_to_abs_euclid HalfExpand False) 5 7 5"
  by code_simp

lemma subsec_round_spec_aux:
  assumes "subsec_ok n" and "0 < i" and "i dvd 1000000000" and "i = 1 \<or> even i"
    and "subsec_round n i m = (carry, r)"
  shows "subsec_ok r \<and> (delta_seconds_get carry = 0 \<or> delta_seconds_get carry = 1)
    \<and> rounds_to m i (subsec_get n) (delta_seconds_get carry * 1000000000 + subsec_get r)"
proof -
  define s where "s = threshold_round m i (subsec_get n)"
  have dom: "0 \<le> subsec_get n \<and> subsec_get n < 1000000000"
    using assms(1) by (simp add: subsec_ok_def bound_defs)
  have rd: "rounds_to m i (subsec_get n) s"
    using subsec_rounder.rnd_rounds [OF _ dom, of i m] assms by (simp add: s_def splits_evenly_def)
  have s: "0 \<le> s" "s \<le> 1000000000" using rounds_to_below [OF rd assms(2,3)] dom by simp_all
  have eq: "carry = DeltaSeconds (s div 1000000000)" "r = SubSecNanos (s mod 1000000000)"
    using assms(5) subsec_round_eq [OF assms(1)]
    by (simp_all add: Let_def s_def subsec_from_remainder_def order_less_trans [OF pos_mod_bound])
  show ?thesis
    using rd s unfolding eq by (cases "s = 1000000000") (auto simp: subsec_ok_def bound_defs)
qed

text \<open>\<open>SubSecNanos::round\<close> with an increment that divides the second and has a middle
  rounds the nanoseconds as its mode says; the sub-second part it returns is valid and the
  carry is 0 or 1 second.\<close>

theorem subsec_round_spec:
  assumes "subsec_ok n" and "0 < i" and "i dvd 1000000000" and "i = 1 \<or> even i"
    and "subsec_round n i m = (carry, r)"
  shows "subsec_ok r \<and> (delta_seconds_get carry = 0 \<or> delta_seconds_get carry = 1)
    \<and> rounds_to m i (subsec_get n) (delta_seconds_get carry * 1000000000 + subsec_get r)"
  using assms by (rule subsec_round_spec_aux)

theorem subsec_round_spec_witness:
  "rounds_to AbsHalfEven 1000000 999500000 1000000000"
proof -
  have "subsec_round (SubSecNanos 999500000) 1000000 AbsHalfEven = (DeltaSeconds 1, SubSecNanos 0)"
    by code_simp
  from subsec_round_spec [OF _ _ _ _ this] show ?thesis by (simp add: subsec_ok_def bound_defs)
qed

subsection \<open>Boundaries\<close>

abbreviation unit_nanos :: "time_boundary_unit \<Rightarrow> int" where
  "unit_nanos u \<equiv> time_boundary_in_secs u * 1000000000"

lemma nanos_mod_unit:
  assumes "time_ok t"
  shows "time_total_nanos t mod unit_nanos u = (case u of
      BHour \<Rightarrow> (t_minute t * 60 + t_second t) * 1000000000 + subsec_get (t_subsec t)
    | BMinute \<Rightarrow> t_second t * 1000000000 + subsec_get (t_subsec t)
    | BSecond \<Rightarrow> subsec_get (t_subsec t))"
proof -
  have n: "time_total_nanos t = 3600000000000 * t_hour t + ((t_minute t * 60 + t_second t) * 1000000000 + subsec_get (t_subsec t))"
    "time_total_nanos t = 60000000000 * (t_hour t * 60 + t_minute t) + (t_second t * 1000000000 + subsec_get (t_subsec t))"
    "time_total_nanos t = 1000000000 * ((t_hour t * 60 + t_minute t) * 60 + t_second t) + subsec_get (t_subsec t)"
    using time_total_nanos_eq [OF assms] by simp_all
  show ?thesis
    using div_mod_unique(2) [OF n(1)] div_mod_unique(2) [OF n(2)] div_mod_unique(2) [OF n(3)] assms
    by (cases u) (simp_all add: time_ok_def subsec_ok_def bound_defs)
qed

lemma next_field:
  assumes "time_ok t"
  shows "(t_hour t + 1) mod 24 = (if t_hour t = 23 then 0 else t_hour t + 1)"
    and "(t_minute t + 1) mod 60 = (if t_minute t = 59 then 0 else t_minute t + 1)"
    and "(t_second t + 1) mod 60 = (if t_second t = 59 then 0 else t_second t + 1)"
    and "t_hour t mod 24 = t_hour t" and "t_minute t mod 60 = t_minute t"
  using assms by (auto simp: time_ok_def)

text \<open>The boundaries of an hour, minute or second on the nanosecond line: \<open>start_of\<close>
  is the multiple of the unit below, \<open>end_of\<close> the last nanosecond before the next multiple,
  and \<open>next_start_of\<close> that multiple, with a flag when it is the next midnight.\<close>

theorem time_boundaries:
  assumes "time_ok t"
  shows "time_ok (time_start_of t u) \<and> time_ok (time_end_of t u) \<and> time_ok (fst (time_next_start_of t u))
    \<and> time_total_nanos (time_start_of t u) = time_total_nanos t - time_total_nanos t mod unit_nanos u
    \<and> time_total_nanos (time_end_of t u) = time_total_nanos (time_start_of t u) + unit_nanos u - 1
    \<and> time_total_nanos (fst (time_next_start_of t u)) + (if snd (time_next_start_of t u) then ns_per_day else 0)
      = time_total_nanos (time_start_of t u) + unit_nanos u"
proof -
  have ok: "time_ok (time_start_of t u)" "time_ok (time_end_of t u)" "time_ok (fst (time_next_start_of t u))"
    using assms by (cases u; simp add: time_ok_def time_min_def time_max_def subsec_ok_def bound_defs)+
  note eqs = time_total_nanos_eq [OF assms] time_total_nanos_eq [OF ok(1)] time_total_nanos_eq [OF ok(2)]
    time_total_nanos_eq [OF ok(3)]
  show ?thesis
  proof (cases u)
    case BHour
    show ?thesis using ok unfolding nanos_mod_unit [OF assms] unfolding eqs unfolding BHour
      by (cases "t_hour t = 23") (simp_all add: next_field [OF assms] time_min_def time_max_def bound_defs time_units)
  next
    case BMinute
    show ?thesis using ok unfolding nanos_mod_unit [OF assms] unfolding eqs unfolding BMinute
      by (cases "t_hour t = 23"; cases "t_minute t = 59")
        (simp_all add: next_field [OF assms] time_min_def time_max_def bound_defs time_units)
  next
    case BSecond
    show ?thesis using ok unfolding nanos_mod_unit [OF assms] unfolding eqs unfolding BSecond
      by (cases "t_hour t = 23"; cases "t_minute t = 59"; cases "t_second t = 59")
        (simp_all add: next_field [OF assms] time_min_def time_max_def bound_defs time_units)
  qed
qed

theorem time_boundaries_witness:
  "time_total_nanos (time_end_of time_max BMinute) = time_total_nanos (time_start_of time_max BMinute) + 59999999999"
  using time_boundaries [OF time_max_ok, of BMinute] by simp

end
