(* ===== verification/Moments_Facts.thy ===== *)
theory Moments_Facts
  imports Moments Calendar_Facts Delta_Facts
begin

section \<open>Instants and date-times on the nanosecond line\<close>

text \<open>
  An instant is its timestamp in nanoseconds, and a plain date-time read as UTC is such a
  timestamp too (contract \<open>counted\<close> for both). Shifts, offsets and the resolution of local
  times are then additions on that line, and the panics of the source (an unwrapped shift, an
  unreachable match arm) are shown not to happen on valid values.
\<close>

definition instant_ok :: "instant \<Rightarrow> bool" where
  "instant_ok i \<longleftrightarrow> epoch_ok (i_epoch i) \<and> subsec_ok (i_subsec i)"

definition pdt_ok :: "plain_datetime \<Rightarrow> bool" where
  "pdt_ok p \<longleftrightarrow> date_ok (pdt_date p) \<and> time_ok (pdt_time p)"

text \<open>The invariant that \<open>offset_datetime.rs\<close> states: the instant is in range.\<close>

definition odt_ok :: "offset_datetime \<Rightarrow> bool" where
  "odt_ok x \<longleftrightarrow> date_ok (odt_date x) \<and> time_ok (odt_time x) \<and> offset_ok (odt_offset x)
     \<and> ls_to_epoch (pdt_local_seconds (odt_to_plain x)) (odt_offset x) \<noteq> None"

abbreviation ts_min :: int where "ts_min \<equiv> -62135596800000000000"
abbreviation ts_max :: int where "ts_max \<equiv> 253402300799999999999"

abbreviation local_nanos :: "plain_datetime \<Rightarrow> int" where
  "local_nanos p \<equiv> instant_timestamp_nanos (pdt_assume_utc p)"

lemma epoch_bounds: "epoch_min = -62135596800" "epoch_max = 253402300799"
  by (simp_all add: bound_defs)

lemma epoch_ok_iff: "epoch_ok e \<longleftrightarrow> -62135596800 \<le> epoch_get e \<and> epoch_get e \<le> 253402300799"
  by (simp add: epoch_ok_def epoch_bounds)

lemma subsec_ok_iff: "subsec_ok n \<longleftrightarrow> 0 \<le> subsec_get n \<and> subsec_get n < 1000000000"
  by (auto simp: subsec_ok_def bound_defs)

lemma unix_days_ok_iff: "unix_days_ok u \<longleftrightarrow> -719162 \<le> unix_days_get u \<and> unix_days_get u \<le> 2932896"
  by (simp add: unix_days_ok_def bound_defs)

subsection \<open>Timestamps\<close>

lemma ts_split:
  assumes "subsec_ok s"
  shows "(e * 1000000000 + subsec_get s) div 1000000000 = e"
    and "(e * 1000000000 + subsec_get s) mod 1000000000 = subsec_get s"
proof -
  have "e * 1000000000 + subsec_get s = 1000000000 * e + subsec_get s" by simp
  from div_mod_unique [OF this] assms
  show "(e * 1000000000 + subsec_get s) div 1000000000 = e"
    and "(e * 1000000000 + subsec_get s) mod 1000000000 = subsec_get s"
    by (simp_all add: subsec_ok_iff)
qed

lemma ts_div_range:
  fixes n :: int
  shows "-62135596800 \<le> n div 1000000000 \<longleftrightarrow> ts_min \<le> n" and "n div 1000000000 \<le> 253402300799 \<longleftrightarrow> n \<le> ts_max"
  by linarith+

lemma ts_outside:
  fixes q r :: int
  assumes "0 \<le> r" and "r < 1000000000"
  shows "q < -62135596800 \<Longrightarrow> q * 1000000000 + r < ts_min"
    and "253402300799 < q \<Longrightarrow> ts_max < q * 1000000000 + r"
  using assms by simp_all

lemma from_timestamp_nanos_eq:
  "instant_from_timestamp_nanos n = (if ts_min \<le> n \<and> n \<le> ts_max
     then Some \<lparr>i_epoch = EpochSecs (n div 1000000000), i_subsec = SubSecNanos (n mod 1000000000)\<rparr> else None)"
proof -
  have "(i64_ok (n div 1000000000) \<and> -62135596800 \<le> n div 1000000000 \<and> n div 1000000000 \<le> 253402300799)
      = (ts_min \<le> n \<and> n \<le> ts_max)"
    unfolding ts_div_range [symmetric] i64_ok_def by auto
  then show ?thesis
    unfolding instant_from_timestamp_nanos_def checked_def epoch_new_def epoch_bounds subsec_from_remainder_def
    by auto
qed

lemma ts_range: "instant_ok i \<Longrightarrow> ts_min \<le> instant_timestamp_nanos i \<and> instant_timestamp_nanos i \<le> ts_max"
  by (simp add: instant_ok_def instant_timestamp_nanos_def epoch_ok_iff subsec_ok_iff)

lemma from_ts_of: "instant_ok i \<Longrightarrow> instant_from_timestamp_nanos (instant_timestamp_nanos i) = Some i"
  using ts_range [of i] ts_split [of "i_subsec i" "epoch_get (i_epoch i)"]
  by (simp add: from_timestamp_nanos_eq instant_ok_def instant_timestamp_nanos_def)

lemma ts_of_from:
  assumes "instant_from_timestamp_nanos n = Some i"
  shows "instant_ok i \<and> instant_timestamp_nanos i = n"
proof -
  have n: "ts_min \<le> n \<and> n \<le> ts_max"
    and i: "i = \<lparr>i_epoch = EpochSecs (n div 1000000000), i_subsec = SubSecNanos (n mod 1000000000)\<rparr>"
    using assms by (simp_all add: from_timestamp_nanos_eq split: if_splits)
  show ?thesis
    using n subsec_mod_ok [of n] unfolding i
    by (simp add: instant_ok_def instant_timestamp_nanos_def epoch_ok_iff ts_div_range)
qed

interpretation instants: counted instant_ok instant_timestamp_nanos
    "\<lambda>n. the (instant_from_timestamp_nanos n)" ts_min ts_max
proof unfold_locales
  fix n :: int
  assume n: "ts_min \<le> n" "n \<le> ts_max"
  then obtain i where "instant_from_timestamp_nanos n = Some i"
    by (simp add: from_timestamp_nanos_eq)
  with ts_of_from [OF this] show "instant_ok (the (instant_from_timestamp_nanos n))"
    and "instant_timestamp_nanos (the (instant_from_timestamp_nanos n)) = n" by simp_all
qed (simp_all add: ts_range from_ts_of)

subsection \<open>UTC date-times\<close>

lemma local_nanos_eq:
  "time_ok (pdt_time p) \<Longrightarrow>
   local_nanos p = day_number (pdt_date p) * 86400000000000 + time_total_nanos (pdt_time p)"
  by (simp add: instant_timestamp_nanos_def pdt_assume_utc_def ls_assume_utc_def pdt_local_seconds_def
      date_epoch_at_def unix_days_epoch_at_def time_total_nanos_eq time_total_seconds_def time_units algebra_simps)

lemma seconds_range:
  assumes "time_ok t"
  shows "0 \<le> time_total_seconds t" and "time_total_seconds t < 86400"
  using assms by (simp_all add: time_ok_def time_total_seconds_def)

lemma assume_utc_ok: "pdt_ok p \<Longrightarrow> instant_ok (pdt_assume_utc p)"
  using date_unix_days_ok [of "pdt_date p"] seconds_range [of "pdt_time p"]
  by (simp add: pdt_ok_def instant_ok_def pdt_assume_utc_def ls_assume_utc_def pdt_local_seconds_def
      date_epoch_at_def unix_days_epoch_at_def epoch_ok_iff unix_days_ok_iff s_per_day_def time_ok_def)

lemma time_from_sec_subsec_subsec [simp]: "t_subsec (time_from_sec_subsec x n) = n"
  by (simp add: time_from_sec_subsec_def)

lemma time_of_seconds:
  assumes "0 \<le> x" and "x < 86400" and "subsec_ok n"
  shows "time_ok (time_from_sec_subsec x n)" and "time_total_seconds (time_from_sec_subsec x n) = x"
    and "epoch_time (EpochSecs x) n = time_from_sec_subsec x n"
proof -
  have h: "0 \<le> x div 3600" "x div 3600 < 24" using assms by simp_all
  have sm: "x mod 3600 = 60 * (x div 60 mod 60) + x mod 60"
    using zmod_zmult2_eq [of 60 x 60] by simp
  have m: "x mod 3600 div 60 = x div 60 mod 60"
    using div_mod_unique(1) [OF sm] by simp
  have ms: "0 \<le> x div 60 mod 60" "x div 60 mod 60 < 60" "0 \<le> x mod 60" "x mod 60 < 60" by simp_all
  have eq: "time_from_sec_subsec x n
      = \<lparr>t_hour = x div 3600, t_minute = x div 60 mod 60, t_second = x mod 60, t_subsec = n\<rparr>"
    using h ms by (simp add: time_from_sec_subsec_def m)
  show "time_ok (time_from_sec_subsec x n)" unfolding eq using h ms assms(3) by (simp add: time_ok_def)
  have "x div 3600 * 3600 + x mod 3600 = x" by (rule div_mult_mod_eq)
  then have "x div 3600 * 3600 + x div 60 mod 60 * 60 + x mod 60 = x" unfolding sm by (simp only: ac_simps)
  then show "time_total_seconds (time_from_sec_subsec x n) = x" unfolding eq by (simp add: time_total_seconds_def)
  show "epoch_time (EpochSecs x) n = time_from_sec_subsec x n"
    unfolding eq using h ms assms by (simp add: epoch_time_def s_per_day_def Let_def)
qed

lemma epoch_time_eq: "epoch_time e n = time_from_sec_subsec (epoch_get e mod 86400) n" if "subsec_ok n"
proof -
  have r: "0 \<le> epoch_get e mod 86400" "epoch_get e mod 86400 < 86400" by simp_all
  have "epoch_time e n = epoch_time (EpochSecs (epoch_get e mod 86400)) n"
    by (simp add: epoch_time_def s_per_day_def)
  then show ?thesis using time_of_seconds(3) [OF r that] by simp
qed

lemma to_utc_plain:
  assumes "instant_ok i"
  shows "pdt_ok (instant_to_utc_plain i)" and "pdt_assume_utc (instant_to_utc_plain i) = i"
proof -
  define e where "e = epoch_get (i_epoch i)"
  have e: "-62135596800 \<le> e" "e \<le> 253402300799" and s: "subsec_ok (i_subsec i)"
    using assms by (simp_all add: instant_ok_def epoch_ok_iff e_def)
  have days: "-719162 \<le> e div 86400" "e div 86400 \<le> 2932896" using e by linarith+
  have u: "unix_days_ok (UnixDays (e div 86400))" using days by (simp add: unix_days_ok_iff)
  have d: "epoch_date (i_epoch i) = unix_days_date (UnixDays (e div 86400))"
    using days by (simp add: epoch_date_def epoch_as_days_def s_per_day_def e_def)
  have r: "0 \<le> e mod 86400" "e mod 86400 < 86400" by simp_all
  have t: "epoch_time (i_epoch i) (i_subsec i) = time_from_sec_subsec (e mod 86400) (i_subsec i)"
    using epoch_time_eq [OF s] by (simp add: e_def)
  show "pdt_ok (instant_to_utc_plain i)"
    using unix_days_date_ok [OF u] time_of_seconds(1) [OF r s]
    by (simp add: pdt_ok_def instant_to_utc_plain_def epoch_datetime_def d t)
  have "e div 86400 * 86400 + e mod 86400 = e" by simp
  then show "pdt_assume_utc (instant_to_utc_plain i) = i"
    using date_unix_days_date [OF u] time_of_seconds(2) [OF r s]
    by (intro instant.equality) (simp_all add: pdt_assume_utc_def instant_to_utc_plain_def epoch_datetime_def d t
        ls_assume_utc_def pdt_local_seconds_def date_epoch_at_def unix_days_epoch_at_def s_per_day_def
        e_def)
qed

lemma local_nanos_inject:
  assumes "pdt_ok p" and "pdt_ok q" and "local_nanos p = local_nanos q"
  shows "p = q"
proof -
  have t: "time_ok (pdt_time p)" "time_ok (pdt_time q)" and d: "date_ok (pdt_date p)" "date_ok (pdt_date q)"
    using assms(1,2) by (simp_all add: pdt_ok_def)
  have n: "local_nanos r = 86400000000000 * day_number (pdt_date r) + time_total_nanos (pdt_time r)"
    if "time_ok (pdt_time r)" for r using local_nanos_eq [OF that] by simp
  have b: "0 \<le> time_total_nanos x \<and> time_total_nanos x < 86400000000000" if "time_ok x" for x
    using times.num_bounds [OF that] by simp
  have "day_number (pdt_date p) = day_number (pdt_date q)"
    using div_mod_unique(1) [OF n [OF t(1)]] div_mod_unique(1) [OF n [OF t(2)]] b [OF t(1)] b [OF t(2)] assms(3)
    by simp
  moreover have "time_total_nanos (pdt_time p) = time_total_nanos (pdt_time q)"
    using div_mod_unique(2) [OF n [OF t(1)]] div_mod_unique(2) [OF n [OF t(2)]] b [OF t(1)] b [OF t(2)] assms(3)
    by simp
  ultimately have "pdt_date p = pdt_date q" "pdt_time p = pdt_time q"
    using dates.num_inject [OF d] times.num_inject [OF t] by simp_all
  then show ?thesis by (rule plain_datetime.equality) simp
qed

lemma utc_plain_of_assumed: "pdt_ok p \<Longrightarrow> instant_to_utc_plain (pdt_assume_utc p) = p"
  by (intro local_nanos_inject) (simp_all add: to_utc_plain assume_utc_ok)

text \<open>C7. Reading a plain date-time as UTC and writing an instant as a UTC date-time are inverse
  to each other, and so are the nanosecond timestamp of an instant and its constructor, which
  rejects exactly the timestamps out of range.\<close>

theorem instant_utc_roundtrip:
  assumes "instant_ok i" and "pdt_ok p"
  shows "pdt_ok (instant_to_utc_plain i) \<and> pdt_assume_utc (instant_to_utc_plain i) = i
    \<and> instant_ok (pdt_assume_utc p) \<and> instant_to_utc_plain (pdt_assume_utc p) = p
    \<and> instant_from_timestamp_nanos (instant_timestamp_nanos i) = Some i
    \<and> (instant_from_timestamp_nanos n = None \<longleftrightarrow> n < ts_min \<or> ts_max < n)"
  using to_utc_plain [OF assms(1)] assume_utc_ok [OF assms(2)] utc_plain_of_assumed [OF assms(2)]
    from_ts_of [OF assms(1)] by (auto simp: from_timestamp_nanos_eq)


theorem instant_utc_roundtrip_witness:
  "instant_to_utc_plain (pdt_assume_utc pdt_max) = pdt_max
   \<and> instant_from_timestamp_nanos (instant_timestamp_nanos \<lparr>i_epoch = EpochSecs 0, i_subsec = SubSecNanos 5\<rparr>)
     = Some \<lparr>i_epoch = EpochSecs 0, i_subsec = SubSecNanos 5\<rparr>"
proof -
  have "instant_ok \<lparr>i_epoch = EpochSecs 0, i_subsec = SubSecNanos 5\<rparr>" "pdt_ok pdt_max"
    by code_simp+
  from instant_utc_roundtrip [OF this] show ?thesis by blast
qed

interpretation datetimes: counted pdt_ok "\<lambda>p. local_nanos p"
    "\<lambda>n. instant_to_utc_plain (the (instant_from_timestamp_nanos n))" ts_min ts_max
  using instants.num_bounds instants.of_num_num instants.of_num_ok instants.num_of_num
  by unfold_locales (simp_all add: assume_utc_ok to_utc_plain utc_plain_of_assumed)

subsection \<open>Shifting by durations\<close>

lemma subsec_add_eq:
  "subsec_add a b = (DeltaSeconds ((subsec_get a + subsec_get b) div 1000000000),
     SubSecNanos ((subsec_get a + subsec_get b) mod 1000000000))"
  by (simp add: subsec_add_def subsec_from_remainder_def Let_def)

lemma instant_shift_sound:
  assumes "instant_shift i d = Some j"
  shows "instant_ok j \<and> instant_timestamp_nanos j = instant_timestamp_nanos i + td_total_nanos d"
proof -
  let ?s = "subsec_get (i_subsec i) + subsec_get (td_subsec d)"
  have "?s div 1000000000 * 1000000000 + ?s mod 1000000000 = ?s" by simp
  then show ?thesis
    using assms by (auto simp: instant_shift_def subsec_add_eq epoch_shift_def epoch_nt.new_Some_iff
        instant_ok_def instant_timestamp_nanos_def td_total_nanos_def time_units algebra_simps)
qed

text \<open>C11. \<open>Instant::shift\<close> adds the nanoseconds of the delta exactly whenever it returns; it
  returns nothing exactly when the sum is out of range or the whole seconds of the delta, taken
  without the carry of the fractions, already lead out of range.\<close>

theorem instant_shift_spec:
  assumes "instant_ok i" and "td_ok d"
  shows "(case instant_shift i d of
      Some j \<Rightarrow> instant_ok j \<and> instant_timestamp_nanos j = instant_timestamp_nanos i + td_total_nanos d
    | None \<Rightarrow> instant_timestamp_nanos i + td_total_nanos d < ts_min
        \<or> ts_max < instant_timestamp_nanos i + td_total_nanos d
        \<or> \<not> epoch_ok (EpochSecs (epoch_get (i_epoch i) + delta_seconds_get (td_secs d))))"
proof (cases "instant_shift i d")
  case None
  define n where "n = instant_timestamp_nanos i + td_total_nanos d"
  define s where "s = subsec_get (i_subsec i) + subsec_get (td_subsec d)"
  define e where "e = epoch_get (i_epoch i) + delta_seconds_get (td_secs d)"
  have n: "n = (e + s div 1000000000) * 1000000000 + s mod 1000000000"
    by (simp add: n_def s_def e_def instant_timestamp_nanos_def td_total_nanos_def time_units algebra_simps)
  have "e + s div 1000000000 < -62135596800 \<Longrightarrow> n < ts_min"
    "253402300799 < e + s div 1000000000 \<Longrightarrow> ts_max < n"
    unfolding n by (rule ts_outside; simp)+
  moreover have "\<not> epoch_ok (EpochSecs e)
      \<or> \<not> (-62135596800 \<le> e + s div 1000000000 \<and> e + s div 1000000000 \<le> 253402300799)"
    using None by (auto simp: instant_shift_def subsec_add_eq epoch_shift_def epoch_new_def
        epoch_ok_def epoch_bounds s_def e_def split: if_splits)
  ultimately have "n < ts_min \<or> ts_max < n \<or> \<not> epoch_ok (EpochSecs e)"
    by (auto simp: not_le)
  then show ?thesis using None unfolding n_def e_def by simp
qed (use instant_shift_sound in auto)

theorem instant_shift_spec_witness:
  "(case instant_shift (pdt_assume_utc pdt_min) td_max of
      Some j \<Rightarrow> instant_ok j \<and> instant_timestamp_nanos j = instant_timestamp_nanos (pdt_assume_utc pdt_min) + td_total_nanos td_max
    | None \<Rightarrow> instant_timestamp_nanos (pdt_assume_utc pdt_min) + td_total_nanos td_max < ts_min
        \<or> ts_max < instant_timestamp_nanos (pdt_assume_utc pdt_min) + td_total_nanos td_max
        \<or> \<not> epoch_ok (EpochSecs (epoch_get (i_epoch (pdt_assume_utc pdt_min)) + delta_seconds_get (td_secs td_max))))"
proof -
  have "instant_ok (pdt_assume_utc pdt_min)" "td_ok td_max" by code_simp+
  from instant_shift_spec [OF this] show ?thesis .
qed

text \<open>The last case of that failure is real: half a second after the first instant, shifting
  back by half a second fails although the first instant is in range.\<close>

theorem instant_shift_rejects_reachable:
  "let i = \<lparr>i_epoch = EpochSecs epoch_min, i_subsec = SubSecNanos 500000000\<rparr>;
       d = td_from_nanos_unchecked (-500000000)
   in instant_ok i \<and> td_ok d \<and> instant_shift i d = None
     \<and> instant_ok \<lparr>i_epoch = EpochSecs epoch_min, i_subsec = SubSecNanos 0\<rparr>
     \<and> instant_timestamp_nanos \<lparr>i_epoch = EpochSecs epoch_min, i_subsec = SubSecNanos 0\<rparr>
       = instant_timestamp_nanos i + td_total_nanos d"
  by code_simp

interpretation instant_shifts: sound_shift instant_ok instant_timestamp_nanos
    "\<lambda>n. the (instant_from_timestamp_nanos n)" ts_min ts_max
    "\<lambda>i n. td_from_nanos n \<bind> instant_shift i"
  by unfold_locales (auto simp: td_from_nanos_Some dest: instant_shift_sound)

text \<open>The difference of two instants is a valid delta of exactly the nanoseconds between
  them, and shifting the one by it, where the shift returns, gives the other.\<close>

theorem instant_diff_shift:
  assumes "instant_ok a" and "instant_ok b"
  shows "td_ok (instant_diff a b) \<and> td_total_nanos (instant_diff a b) = instant_timestamp_nanos a - instant_timestamp_nanos b
    \<and> (instant_shift b (instant_diff a b) = Some a \<or> instant_shift b (instant_diff a b) = None)"
proof -
  have r: "delta_nanos_min \<le> instant_timestamp_nanos a - instant_timestamp_nanos b"
    "instant_timestamp_nanos a - instant_timestamp_nanos b \<le> delta_nanos_max"
    using ts_range [OF assms(1)] ts_range [OF assms(2)] by (simp_all add: delta_nanos_bounds)
  note d = td_total_from_nanos [OF r, folded instant_diff_def]
  have "c = a" if "instant_shift b (instant_diff a b) = Some c" for c
    using instant_shift_sound [OF that] d(1) instants.num_inject [of c a] assms(1) by simp
  with d show ?thesis by (cases "instant_shift b (instant_diff a b)") auto
qed

theorem instant_diff_shift_witness:
  "td_ok (instant_diff (pdt_assume_utc pdt_max) (pdt_assume_utc pdt_min))"
proof -
  have "instant_ok (pdt_assume_utc pdt_max)" "instant_ok (pdt_assume_utc pdt_min)" by code_simp+
  from instant_diff_shift [OF this] show ?thesis by blast
qed

lemma pdt_shift_sound:
  assumes "pdt_ok p" and "pdt_shift p d = Some q"
  shows "pdt_ok q \<and> local_nanos q = local_nanos p + td_total_nanos d"
  using assms(2) instant_shift_sound to_utc_plain by (auto simp: pdt_shift_def)

subsection \<open>Shifting by offsets\<close>

lemma shift_by_offset_days:
  assumes "time_ok t" and "offset_delta_ok x"
  shows "(time_total_seconds t + offset_delta_get x) div 86400 \<in> {-2, -1, 0, 1, 2}"
proof -
  have "-172800 \<le> time_total_seconds t + offset_delta_get x" "time_total_seconds t + offset_delta_get x < 259200"
    using seconds_range [OF assms(1)] assms(2) by (simp_all add: offset_delta_ok_def bound_defs)
  then have "-2 \<le> (time_total_seconds t + offset_delta_get x) div 86400"
    "(time_total_seconds t + offset_delta_get x) div 86400 \<le> 2" by linarith+
  then show ?thesis by auto
qed

lemma two_shifts:
  assumes "date_ok d"
  shows "date_tomorrow d \<bind> date_tomorrow = date_shift_days d (DeltaDays 2)"
    and "date_yesterday d \<bind> date_yesterday = date_shift_days d (DeltaDays (-2))"
proof -
  have t: "date_tomorrow e = date_shift_days e (DeltaDays 1)" "date_yesterday e = date_shift_days e (DeltaDays (-1))"
    if "date_ok e" for e using neighbours_are_shifts_aux [OF that] by blast+
  have ok: "date_ok e" if "date_shift_days d (DeltaDays k) = Some e" for e k
    using date_days.shift_sound [OF assms that] by blast
  show "date_tomorrow d \<bind> date_tomorrow = date_shift_days d (DeltaDays 2)"
    using date_days.shift_compose [OF assms, of 1 _ 1] ok [of 1] t dates.num_bounds [OF assms]
    by (cases "date_shift_days d (DeltaDays 1)") (simp_all add: t(1) [OF assms] date_days.shift_eq [OF assms] split: if_splits)
  show "date_yesterday d \<bind> date_yesterday = date_shift_days d (DeltaDays (-2))"
    using date_days.shift_compose [OF assms, of "-1" _ "-1"] ok [of "-1"] t dates.num_bounds [OF assms]
    by (cases "date_shift_days d (DeltaDays (-1))") (simp_all add: t(2) [OF assms] date_days.shift_eq [OF assms] split: if_splits)
qed


lemma pdt_shift_by_offset_eq:
  assumes "pdt_ok p" and "offset_delta_ok x"
  shows "pdt_shift_by_offset p x = (let s = time_total_seconds (pdt_time p) + offset_delta_get x
    in map_option (\<lambda>d. \<lparr>pdt_date = d, pdt_time = time_from_sec_subsec (s mod 86400) (t_subsec (pdt_time p))\<rparr>)
      (date_shift_days (pdt_date p) (DeltaDays (s div 86400))))"
proof -
  define s where "s = time_total_seconds (pdt_time p) + offset_delta_get x"
  have d: "date_ok (pdt_date p)" and t: "time_ok (pdt_time p)" using assms(1) by (simp_all add: pdt_ok_def)
  have "0 \<le> s mod 86400" "s mod 86400 < 86400" by simp_all
  then have m: "as_u32 (s mod 86400) = s mod 86400" by (intro as_u32_id) linarith+
  have days: "s div 86400 \<in> {-2, -1, 0, 1, 2}"
    using shift_by_offset_days [OF t assms(2)] by (simp add: s_def)
  define k where "k = s div 86400"
  have "(if k = 0 then Some (pdt_date p)
       else if k = 1 then date_tomorrow (pdt_date p)
       else if k = -1 then date_yesterday (pdt_date p)
       else if k = 2 then date_tomorrow (pdt_date p) \<bind> date_tomorrow
       else if k = -2 then date_yesterday (pdt_date p) \<bind> date_yesterday
       else None) = date_shift_days (pdt_date p) (DeltaDays k)"
    using days neighbours_are_shifts_aux [OF d] two_shifts [OF d] date_days.shift_zero [OF d]
    unfolding k_def [symmetric] by auto
  then show ?thesis
    unfolding pdt_shift_by_offset_def s_def [symmetric] Let_def s_per_day_def k_def m
    by (cases "date_shift_days (pdt_date p) (DeltaDays (s div 86400))") simp_all
qed

lemma shift_by_offset_exact_aux:
  assumes "pdt_ok p" and "offset_delta_ok x"
  shows "case pdt_shift_by_offset p x of
      Some q \<Rightarrow> pdt_ok q \<and> local_nanos q = local_nanos p + offset_delta_get x * 1000000000
    | None \<Rightarrow> local_nanos p + offset_delta_get x * 1000000000 < ts_min
        \<or> ts_max < local_nanos p + offset_delta_get x * 1000000000"
proof -
  define s where "s = time_total_seconds (pdt_time p) + offset_delta_get x"
  define n where "n = subsec_get (t_subsec (pdt_time p))"
  have d: "date_ok (pdt_date p)" and t: "time_ok (pdt_time p)" using assms(1) by (simp_all add: pdt_ok_def)
  then have sub: "subsec_ok (t_subsec (pdt_time p))" by (simp add: time_ok_def)
  have n: "0 \<le> n" "n < 1000000000" using sub by (simp_all add: subsec_ok_iff n_def)
  have r: "0 \<le> s mod 86400" "s mod 86400 < 86400" by simp_all
  note tm = time_of_seconds [OF r sub]
  have nanos: "time_total_nanos u = time_total_seconds u * 1000000000 + subsec_get (t_subsec u)"
    if "time_ok u" for u
    using that by (simp add: time_total_nanos_eq time_total_seconds_def)
  have lp: "local_nanos p + offset_delta_get x * 1000000000
      = (day_number (pdt_date p) + s div 86400) * 86400000000000 + (s mod 86400 * 1000000000 + n)"
  proof -
    have "local_nanos p + offset_delta_get x * 1000000000 = day_number (pdt_date p) * 86400000000000 + s * 1000000000 + n"
      using t by (simp add: local_nanos_eq nanos s_def n_def algebra_simps)
    moreover have "s * 1000000000 = s div 86400 * 86400000000000 + s mod 86400 * 1000000000"
    proof -
      have "q * 86400 + r = s \<Longrightarrow> s * 1000000000 = q * 86400000000000 + r * 1000000000" for q r :: int by auto
      from this [OF div_mult_mod_eq] show ?thesis .
    qed
    ultimately show ?thesis by (simp add: algebra_simps)
  qed
  have b: "0 \<le> s mod 86400 * 1000000000 + n" "s mod 86400 * 1000000000 + n < 86400000000000"
    using r n by linarith+
  note eq = pdt_shift_by_offset_eq [OF assms, unfolded Let_def, folded s_def]
  show ?thesis
  proof (cases "date_shift_days (pdt_date p) (DeltaDays (s div 86400))")
    case None
    then have "day_number (pdt_date p) + s div 86400 < -719162 \<or> 2932896 < day_number (pdt_date p) + s div 86400"
      using date_days.shift_eq [OF d, of "s div 86400"] by (auto simp: bound_defs split: if_splits)
    then have "local_nanos p + offset_delta_get x * 1000000000 < ts_min \<or> ts_max < local_nanos p + offset_delta_get x * 1000000000"
      unfolding lp using b by (elim disjE) simp_all
    then show ?thesis using None by (simp add: eq)
  next
    case (Some e)
    have e: "date_ok e" "day_number e = day_number (pdt_date p) + s div 86400"
      using date_days.shift_sound [OF d Some] by simp_all
    let ?q = "\<lparr>pdt_date = e, pdt_time = time_from_sec_subsec (s mod 86400) (t_subsec (pdt_time p))\<rparr>"
    have "local_nanos ?q = local_nanos p + offset_delta_get x * 1000000000"
      unfolding lp using tm by (simp add: local_nanos_eq nanos e(2) n_def)
    moreover have "pdt_ok ?q" using e(1) tm(1) by (simp add: pdt_ok_def)
    ultimately show ?thesis using Some by (simp add: eq)
  qed
qed

text \<open>\<open>PlainDateTime::shift_by_offset\<close>, which steps over at most two days with
  \<open>tomorrow\<close> and \<open>yesterday\<close>, adds the seconds of the offset difference exactly, and
  fails exactly when the sum is out of range; its unreachable branch is not reached.\<close>

theorem shift_by_offset_exact:
  assumes "pdt_ok p" and "offset_delta_ok x"
  shows "case pdt_shift_by_offset p x of
      Some q \<Rightarrow> pdt_ok q \<and> local_nanos q = local_nanos p + offset_delta_get x * 1000000000
    | None \<Rightarrow> local_nanos p + offset_delta_get x * 1000000000 < ts_min
        \<or> ts_max < local_nanos p + offset_delta_get x * 1000000000"
  by (rule shift_by_offset_exact_aux [OF assms])

theorem shift_by_offset_exact_witness:
  "case pdt_shift_by_offset pdt_max (OffsetDelta (-172798)) of
      Some q \<Rightarrow> pdt_ok q \<and> local_nanos q = local_nanos pdt_max + offset_delta_get (OffsetDelta (-172798)) * 1000000000
    | None \<Rightarrow> local_nanos pdt_max + offset_delta_get (OffsetDelta (-172798)) * 1000000000 < ts_min
        \<or> ts_max < local_nanos pdt_max + offset_delta_get (OffsetDelta (-172798)) * 1000000000"
proof -
  have "pdt_ok pdt_max" "offset_delta_ok (OffsetDelta (-172798))" by code_simp+
  from shift_by_offset_exact [OF this] show ?thesis .
qed


subsection \<open>Offset date-times\<close>

abbreviation offset_nanos :: "offset \<Rightarrow> int" where
  "offset_nanos x \<equiv> offset_get x * 1000000000"

lemma date_at_collapse [simp]: "date_at (pdt_date p) (pdt_time p) = p"
  by (simp add: date_at_def)

lemma odt_new_Some:
  "odt_new d t x = Some y \<longleftrightarrow> y = \<lparr>odt_date = d, odt_time = t, odt_offset = x\<rparr>
     \<and> ls_to_epoch (pdt_local_seconds (date_at d t)) x \<noteq> None"
  by (auto simp: odt_new_def)

lemma to_epoch_in_range:
  assumes "pdt_ok p"
  shows "ls_to_epoch (pdt_local_seconds p) x \<noteq> None \<longleftrightarrow>
    ts_min \<le> local_nanos p - offset_nanos x \<and> local_nanos p - offset_nanos x \<le> ts_max"
proof -
  define e where "e = epoch_get (i_epoch (pdt_assume_utc p)) - offset_get x"
  define n where "n = subsec_get (i_subsec (pdt_assume_utc p))"
  have n: "0 \<le> n" "n < 1000000000"
    using assume_utc_ok [OF assms] by (simp_all add: instant_ok_def subsec_ok_iff n_def)
  have lp: "local_nanos p - offset_nanos x = e * 1000000000 + n"
    by (simp add: instant_timestamp_nanos_def e_def n_def algebra_simps)
  have "ls_to_epoch (pdt_local_seconds p) x \<noteq> None \<longleftrightarrow> -62135596800 \<le> e \<and> e \<le> 253402300799"
    by (simp add: ls_to_epoch_def epoch_shift_by_offset_def epoch_new_def epoch_bounds e_def
        pdt_assume_utc_def ls_assume_utc_def offset_neg_def)
  also have "\<dots> \<longleftrightarrow> ts_min \<le> e * 1000000000 + n \<and> e * 1000000000 + n \<le> ts_max"
    using n by auto
  finally show ?thesis unfolding lp .
qed

lemma assume_offset_eq:
  assumes "pdt_ok p" and "offset_ok x"
  shows "pdt_assume_offset p x = (if ts_min \<le> local_nanos p - offset_nanos x \<and> local_nanos p - offset_nanos x \<le> ts_max
     then Some (pdt_assume_offset_unchecked p x) else None)"
  using to_epoch_in_range [OF assms(1), of x]
  by (cases "ls_to_epoch (pdt_local_seconds p) x")
    (auto simp: pdt_assume_offset_def odt_new_def pdt_assume_offset_unchecked_def)

lemma odt_plain_ok: "odt_ok y \<Longrightarrow> pdt_ok (odt_to_plain y)"
  by (simp add: odt_ok_def pdt_ok_def odt_to_plain_def date_at_def)

lemma odt_instant_defined:
  assumes "odt_ok y"
  shows "\<exists>i. instant_shift_by_offset (pdt_assume_utc (odt_to_plain y)) (offset_neg (odt_offset y)) = Some i
    \<and> odt_to_instant y = i \<and> instant_ok i
    \<and> instant_timestamp_nanos i = local_nanos (odt_to_plain y) - offset_nanos (odt_offset y)"
proof -
  obtain e where e: "ls_to_epoch (pdt_local_seconds (odt_to_plain y)) (odt_offset y) = Some e"
    using assms by (auto simp: odt_ok_def)
  then have "instant_shift_by_offset (pdt_assume_utc (odt_to_plain y)) (offset_neg (odt_offset y))
      = Some \<lparr>i_epoch = e, i_subsec = i_subsec (pdt_assume_utc (odt_to_plain y))\<rparr>"
    by (simp add: instant_shift_by_offset_def ls_to_epoch_def pdt_assume_utc_def ls_assume_utc_def)
  moreover have "epoch_ok e" "epoch_get e = epoch_get (i_epoch (pdt_assume_utc (odt_to_plain y))) - offset_get (odt_offset y)"
    using e by (simp_all add: ls_to_epoch_def epoch_shift_by_offset_def epoch_nt.new_Some_iff offset_neg_def
        pdt_assume_utc_def ls_assume_utc_def)
  ultimately show ?thesis
    using assume_utc_ok [OF odt_plain_ok [OF assms]]
    by (simp add: odt_to_instant_def instant_ok_def instant_timestamp_nanos_def algebra_simps)
qed

lemma assume_offset_ok:
  assumes "pdt_ok p" and "offset_ok x" and "pdt_assume_offset p x = Some y"
  shows "odt_ok y \<and> odt_offset y = x \<and> odt_to_plain y = p"
  using assms by (auto simp: pdt_assume_offset_def odt_new_Some odt_ok_def odt_to_plain_def date_at_def pdt_ok_def)

text \<open>C8. An offset date-time built by \<open>new\<close> or \<open>assume_offset\<close> satisfies the stated
  invariant, so \<open>to_instant\<close> never panics on its unwrapped shift, and its instant is the
  local time minus the offset; \<open>Instant::to_offset\<close> inverts it.\<close>

theorem offset_datetime_instant:
  assumes "pdt_ok p" and "offset_ok x" and "pdt_assume_offset p x = Some y"
  shows "odt_ok y
    \<and> instant_shift_by_offset (pdt_assume_utc (odt_to_plain y)) (offset_neg (odt_offset y)) = Some (odt_to_instant y)
    \<and> instant_ok (odt_to_instant y) \<and> instant_timestamp_nanos (odt_to_instant y) = local_nanos p - offset_nanos x
    \<and> instant_to_offset (odt_to_instant y) x = Some y"
proof -
  have y: "odt_ok y" "odt_offset y = x" "odt_to_plain y = p" using assume_offset_ok [OF assms] by simp_all
  then have y': "y = pdt_assume_offset_unchecked p x"
    by (simp add: pdt_assume_offset_unchecked_def odt_to_plain_def date_at_def)
      (metis offset_datetime.surjective old.unit.exhaust plain_datetime.select_convs)
  obtain i where i: "instant_shift_by_offset (pdt_assume_utc p) (offset_neg x) = Some i"
    "odt_to_instant y = i" "instant_ok i" "instant_timestamp_nanos i = local_nanos p - offset_nanos x"
    using odt_instant_defined [OF y(1)] y by auto
  have "instant_shift_by_offset i x = Some (pdt_assume_utc p)"
    using i(1) assume_utc_ok [OF assms(1)]
    by (auto simp: instant_shift_by_offset_def epoch_shift_by_offset_def offset_neg_def instant_ok_def
        epoch_nt.new_Some_iff)
  then have "instant_to_offset i x = Some y"
    by (simp add: instant_to_offset_def utc_plain_of_assumed [OF assms(1)] y')
  with i y show ?thesis by simp
qed

theorem offset_datetime_instant_witness:
  "\<exists>y. pdt_assume_offset pdt_max (Offset 3600) = Some y \<and> odt_ok y
     \<and> instant_to_offset (odt_to_instant y) (Offset 3600) = Some y"
proof -
  have "pdt_ok pdt_max" "offset_ok (Offset 3600)"
    "pdt_assume_offset pdt_max (Offset 3600) = Some (pdt_assume_offset_unchecked pdt_max (Offset 3600))"
    by code_simp+
  with offset_datetime_instant [OF this] show ?thesis by blast
qed

subsection \<open>Resolving local times\<close>

lemma or_out_of_range_cases [simp]:
  "or_out_of_range x = Inr r \<longleftrightarrow> x = Some r"
  "or_out_of_range x = Inl e \<longleftrightarrow> x = None \<and> e = OutOfRange"
  by (cases x; auto simp: or_out_of_range_def)+

lemma offset_sub_ok: "offset_ok a \<Longrightarrow> offset_ok b \<Longrightarrow> offset_delta_ok (offset_sub a b)"
  "offset_ok a \<Longrightarrow> offset_ok b \<Longrightarrow> offset_delta_ok (offset_delta_neg (offset_sub a b))"
  by (simp_all add: offset_ok_def offset_delta_ok_def offset_sub_def offset_delta_neg_def bound_defs)

text \<open>The offset whose reading of the clock the policy uses, and the offset of the result.\<close>

fun gap_choice :: "resolve_policy \<Rightarrow> offset \<Rightarrow> offset \<Rightarrow> offset \<times> offset" where
  "gap_choice (Disambiguate Earlier) before after = (after, before)"
| "gap_choice policy before after = (before, after)"

lemma resolve_gap_aux:
  assumes "pdt_ok p" and "offset_ok before" and "offset_ok after"
    and "lm_resolve (Gap tr before after) p policy = Inr y"
  shows "policy \<noteq> Disambiguate Reject \<and> odt_ok y \<and> odt_offset y = snd (gap_choice policy before after)
    \<and> instant_timestamp_nanos (odt_to_instant y) = local_nanos p - offset_nanos (fst (gap_choice policy before after))"
proof -
  define x where "x = (if policy = Disambiguate Earlier then offset_delta_neg (offset_sub after before) else offset_sub after before)"
  have ok: "offset_ok (snd (gap_choice policy before after))" "offset_delta_ok x"
    using assms(2,3) offset_sub_ok by (simp_all add: x_def, cases "(policy, before, after)" rule: gap_choice.cases) auto
  have pol: "policy \<noteq> Disambiguate Reject" using assms(4) by auto
  obtain q where q: "pdt_shift_by_offset p x = Some q"
    "pdt_assume_offset q (snd (gap_choice policy before after)) = Some y"
    using assms(4) unfolding x_def
    by (cases "(policy, before, after)" rule: gap_choice.cases) (auto simp: Let_def)
  have qn: "pdt_ok q" "local_nanos q = local_nanos p + offset_delta_get x * 1000000000"
    using shift_by_offset_exact_aux [OF assms(1) ok(2)] q(1) by simp_all
  note y = assume_offset_ok [OF qn(1) ok(1) q(2)]
  moreover have "instant_timestamp_nanos (odt_to_instant y) = local_nanos q - offset_nanos (snd (gap_choice policy before after))"
    using odt_instant_defined y by auto
  moreover have "offset_delta_get x = offset_get (snd (gap_choice policy before after)) - offset_get (fst (gap_choice policy before after))"
    unfolding x_def
    by (cases "(policy, before, after)" rule: gap_choice.cases) (simp_all add: offset_sub_def offset_delta_neg_def)
  ultimately show ?thesis using qn pol by (simp add: algebra_simps)
qed

text \<open>C9. Resolving a local time in a gap yields the instant at which a clock that ignored the
  transition would show it: with the offset before the gap, except for \<open>Earlier\<close>, which
  uses the offset after it. The result carries the offset of the other side and is valid;
  \<open>Reject\<close> never resolves.\<close>

theorem resolve_gap_spec:
  assumes "pdt_ok p" and "offset_ok before" and "offset_ok after"
    and "lm_resolve (Gap tr before after) p policy = Inr y"
  shows "policy \<noteq> Disambiguate Reject \<and> odt_ok y \<and> odt_offset y = snd (gap_choice policy before after)
    \<and> instant_timestamp_nanos (odt_to_instant y) = local_nanos p - offset_nanos (fst (gap_choice policy before after))"
  using assms by (rule resolve_gap_aux)

theorem resolve_gap_spec_witness:
  "\<exists>y. lm_resolve (Gap (LocalSeconds (EpochSecs 0)) (Offset 3600) (Offset 7200))
        (instant_to_utc_plain \<lparr>i_epoch = EpochSecs 1800, i_subsec = SubSecNanos 0\<rparr>) (Disambiguate Earlier) = Inr y
     \<and> instant_timestamp_nanos (odt_to_instant y) = (1800 - 7200) * 1000000000"
proof -
  let ?p = "instant_to_utc_plain \<lparr>i_epoch = EpochSecs 1800, i_subsec = SubSecNanos 0\<rparr>"
  let ?y = "pdt_assume_offset_unchecked (instant_to_utc_plain \<lparr>i_epoch = EpochSecs (-1800), i_subsec = SubSecNanos 0\<rparr>) (Offset 3600)"
  have "pdt_ok ?p" "offset_ok (Offset 3600)" "offset_ok (Offset 7200)"
    "lm_resolve (Gap (LocalSeconds (EpochSecs 0)) (Offset 3600) (Offset 7200)) ?p (Disambiguate Earlier) = Inr ?y"
    "local_nanos ?p = 1800000000000"
    by code_simp+
  with resolve_gap_spec [OF this(1-4)] show ?thesis by auto
qed

text \<open>The offset taken for a local time that occurs twice.\<close>

fun fold_choice :: "resolve_policy \<Rightarrow> offset \<Rightarrow> offset \<Rightarrow> offset" where
  "fold_choice (Disambiguate Later) before after = after"
| "fold_choice (PreserveOffset x) before after = (if x = after then after else before)"
| "fold_choice _ before after = before"

text \<open>C10. A local time that is unique or repeated is resolved to itself: the result has its
  fields, the mapping's offset, and the instant between them, where a repeated time takes the
  offset before the transition for \<open>Earlier\<close> and \<open>Compatible\<close>, the one after it for
  \<open>Later\<close>, and for a preserved offset that offset if the mapping has it. A repeated time with
  \<open>Reject\<close> is always refused, and otherwise the only error is that this instant is out of
  range.\<close>

theorem resolve_keeps_local_time:
  assumes "pdt_ok p" and "offset_ok before" and "offset_ok after"
    and "mapping = Fold tr before after \<or> mapping = Unique before \<and> after = before"
    and "n = local_nanos p - offset_nanos (fold_choice policy before after)"
  shows "if mapping = Fold tr before after \<and> policy = Disambiguate Reject
    then lm_resolve mapping p policy = Inl FoldError
    else if ts_min \<le> n \<and> n \<le> ts_max
    then \<exists>y. lm_resolve mapping p policy = Inr y \<and> odt_ok y \<and> odt_to_plain y = p
      \<and> odt_offset y = fold_choice policy before after \<and> instant_timestamp_nanos (odt_to_instant y) = n
    else lm_resolve mapping p policy = Inl OutOfRange"
proof (cases "mapping = Fold tr before after \<and> policy = Disambiguate Reject")
  case False
  let ?x = "fold_choice policy before after"
  have x: "offset_ok ?x"
    using assms(2,3) by (cases "(policy, before, after)" rule: fold_choice.cases) auto
  have eq: "lm_resolve mapping p policy = or_out_of_range (pdt_assume_offset p ?x)"
    using assms(4) False by (cases "(policy, before, after)" rule: fold_choice.cases) auto
  let ?y = "pdt_assume_offset_unchecked p ?x"
  show ?thesis
  proof (cases "ts_min \<le> n \<and> n \<le> ts_max")
    case True
    then have y: "pdt_assume_offset p ?x = Some ?y"
      using assume_offset_eq [OF assms(1) x] assms(5) by simp
    have "odt_ok ?y \<and> odt_to_plain ?y = p \<and> odt_offset ?y = ?x \<and> instant_timestamp_nanos (odt_to_instant ?y) = n"
      using assume_offset_ok [OF assms(1) x y] odt_instant_defined assms(5) by auto
    with True False y show ?thesis by (simp add: eq or_out_of_range_def)
  next
    case range: False
    then have "pdt_assume_offset p ?x = None"
      using assume_offset_eq [OF assms(1) x] assms(5) by auto
    with range False show ?thesis by (auto simp: eq or_out_of_range_def)
  qed
qed simp

theorem resolve_keeps_local_time_witness:
  "lm_resolve (Fold (LocalSeconds (EpochSecs 0)) (Offset 7200) (Offset 3600)) pdt_min (Disambiguate Reject) = Inl FoldError
    \<and> (\<exists>y. lm_resolve (Fold (LocalSeconds (EpochSecs 0)) (Offset 7200) (Offset 3600))
          (instant_to_utc_plain \<lparr>i_epoch = EpochSecs 1800, i_subsec = SubSecNanos 5\<rparr>) (PreserveOffset (Offset 3600)) = Inr y
        \<and> odt_offset y = Offset 3600 \<and> instant_timestamp_nanos (odt_to_instant y) = -1799999999995)"
proof -
  let ?f = "Fold (LocalSeconds (EpochSecs 0)) (Offset 7200) (Offset 3600)"
  let ?p = "instant_to_utc_plain \<lparr>i_epoch = EpochSecs 1800, i_subsec = SubSecNanos 5\<rparr>"
  have ok: "pdt_ok pdt_min" "pdt_ok ?p" "offset_ok (Offset 7200)" "offset_ok (Offset 3600)" by code_simp+
  have n: "-1799999999995 = local_nanos ?p - offset_nanos (fold_choice (PreserveOffset (Offset 3600)) (Offset 7200) (Offset 3600))"
    "ts_min \<le> -1799999999995 \<and> -1799999999995 \<le> ts_max" by code_simp+
  from resolve_keeps_local_time [OF ok(1,3,4), of ?f _ _ "Disambiguate Reject"]
    resolve_keeps_local_time [OF ok(2-4) _ n(1), of ?f] n(2)
  show ?thesis by auto
qed

end
