(* ===== verification/Scan.thy ===== *)
theory Scan
  imports Scalar "HOL-Library.Char_ord"
begin

section \<open>Scanning bytes (\<open>src/src/common/parse.rs\<close>)\<close>

text \<open>
  \<open>Scan\<close> is a cursor over a byte slice. A method that takes \<open>&mut self\<close> is a
  function from the remaining bytes to its optional result and the bytes that remain; input
  consumed before a failure stays consumed, as in the source. Bytes are \<open>char\<close>s.
  \<open>scan_bind\<close> is the \<open>?\<close> operator, \<open>scan_match\<close> a \<open>match\<close> on the
  optional result that goes on after a failure. Slicing beyond the end panics in the source;
  \<open>scan_skip\<close> and \<open>scan_take_unchecked\<close> are only called where enough bytes
  remain, which their callers have checked.
\<close>

type_synonym bytes = "char list"
type_synonym 'a scanner = "bytes \<Rightarrow> 'a option \<times> bytes"

definition byte :: "char \<Rightarrow> int" where
  "byte c = of_char c"

definition is_ascii_digit :: "char \<Rightarrow> bool" where
  "is_ascii_digit c \<longleftrightarrow> 48 \<le> byte c \<and> byte c \<le> 57"

text \<open>\<open>c - b'0'\<close> of an ASCII digit.\<close>

definition digit_val :: "char \<Rightarrow> int" where
  "digit_val c = byte c - 48"

definition scan_return :: "'a \<Rightarrow> 'a scanner" where
  "scan_return x s = (Some x, s)"

definition scan_fail :: "'a scanner" where
  "scan_fail s = (None, s)"

definition scan_match :: "'a scanner \<Rightarrow> ('a option \<Rightarrow> 'b scanner) \<Rightarrow> 'b scanner" where
  "scan_match m f s = (case m s of (r, s') \<Rightarrow> f r s')"

definition scan_bind :: "'a scanner \<Rightarrow> ('a \<Rightarrow> 'b scanner) \<Rightarrow> 'b scanner" where
  "scan_bind m f = scan_match m (\<lambda>r. case r of None \<Rightarrow> scan_fail | Some x \<Rightarrow> f x)"

text \<open>A pure optional value, \<open>?\<close>-ed inside a scanner.\<close>

definition scan_lift :: "'a option \<Rightarrow> 'a scanner" where
  "scan_lift x s = (x, s)"

subsection \<open>The methods of \<open>Scan\<close>\<close>

definition scan_peek :: "bytes \<Rightarrow> char option" where
  "scan_peek s = (case s of [] \<Rightarrow> None | c # _ \<Rightarrow> Some c)"

definition scan_get :: "bytes \<Rightarrow> nat \<Rightarrow> char option" where
  "scan_get s n = (if n < length s then Some (s ! n) else None)"

definition scan_skip :: "nat \<Rightarrow> bytes \<Rightarrow> bytes" where
  "scan_skip n s = drop n s"

definition scan_next :: "char scanner" where
  "scan_next s = (case s of [] \<Rightarrow> (None, s) | c # r \<Rightarrow> (Some c, r))"

definition scan_drain :: "bytes \<Rightarrow> bytes \<times> bytes" where
  "scan_drain s = (s, [])"

definition scan_take_unchecked :: "nat \<Rightarrow> bytes \<Rightarrow> bytes \<times> bytes" where
  "scan_take_unchecked n s = (take n s, drop n s)"

definition scan_take :: "nat \<Rightarrow> bytes scanner" where
  "scan_take n s = (if length s \<ge> n then (Some (take n s), drop n s) else (None, s))"

definition scan_advance_on :: "char \<Rightarrow> bool scanner" where
  "scan_advance_on x s =
     (case scan_peek s of
        None \<Rightarrow> (None, s)
      | Some b \<Rightarrow> if b = x then (Some True, drop 1 s) else (Some False, s))"

definition scan_expect :: "char \<Rightarrow> unit scanner" where
  "scan_expect c s =
     (case scan_advance_on c s of (Some True, s') \<Rightarrow> (Some (), s') | (_, s') \<Rightarrow> (None, s'))"

definition scan_transform :: "(char \<Rightarrow> 'a option) \<Rightarrow> 'a scanner" where
  "scan_transform f s =
     (case scan_peek s \<bind> f of Some r \<Rightarrow> (Some r, drop 1 s) | None \<Rightarrow> (None, s))"

definition scan_digit :: "int scanner" where
  "scan_digit = scan_transform (\<lambda>c. if is_ascii_digit c then Some (digit_val c) else None)"

definition scan_digit_ranged :: "char \<Rightarrow> char \<Rightarrow> int scanner" where
  "scan_digit_ranged lo hi =
     scan_transform (\<lambda>c. if byte lo \<le> byte c \<and> byte c \<le> byte hi then Some (digit_val c) else None)"

definition scan_digits00_59 :: "int scanner" where
  "scan_digits00_59 s =
     (case s of
        a # b # r \<Rightarrow>
          if 48 \<le> byte a \<and> byte a \<le> 53 \<and> is_ascii_digit b
          then (Some (digit_val a * 10 + digit_val b), r) else (None, s)
      | _ \<Rightarrow> (None, s))"

definition scan_digits00_60_leap :: "int scanner" where
  "scan_digits00_60_leap s =
     (case s of
        a # b # r \<Rightarrow>
          if 48 \<le> byte a \<and> byte a \<le> 53 \<and> is_ascii_digit b
          then (Some (digit_val a * 10 + digit_val b), r)
          else if a = CHR ''6'' \<and> b = CHR ''0'' then (Some 59, r)
          else (None, s)
      | _ \<Rightarrow> (None, s))"

definition scan_digits00_23 :: "int scanner" where
  "scan_digits00_23 s =
     (case s of
        a # b # r \<Rightarrow>
          if 48 \<le> byte a \<and> byte a \<le> 50 \<and> is_ascii_digit b
          then (let n = digit_val a * 10 + digit_val b in (if n < 24 then Some n else None), r)
          else (None, s)
      | _ \<Rightarrow> (None, s))"

text \<open>The loop of \<open>up_to_3_digits\<close>, which stops at the first non-digit.\<close>

fun scan_more_digits :: "nat \<Rightarrow> int \<Rightarrow> bytes \<Rightarrow> int \<times> bytes" where
  "scan_more_digits 0 tally s = (tally, s)"
| "scan_more_digits (Suc n) tally s =
     (case scan_digit s of
        (Some d, s') \<Rightarrow> scan_more_digits n (tally * 10 + d) s'
      | (None, s') \<Rightarrow> (tally, s'))"

definition scan_up_to_3_digits :: "int scanner" where
  "scan_up_to_3_digits = scan_bind scan_digit (\<lambda>tally s.
     case scan_more_digits 2 tally s of (t, s') \<Rightarrow> (Some t, s'))"

definition scan_up_to_2_digits :: "int scanner" where
  "scan_up_to_2_digits = scan_bind scan_digit (\<lambda>tally.
     scan_match scan_digit (\<lambda>d. case d of
         Some d \<Rightarrow> scan_return (tally * 10 + d)
       | None \<Rightarrow> scan_return tally))"

text \<open>The loop of \<open>subsec\<close> over at most eight more bytes; \<open>p\<close> counts the
  powers of ten that are left.\<close>

fun scan_subsec_digits :: "nat \<Rightarrow> int \<Rightarrow> bytes \<Rightarrow> int \<times> bytes" where
  "scan_subsec_digits 0 tally s = (tally, s)"
| "scan_subsec_digits (Suc p) tally s =
     (case s of
        [] \<Rightarrow> (tally, [])
      | c # r \<Rightarrow>
          if is_ascii_digit c then scan_subsec_digits p (tally + digit_val c * 10 ^ p) r
          else (tally, s))"

definition scan_subsec :: "subsec_nanos scanner" where
  "scan_subsec s =
     (if scan_peek s = Some (CHR ''.'') \<or> scan_peek s = Some (CHR '','')
      then scan_bind scan_digit (\<lambda>d s'.
             case scan_subsec_digits 8 (d * 100000000) s' of (tally, s'') \<Rightarrow> (Some (SubSecNanos tally), s''))
           (drop 1 s)
      else (Some (SubSecNanos subsec_min), s))"

text \<open>\<open>position\<close> of the first byte that satisfies the predicate.\<close>

fun position :: "('a \<Rightarrow> bool) \<Rightarrow> 'a list \<Rightarrow> nat option" where
  "position f [] = None"
| "position f (c # s) = (if f c then Some 0 else map_option Suc (position f s))"

definition scan_take_until :: "(char \<Rightarrow> bool) \<Rightarrow> bytes scanner" where
  "scan_take_until f s =
     (case position f s of None \<Rightarrow> (None, s) | Some i \<Rightarrow> (Some (take i s), drop i s))"

definition scan_take_until_inclusive :: "(char \<Rightarrow> bool) \<Rightarrow> bytes scanner" where
  "scan_take_until_inclusive f s =
     (case position f s of None \<Rightarrow> (None, s) | Some i \<Rightarrow> (Some (take (i + 1) s), drop (i + 1) s))"

text \<open>\<open>is_ascii_whitespace\<close> is space, tab, line feed, form feed and carriage return.\<close>

definition is_whitespace :: "char \<Rightarrow> bool" where
  "is_whitespace c \<longleftrightarrow> byte c \<in> {32, 9, 10, 12, 13} \<or> byte c = 11"

definition scan_ascii_whitespace :: "bytes \<Rightarrow> bool \<times> bytes" where
  "scan_ascii_whitespace s =
     (case position (\<lambda>c. \<not> is_whitespace c) s of
        Some 0 \<Rightarrow> (False, s)
      | Some (Suc i) \<Rightarrow> (True, drop (Suc i) s)
      | None \<Rightarrow> if s = [] then (False, s) else (True, []))"

definition scan_is_done :: "bytes \<Rightarrow> bool" where
  "scan_is_done s \<longleftrightarrow> scan_peek s = None"

definition scan_parse_all :: "'a scanner \<Rightarrow> bytes \<Rightarrow> 'a option" where
  "scan_parse_all f s = (case f s of (r, s') \<Rightarrow> if scan_is_done s' then r else None)"

text \<open>\<open>extract_digit\<close> indexes the slice, which its callers keep within bounds.\<close>

definition extract_digit :: "bytes \<Rightarrow> nat \<Rightarrow> int option" where
  "extract_digit s index =
     (let c = s ! index in if is_ascii_digit c then Some (digit_val c) else None)"

definition extract_2_digits :: "bytes \<Rightarrow> nat \<Rightarrow> int option" where
  "extract_2_digits s index =
     do { a \<leftarrow> extract_digit s index; b \<leftarrow> extract_digit s (index + 1); Some (a * 10 + b) }"

text \<open>\<open>to_ascii_lowercase\<close>, \<open>to_ascii_uppercase\<close> and \<open>eq_ignore_ascii_case\<close> of the standard
  library.\<close>

definition ascii_lowercase :: "char \<Rightarrow> char" where
  "ascii_lowercase c = (if 65 \<le> byte c \<and> byte c \<le> 90 then char_of (byte c + 32) else c)"

definition ascii_uppercase :: "char \<Rightarrow> char" where
  "ascii_uppercase c = (if 97 \<le> byte c \<and> byte c \<le> 122 then char_of (byte c - 32) else c)"

definition eq_ignore_case :: "char \<Rightarrow> char \<Rightarrow> bool" where
  "eq_ignore_case a b \<longleftrightarrow> ascii_lowercase a = ascii_lowercase b"

subsection \<open>Digits\<close>

definition digit_char :: "int \<Rightarrow> char" where
  "digit_char d = char_of (48 + d)"

lemma byte_range [simp]: "0 \<le> byte c" "byte c < 256"
  by (simp_all add: byte_def of_char_def horner_sum_simps)

lemma byte_digit_char [simp]: "0 \<le> d \<Longrightarrow> d \<le> 9 \<Longrightarrow> byte (digit_char d) = 48 + d"
  by (simp add: byte_def digit_char_def of_char_of)

lemma digit_char_digit [simp]:
  "0 \<le> d \<Longrightarrow> d \<le> 9 \<Longrightarrow> is_ascii_digit (digit_char d)"
  "0 \<le> d \<Longrightarrow> d \<le> 9 \<Longrightarrow> digit_val (digit_char d) = d"
  by (simp_all add: is_ascii_digit_def digit_val_def)

lemma byte_inject: "byte a = byte b \<longleftrightarrow> a = b"
  by (simp add: byte_def of_char_eq_iff)

end
