(* ===== verification/Posix.thy ===== *)
theory Posix
  imports Scan Moments
begin

section \<open>POSIX TZ strings (\<open>src/src/tz/posix.rs\<close>)\<close>

text \<open>
  A \<open>TzStr\<close> is a standard offset with an optional pair of yearly rules between which
  daylight saving time holds. Here are the rules, the queries by instant and by local time, the
  search for the next and the previous transition, and the parser. What they satisfy is in
  \<open>Posix_Facts\<close>.
\<close>

subsection \<open>Abbreviations\<close>

text \<open>Eight bytes, of which the first \<open>tz_len\<close> are the name.\<close>

record tz_abbrev =
  tz_data :: bytes
  tz_len :: nat

definition tz_abbrev_empty :: tz_abbrev where
  "tz_abbrev_empty = \<lparr>tz_data = replicate 8 (CHR 0x00), tz_len = 0\<rparr>"

definition is_ascii :: "bytes \<Rightarrow> bool" where
  "is_ascii b \<longleftrightarrow> list_all (\<lambda>c. byte c < 128) b"

definition tz_abbrev_from_bytes :: "bytes \<Rightarrow> tz_abbrev option" where
  "tz_abbrev_from_bytes b =
     (if length b > 8 \<or> \<not> is_ascii b then None
      else Some \<lparr>tz_data = b @ replicate (8 - length b) (CHR 0x00), tz_len = length b\<rparr>)"

definition tz_abbrev_as_bytes :: "tz_abbrev \<Rightarrow> bytes" where
  "tz_abbrev_as_bytes a = take (tz_len a) (tz_data a)"

subsection \<open>Rules\<close>

type_synonym transition_time = int

definition default_dst :: offset_delta where "default_dst = OffsetDelta 3600"
definition default_rule_time :: transition_time where "default_rule_time = 2 * 3600"

datatype rule =
    LastWeekday weekday month
  | NthWeekday int weekday month
  | DayOfYear int
  | JulianDayOfYear int

record dst =
  dst_offset :: offset
  dst_start :: "rule \<times> transition_time"
  dst_end :: "rule \<times> transition_time"
  dst_abbrev :: tz_abbrev

record tz_str =
  tz_std :: offset
  tz_dst :: "dst option"
  tz_std_abbrev :: tz_abbrev

record tz_meta_result =
  dst_saving :: int
  meta_abbrev :: tz_abbrev

text \<open>
  The date a rule names in a year. The source unwraps \<open>nth_weekday_in_month\<close>;
  \<open>posix_rule_date\<close> in \<open>Posix_Facts\<close> shows that it is never \<open>None\<close> for the
  rules the parser builds.
\<close>

fun rule_date :: "rule \<Rightarrow> year \<Rightarrow> date" where
  "rule_date (DayOfYear d) y =
     unix_days_date (unix_days_add_unchecked (year_unix_days_at_jan1 y)
       (min d (365 + (if year_is_leap y then 1 else 0)) - 1))"
| "rule_date (JulianDayOfYear d) y =
     unix_days_date (unix_days_add_unchecked (year_unix_days_at_jan1 y)
       ((d - 1) + (if year_is_leap y \<and> d > 59 then 1 else 0)))"
| "rule_date (LastWeekday w m) y = the (date_nth_weekday_in_month y m (-1) w)"
| "rule_date (NthWeekday n w m) y = the (date_nth_weekday_in_month y m n w)"

definition rule_for_year :: "rule \<Rightarrow> year \<Rightarrow> transition_time \<Rightarrow> local_seconds" where
  "rule_for_year r y transition_time =
     ls_saturating_add_i32 (pdt_local_seconds (date_at (rule_date r y) time_min)) transition_time"

subsection \<open>Queries\<close>

instantiation local_seconds :: linorder
begin
definition less_eq_local_seconds :: "local_seconds \<Rightarrow> local_seconds \<Rightarrow> bool" where
  "less_eq_local_seconds a b \<longleftrightarrow> ls_epoch a \<le> ls_epoch b"
definition less_local_seconds :: "local_seconds \<Rightarrow> local_seconds \<Rightarrow> bool" where
  "less_local_seconds a b \<longleftrightarrow> ls_epoch a < ls_epoch b"
instance
  by intro_classes (auto simp: less_eq_local_seconds_def less_local_seconds_def local_seconds.expand)
end

text \<open>The two transition instants of a year, each with the offset that becomes active.\<close>

definition tz_utc_transitions :: "tz_str \<Rightarrow> year \<Rightarrow> ((epoch_secs \<times> offset) \<times> (epoch_secs \<times> offset)) option" where
  "tz_utc_transitions tz y =
     do { d \<leftarrow> tz_dst tz;
          let (start_rule, start_time) = dst_start d;
              (end_rule, end_time) = dst_end d;
              start = ls_to_epoch_saturating (rule_for_year start_rule y start_time) (tz_std tz);
              end' = ls_to_epoch_saturating (rule_for_year end_rule y end_time) (dst_offset d)
          in Some ((start, dst_offset d), (end', tz_std tz)) }"

definition tz_local_year :: "tz_str \<Rightarrow> epoch_secs \<Rightarrow> year" where
  "tz_local_year tz epoch = d_year (epoch_date (epoch_saturating_shift_by_offset epoch (tz_std tz)))"

definition tz_is_dst_at :: "tz_str \<Rightarrow> epoch_secs \<Rightarrow> bool" where
  "tz_is_dst_at tz epoch =
     (case tz_utc_transitions tz (tz_local_year tz epoch) of
        None \<Rightarrow> False
      | Some ((start, _), (end', _)) \<Rightarrow>
          if start < end' then start \<le> epoch \<and> epoch < end'
          else \<not> (end' \<le> epoch \<and> epoch < start))"

definition tz_offset_for_instant :: "tz_str \<Rightarrow> epoch_secs \<Rightarrow> offset" where
  "tz_offset_for_instant tz epoch =
     (if tz_is_dst_at tz epoch then dst_offset (the (tz_dst tz)) else tz_std tz)"

definition tz_meta_for_instant :: "tz_str \<Rightarrow> epoch_secs \<Rightarrow> tz_meta_result" where
  "tz_meta_for_instant tz epoch =
     (case tz_dst tz of
        Some d \<Rightarrow>
          if tz_is_dst_at tz epoch
          then \<lparr>dst_saving = offset_get (dst_offset d) - offset_get (tz_std tz), meta_abbrev = dst_abbrev d\<rparr>
          else \<lparr>dst_saving = 0, meta_abbrev = tz_std_abbrev tz\<rparr>
      | None \<Rightarrow> \<lparr>dst_saving = 0, meta_abbrev = tz_std_abbrev tz\<rparr>)"

text \<open>The cascade of comparisons of \<open>mapping_for_local\<close> on ordered transitions.\<close>

definition transitions_mapping ::
    "local_seconds \<Rightarrow> local_seconds \<Rightarrow> offset \<Rightarrow> offset \<Rightarrow> int \<Rightarrow> local_seconds \<Rightarrow> local_mapping" where
  "transitions_mapping t1 t2 off1 off2 shift t =
     (if shift \<ge> 0 then
        (if t < t1 then Unique off1
         else if t < ls_saturating_add_i32 t1 shift then Gap (ls_saturating_add_i32 t1 shift) off1 off2
         else if t < ls_saturating_add_i32 t2 (- shift) then Unique off2
         else if t < t2 then Fold t2 off2 off1
         else Unique off1)
      else if t < ls_saturating_add_i32 t1 shift then Unique off1
      else if t < t1 then Fold t1 off1 off2
      else if t < t2 then Unique off2
      else if t < ls_saturating_add_i32 t2 (- shift)
      then Gap (ls_saturating_add_i32 t2 (- shift)) off2 off1
      else Unique off1)"

definition tz_mapping_for_local :: "tz_str \<Rightarrow> local_seconds \<Rightarrow> local_mapping" where
  "tz_mapping_for_local tz t =
     (case tz_dst tz of
        None \<Rightarrow> Unique (tz_std tz)
      | Some d \<Rightarrow>
          (let (start_rule, start_time) = dst_start d;
               (end_rule, end_time) = dst_end d;
               y = d_year (ls_date t);
               start = rule_for_year start_rule y start_time;
               end' = rule_for_year end_rule y end_time
           in if start < end'
              then transitions_mapping start end' (tz_std tz) (dst_offset d)
                     (offset_delta_get (offset_sub (dst_offset d) (tz_std tz))) t
              else transitions_mapping end' start (dst_offset d) (tz_std tz)
                     (offset_delta_get (offset_sub (tz_std tz) (dst_offset d))) t))"

definition tz_next_transition :: "tz_str \<Rightarrow> epoch_secs \<Rightarrow> (epoch_secs \<times> offset) option" where
  "tz_next_transition tz epoch =
     (let y = tz_local_year tz epoch
      in do { ((se, so), (ee, eo)) \<leftarrow> tz_utc_transitions tz y;
              let result = (if se > epoch \<and> ee > epoch then (if se \<le> ee then Some (se, so) else Some (ee, eo))
                            else if se > epoch then Some (se, so)
                            else if ee > epoch then Some (ee, eo)
                            else None)
              in case result of
                   Some r \<Rightarrow> Some r
                 | None \<Rightarrow>
                     do { next_year \<leftarrow> year_new (year_get y + 1);
                          ((se, so), (ee, eo)) \<leftarrow> tz_utc_transitions tz next_year;
                          Some (if se \<le> ee then (se, so) else (ee, eo)) } })"

definition tz_prev_transition :: "tz_str \<Rightarrow> epoch_secs \<Rightarrow> (epoch_secs \<times> offset) option" where
  "tz_prev_transition tz epoch =
     (let y = tz_local_year tz epoch
      in do { ((se, so), (ee, eo)) \<leftarrow> tz_utc_transitions tz y;
              let result = (if se < epoch \<and> ee < epoch then (if se \<ge> ee then Some (se, so) else Some (ee, eo))
                            else if se < epoch then Some (se, so)
                            else if ee < epoch then Some (ee, eo)
                            else None)
              in case result of
                   Some r \<Rightarrow> Some r
                 | None \<Rightarrow>
                     do { prev_year \<leftarrow> year_new (year_get y - 1);
                          ((se, so), (ee, eo)) \<leftarrow> tz_utc_transitions tz prev_year;
                          Some (if se \<ge> ee then (se, so) else (ee, eo)) } })"

subsection \<open>The parser\<close>

definition parse_tzname :: "tz_abbrev scanner" where
  "parse_tzname s =
     scan_bind
       (if scan_peek s = Some (CHR ''<'')
        then scan_bind (scan_take_until_inclusive (\<lambda>c. c = CHR ''>''))
               (\<lambda>name. scan_return (drop 1 (take (length name - 1) name)))
        else scan_take_until (\<lambda>c. c \<in> {CHR ''+'', CHR ''-'', CHR '',''} \<or> is_ascii_digit c))
       (\<lambda>tzname. if tzname = [] \<or> \<not> is_ascii tzname then scan_fail
                  else scan_lift (tz_abbrev_from_bytes tzname)) s"

definition parse_hms :: "int \<Rightarrow> int scanner" where
  "parse_hms max_secs =
     scan_match (scan_transform (\<lambda>c. if c = CHR ''+'' then Some 1 else if c = CHR ''-'' then Some (-1) else None))
       (\<lambda>r. let sign = (case r of Some x \<Rightarrow> x | None \<Rightarrow> 1) in
        scan_bind (if max_secs > 99 * 3600 then scan_up_to_3_digits else scan_up_to_2_digits) (\<lambda>hrs.
        let tally = hrs * 3600 in
        scan_bind
          (scan_match (scan_advance_on (CHR '':'')) (\<lambda>r.
             if r = Some True then
               scan_bind scan_digits00_59 (\<lambda>m.
               scan_match (scan_advance_on (CHR '':'')) (\<lambda>r.
                 if r = Some True
                 then scan_bind scan_digits00_59 (\<lambda>s. scan_return (tally + m * 60 + s))
                 else scan_return (tally + m * 60)))
             else scan_return tally))
          (\<lambda>tally. if tally \<le> max_secs then scan_return (tally * sign) else scan_fail)))"

definition parse_offset :: "offset scanner" where
  "parse_offset = scan_bind (parse_hms offset_max) (\<lambda>s. scan_return (Offset (- s)))"

definition parse_weekday_rule :: "rule scanner" where
  "parse_weekday_rule =
     scan_bind scan_up_to_2_digits (\<lambda>m.
     scan_bind (scan_lift (month_new m)) (\<lambda>m.
     scan_bind (scan_expect (CHR ''.'')) (\<lambda>_.
     scan_bind (scan_digit_ranged (CHR ''1'') (CHR ''5'')) (\<lambda>w.
     scan_bind (scan_expect (CHR ''.'')) (\<lambda>_.
     scan_bind (scan_digit_ranged (CHR ''0'') (CHR ''6'')) (\<lambda>d.
       let day_of_week = weekday_from_iso_unchecked (if d = 0 then 7 else d)
       in scan_return (if w = 5 then LastWeekday day_of_week m else NthWeekday w day_of_week m)))))))"

definition parse_rule_date :: "rule scanner" where
  "parse_rule_date s =
     (case scan_peek s of
        None \<Rightarrow> (None, s)
      | Some c \<Rightarrow>
          if c = CHR ''M'' then parse_weekday_rule (drop 1 s)
          else if c = CHR ''J'' then
            scan_bind scan_up_to_3_digits
              (\<lambda>d. if d \<noteq> 0 \<and> d \<le> 365 then scan_return (JulianDayOfYear d) else scan_fail) (drop 1 s)
          else scan_bind scan_up_to_3_digits
              (\<lambda>d. if d + 1 \<noteq> 0 \<and> d + 1 \<le> 366 then scan_return (DayOfYear (d + 1)) else scan_fail) s)"

definition parse_rule :: "(rule \<times> transition_time) scanner" where
  "parse_rule =
     scan_bind parse_rule_date (\<lambda>rule.
     scan_match (scan_bind (scan_expect (CHR ''/'')) (\<lambda>_. parse_hms (167 * 3600))) (\<lambda>t.
       scan_return (rule, case t of Some x \<Rightarrow> x | None \<Rightarrow> default_rule_time)))"

definition tz_read :: "tz_str scanner" where
  "tz_read =
     scan_bind parse_tzname (\<lambda>std_abbrev.
     scan_bind parse_offset (\<lambda>std s.
       if scan_is_done s
       then scan_return \<lparr>tz_std = std, tz_dst = None, tz_std_abbrev = std_abbrev\<rparr> s
       else scan_bind parse_tzname (\<lambda>abbrev.
            scan_bind (\<lambda>s. case scan_peek s of
                 None \<Rightarrow> (None, s)
               | Some c \<Rightarrow>
                   if c = CHR '','' then (offset_shift std default_dst, drop 1 s)
                   else scan_bind parse_offset (\<lambda>x. scan_bind (scan_expect (CHR '','')) (\<lambda>_. scan_return x)) s)
              (\<lambda>dst_offset.
            scan_bind parse_rule (\<lambda>start.
            scan_bind (scan_expect (CHR '','')) (\<lambda>_.
            scan_bind parse_rule (\<lambda>end' s.
              if scan_is_done s
              then (Some \<lparr>tz_std = std,
                          tz_dst = Some \<lparr>dst_offset = dst_offset, dst_start = start, dst_end = end',
                                        dst_abbrev = abbrev\<rparr>,
                          tz_std_abbrev = std_abbrev\<rparr>, s)
              else (None, s)))))) s))"

definition tz_parse :: "bytes \<Rightarrow> tz_str option" where
  "tz_parse s = fst (tz_read s)"

end
