(* ===== verification/Iso_Text.thy ===== *)
theory Iso_Text
  imports Scan Moments
begin

section \<open>ISO 8601 text (\<open>common/fmt.rs\<close> and the formats of \<open>domain\<close>)\<close>

text \<open>
  Printing and reading of dates, times of day, UTC offsets, plain and offset date-times.
  \<open>Chunk::write\<close> into a sink is the string it writes.
\<close>

subsection \<open>Digits\<close>

definition digits_table :: bytes where
  "digits_table = ''00010203040506070809101112131415161718192021222324252627282930313233343536373839404142434445464748495051525354555657585960616263646566676869707172737475767778798081828384858687888990919293949596979899''"

definition format_2_digits :: "int \<Rightarrow> bytes" where
  "format_2_digits n = (let i = nat n * 2 in [digits_table ! i, digits_table ! (i + 1)])"

definition format_4_digits :: "int \<Rightarrow> bytes" where
  "format_4_digits n = format_2_digits (as_u8 (n div 100)) @ format_2_digits (as_u8 (n mod 100))"

datatype precision = PAuto | PNanosecond | PMicrosecond | PMillisecond | PSecond | PMinute | PHour

subsection \<open>Dates\<close>

definition date_iso_len :: "bool \<Rightarrow> nat" where
  "date_iso_len basic = (if basic then 8 else 10)"

definition date_iso_format :: "date \<Rightarrow> bool \<Rightarrow> bytes" where
  "date_iso_format d basic =
     format_4_digits (year_get (d_year d))
     @ (if basic then format_2_digits (month_get (d_month d))
        else ''-'' @ format_2_digits (month_get (d_month d)) @ ''-'')
     @ format_2_digits (d_day d)"

definition extract_year :: "bytes \<Rightarrow> nat \<Rightarrow> year option" where
  "extract_year s index =
     do { a \<leftarrow> extract_digit s index;
          b \<leftarrow> extract_digit s (index + 1);
          c \<leftarrow> extract_digit s (index + 2);
          d \<leftarrow> extract_digit s (index + 3);
          (let y = a * 1000 + b * 100 + c * 10 + d in if y > 0 then Some (Year y) else None) }"

definition date_parse_iso_extended :: "bytes \<Rightarrow> date option" where
  "date_parse_iso_extended s =
     (if s ! 4 = CHR ''-'' \<and> s ! 7 = CHR ''-''
      then do { y \<leftarrow> extract_year s 0;
                m \<leftarrow> extract_2_digits s 5 \<bind> month_new;
                d \<leftarrow> extract_2_digits s 8;
                date_new y m d }
      else None)"

definition date_parse_iso_basic :: "bytes \<Rightarrow> date option" where
  "date_parse_iso_basic s =
     do { y \<leftarrow> extract_year s 0;
          m \<leftarrow> extract_2_digits s 4 \<bind> month_new;
          d \<leftarrow> extract_2_digits s 6;
          date_new y m d }"

definition date_parse_iso :: "bytes \<Rightarrow> date option" where
  "date_parse_iso s =
     (if length s = 8 then date_parse_iso_basic s
      else if length s = 10 then date_parse_iso_extended s
      else None)"

subsection \<open>Fractions of a second\<close>

text \<open>The backwards search for the last digit that is not zero.\<close>

fun last_significant :: "bytes \<Rightarrow> nat \<Rightarrow> nat" where
  "last_significant buf 0 = 0"
| "last_significant buf (Suc n) =
     (if buf ! Suc n = CHR ''0'' then last_significant buf n else Suc n)"

definition subsec_iso_format :: "subsec_nanos \<Rightarrow> bytes \<times> nat" where
  "subsec_iso_format x =
     (let n = subsec_get x
      in if n = 0 then (''.000000000'', 0)
         else (let buf = CHR ''.'' # map (\<lambda>i. digit_char (n div 10 ^ (9 - i) mod 10)) [1..<10];
                   len = last_significant buf 9
               in (buf, if len \<noteq> 0 then len + 1 else len)))"

subsection \<open>Times of day\<close>

definition time_iso_len :: "time \<Rightarrow> precision \<Rightarrow> bool \<Rightarrow> nat" where
  "time_iso_len t unit basic =
     (case unit of PHour \<Rightarrow> 2 | PMinute \<Rightarrow> 4 | PSecond \<Rightarrow> 6 | PMillisecond \<Rightarrow> 10 | PMicrosecond \<Rightarrow> 13
      | PNanosecond \<Rightarrow> 16 | PAuto \<Rightarrow> 6 + snd (subsec_iso_format (t_subsec t)))
     + (if basic \<or> unit = PHour then 0 else if unit = PMinute then 1 else 2)"

definition time_iso_format :: "time \<Rightarrow> precision \<Rightarrow> bool \<Rightarrow> bytes" where
  "time_iso_format t unit basic =
     (let (subsec_str, subsec_len) = subsec_iso_format (t_subsec t);
          sep = (if \<not> basic then '':'' else [])
      in format_2_digits (t_hour t)
         @ (if unit = PHour then []
            else sep @ format_2_digits (t_minute t)
              @ (if unit = PMinute then []
                 else sep @ format_2_digits (t_second t)
                   @ (if unit = PSecond then []
                      else take (case unit of PAuto \<Rightarrow> subsec_len | PNanosecond \<Rightarrow> 10
                          | PMicrosecond \<Rightarrow> 7 | _ \<Rightarrow> 4) subsec_str))))"

definition time_read_iso_extended :: "time scanner" where
  "time_read_iso_extended =
     scan_bind scan_digits00_23 (\<lambda>hour.
     scan_match (scan_advance_on (CHR '':'')) (\<lambda>r.
       if r = Some True then
         scan_bind scan_digits00_59 (\<lambda>minute.
         scan_match (scan_advance_on (CHR '':'')) (\<lambda>r.
           if r = Some True then
             scan_match scan_digits00_60_leap (\<lambda>second.
             scan_match scan_subsec (\<lambda>subsec.
             scan_bind (scan_lift (do { a \<leftarrow> second; b \<leftarrow> subsec; Some (a, b) })) (\<lambda>(second, subsec).
               scan_return \<lparr>t_hour = hour, t_minute = minute, t_second = second, t_subsec = subsec\<rparr>)))
           else scan_return \<lparr>t_hour = hour, t_minute = minute, t_second = 0, t_subsec = SubSecNanos subsec_min\<rparr>))
       else scan_return \<lparr>t_hour = hour, t_minute = 0, t_second = 0, t_subsec = SubSecNanos subsec_min\<rparr>))"

definition time_read_iso_basic :: "time scanner" where
  "time_read_iso_basic =
     scan_bind scan_digits00_23 (\<lambda>hour.
     scan_match scan_digits00_59 (\<lambda>r. case r of
       Some minute \<Rightarrow>
         scan_match scan_digits00_60_leap (\<lambda>r. case r of
           Some second \<Rightarrow>
             scan_bind scan_subsec (\<lambda>subsec.
               scan_return \<lparr>t_hour = hour, t_minute = minute, t_second = second, t_subsec = subsec\<rparr>)
         | None \<Rightarrow> scan_return \<lparr>t_hour = hour, t_minute = minute, t_second = 0, t_subsec = SubSecNanos subsec_min\<rparr>)
     | None \<Rightarrow> scan_return \<lparr>t_hour = hour, t_minute = 0, t_second = 0, t_subsec = SubSecNanos subsec_min\<rparr>))"

definition time_read_iso :: "time scanner" where
  "time_read_iso s =
     (if scan_get s 2 = Some (CHR '':'') then time_read_iso_extended s else time_read_iso_basic s)"

definition time_parse_iso :: "bytes \<Rightarrow> time option" where
  "time_parse_iso s = scan_parse_all time_read_iso s"

subsection \<open>Offsets\<close>

record offset_format =
  of_sign_char :: char
  of_hrs :: int
  of_mins :: int
  of_secs :: int
  of_basic :: bool

definition offset_iso_format :: "offset \<Rightarrow> bool \<Rightarrow> offset_format" where
  "offset_iso_format x basic =
     (let total_secs = \<bar>offset_get x\<bar>
      in \<lparr>of_sign_char = (if offset_get x < 0 then CHR ''-'' else CHR ''+''),
          of_hrs = as_u8 (total_secs div 3600), of_mins = as_u8 (total_secs div 60 mod 60),
          of_secs = as_u8 (total_secs mod 60), of_basic = basic\<rparr>)"

definition offset_format_len :: "offset_format \<Rightarrow> nat" where
  "offset_format_len f =
     5 + (if \<not> of_basic f then 1 else 0)
       + (if of_secs f = 0 then 0 else 2 + (if \<not> of_basic f then 1 else 0))"

definition offset_format_write :: "offset_format \<Rightarrow> bytes" where
  "offset_format_write f =
     of_sign_char f # format_2_digits (of_hrs f)
     @ (if \<not> of_basic f then '':'' else [])
     @ format_2_digits (of_mins f)
     @ (if of_secs f \<noteq> 0
        then (if \<not> of_basic f then '':'' else []) @ format_2_digits (of_secs f)
        else [])"

text \<open>After the sign; \<open>mins\<close> adds the optional minutes and seconds.\<close>

definition offset_read_minutes :: "int \<Rightarrow> int scanner" where
  "offset_read_minutes tally =
     scan_match (scan_advance_on (CHR '':'')) (\<lambda>r. case r of
       Some True \<Rightarrow>
         scan_bind scan_digits00_59 (\<lambda>m.
         scan_match (scan_advance_on (CHR '':'')) (\<lambda>r.
           if r = Some True then scan_bind scan_digits00_59 (\<lambda>s. scan_return (tally + m * 60 + s))
           else scan_return (tally + m * 60)))
     | Some False \<Rightarrow>
         scan_match scan_digits00_59 (\<lambda>r. case r of
           Some m \<Rightarrow>
             scan_match scan_digits00_59 (\<lambda>r. case r of
               Some s \<Rightarrow> scan_return (tally + m * 60 + s)
             | None \<Rightarrow> scan_return (tally + m * 60))
         | None \<Rightarrow> scan_return tally)
     | None \<Rightarrow> scan_return tally)"

definition offset_read_iso :: "offset scanner" where
  "offset_read_iso =
     scan_match scan_next (\<lambda>c.
       if c = Some (CHR ''Z'') \<or> c = Some (CHR ''z'') then scan_return offset_zero
       else if c = Some (CHR ''+'') \<or> c = Some (CHR ''-'') then
         scan_bind scan_digits00_23 (\<lambda>h.
         scan_bind (offset_read_minutes (h * 3600)) (\<lambda>tally.
           scan_return (offset_with_sign (Offset tally) (if c = Some (CHR ''+'') then Plus else Minus))))
       else scan_fail)"

subsection \<open>Date-times\<close>

definition is_datetime_sep :: "char \<Rightarrow> bool" where
  "is_datetime_sep c \<longleftrightarrow> c = CHR ''T'' \<or> c = CHR '' '' \<or> c = CHR ''t''"

definition pdt_read_iso :: "plain_datetime scanner" where
  "pdt_read_iso s =
     (if length s < 11 then (None, s)
      else (let (d, s') = (if is_datetime_sep (s ! 10)
                           then (case scan_take_unchecked 10 s of (b, s') \<Rightarrow> (date_parse_iso_extended b, s'))
                           else if is_datetime_sep (s ! 8)
                           then (case scan_take_unchecked 8 s of (b, s') \<Rightarrow> (date_parse_iso_basic b, s'))
                           else (None, s))
            in scan_bind (scan_lift d) (\<lambda>date.
               scan_bind (\<lambda>s. time_read_iso (scan_skip 1 s)) (\<lambda>time.
                 scan_return \<lparr>pdt_date = date, pdt_time = time\<rparr>)) s'))"

definition pdt_parse_iso :: "bytes \<Rightarrow> plain_datetime option" where
  "pdt_parse_iso s = scan_parse_all pdt_read_iso s"

text \<open>Zone identifiers, from \<open>tz/tzif.rs\<close>.\<close>

definition is_ascii_alphanumeric :: "char \<Rightarrow> bool" where
  "is_ascii_alphanumeric c \<longleftrightarrow>
     is_ascii_digit c \<or> 65 \<le> byte c \<and> byte c \<le> 90 \<or> 97 \<le> byte c \<and> byte c \<le> 122"

definition is_tz_id_char :: "char \<Rightarrow> bool" where
  "is_tz_id_char b \<longleftrightarrow> is_ascii_alphanumeric b \<or> b \<in> set ''/_-+.''"

fun str_starts_with :: "bytes \<Rightarrow> bytes \<Rightarrow> bool" where
  "str_starts_with [] s \<longleftrightarrow> True"
| "str_starts_with (p # ps) [] \<longleftrightarrow> False"
| "str_starts_with (p # ps) (c # s) \<longleftrightarrow> p = c \<and> str_starts_with ps s"

fun str_contains :: "bytes \<Rightarrow> bytes \<Rightarrow> bool" where
  "str_contains p [] \<longleftrightarrow> p = []"
| "str_contains p (c # s) \<longleftrightarrow> str_starts_with p (c # s) \<or> str_contains p s"

definition is_valid_key :: "bytes \<Rightarrow> bool" where
  "is_valid_key key \<longleftrightarrow>
     key \<noteq> []
     \<and> length key < 100
     \<and> list_all is_tz_id_char key
     \<and> \<not> str_contains ''..'' key \<and> \<not> str_contains ''//'' key \<and> \<not> str_contains ''/./'' key
     \<and> (hd key \<noteq> CHR ''-'' \<and> hd key \<noteq> CHR ''+'' \<and> hd key \<noteq> CHR ''/'' \<and> hd key \<noteq> CHR ''.'')
     \<and> last key \<noteq> CHR ''/''"

text \<open>\<open>from_utf8\<close> rejects what \<open>is_valid_key\<close> rejects as well: a byte that is not
  ASCII.\<close>

definition skip_tzname :: "unit scanner" where
  "skip_tzname =
     scan_match (scan_advance_on (CHR ''['')) (\<lambda>r.
       if r = Some True then
         scan_match (scan_take_until_inclusive (\<lambda>c. c = CHR '']'')) (\<lambda>tz. case tz of
           Some tz \<Rightarrow> if is_valid_key (take (length tz - 1) tz) then scan_return () else scan_fail
         | None \<Rightarrow> scan_fail)
       else scan_return ())"

definition odt_read_iso :: "offset_datetime scanner" where
  "odt_read_iso =
     scan_bind pdt_read_iso (\<lambda>p.
     scan_bind offset_read_iso (\<lambda>x.
     scan_bind (scan_lift (pdt_assume_offset p x)) (\<lambda>dt.
     scan_bind skip_tzname (\<lambda>_. scan_return dt))))"

definition odt_parse_iso :: "bytes \<Rightarrow> offset_datetime option" where
  "odt_parse_iso s = scan_parse_all odt_read_iso s"

end
