(* ===== verification/Tzif.thy ===== *)
theory Tzif
  imports Posix Iso_Text
begin

section \<open>Time zones from TZif files (\<open>src/src/tz/tzif.rs\<close>)\<close>

text \<open>
  A \<open>TimeZone\<close> holds the transitions of a TZif file, in UTC and in local time, with the
  POSIX rule that goes on after the last one. Here are the queries, which find their
  transition by bisection, and the reader of the file format. A computation that may panic
  (an \<open>unwrap\<close> of \<open>None\<close>, an index out of range, an overflowing capacity) has a
  result of type \<open>run\<close>; arithmetic on \<open>i32\<close> counts wraps, as it does in a release
  build. \<open>is_valid_key\<close> and \<open>is_tz_id_char\<close> of the same file are in \<open>Iso_Text\<close>.
\<close>

subsection \<open>Computations that may panic\<close>

datatype 'a run = Panic | Done (run_value: 'a)

fun run_bind :: "'a run \<Rightarrow> ('a \<Rightarrow> 'b run) \<Rightarrow> 'b run" where
  "run_bind Panic f = Panic"
| "run_bind (Done x) f = f x"

definition run_unwrap :: "'a option \<Rightarrow> 'a run" where
  "run_unwrap x = (case x of None \<Rightarrow> Panic | Some y \<Rightarrow> Done y)"

definition run_index :: "'a list \<Rightarrow> nat \<Rightarrow> 'a run" where
  "run_index xs i = (if i < length xs then Done (xs ! i) else Panic)"

text \<open>\<open>Vec::with_capacity\<close> panics when the bytes asked for exceed \<open>isize::MAX\<close>.\<close>

definition run_capacity :: "int \<Rightarrow> int \<Rightarrow> unit run" where
  "run_capacity n width = (if n * width \<le> 9223372036854775807 then Done () else Panic)"

subsection \<open>The time zone\<close>

record transition_meta =
  tm_dst_saving :: int
  tm_abbrev_idx :: int

record time_zone =
  zone_key :: "bytes option"
  zone_utc :: "(epoch_secs \<times> offset) list"
  zone_local :: "(local_seconds \<times> (offset \<times> offset_delta)) list"
  zone_end :: "tz_str option"
  zone_meta :: "transition_meta list"
  zone_abbrevs :: bytes

text \<open>The loop of \<open>bisect\<close>, between \<open>left\<close> and \<open>right\<close>.\<close>

function bisect_loop :: "('k::linorder \<times> 'v) list \<Rightarrow> 'k \<Rightarrow> nat \<Rightarrow> nat \<Rightarrow> nat" where
  "bisect_loop arr x left right =
     (if left < right then
        (let mid = left + (right - left) div 2
         in if x \<ge> fst (arr ! mid) then bisect_loop arr x (mid + 1) right
            else bisect_loop arr x left mid)
      else left)"
  by pat_completeness auto
termination by (relation "measure (\<lambda>(arr, x, l, r). r - l)") auto

declare bisect_loop.simps [simp del]

definition bisect :: "('k::linorder \<times> 'v) list \<Rightarrow> 'k \<Rightarrow> nat option" where
  "bisect arr x =
     (let left = bisect_loop arr x 0 (length arr)
      in if left \<noteq> length arr then Some left else None)"

definition zone_offset_for_instant :: "time_zone \<Rightarrow> epoch_secs \<Rightarrow> offset run" where
  "zone_offset_for_instant z t =
     (case bisect (zone_utc z) t of
        Some i \<Rightarrow> run_bind (run_index (zone_utc z) (i - 1)) (\<lambda>p. Done (snd p))
      | None \<Rightarrow>
          (case zone_end z of
             Some tz \<Rightarrow> Done (tz_offset_for_instant tz t)
           | None \<Rightarrow> if zone_utc z = [] then Panic else Done (snd (last (zone_utc z)))))"

definition zone_mapping_for_local :: "time_zone \<Rightarrow> local_seconds \<Rightarrow> local_mapping run" where
  "zone_mapping_for_local z t =
     (case bisect (zone_local z) t of
        Some i \<Rightarrow>
          run_bind (run_index (zone_local z) i) (\<lambda>(next_transition, (x, change)).
            let ambiguity = (if t < ls_saturating_add_i32 next_transition
                                      (- offset_delta_get (offset_delta_abs change))
                             then OffsetDelta 0 else change)
            in case cmp (offset_delta_get ambiguity) 0 of
                 Equal \<Rightarrow> Done (Unique x)
               | Less \<Rightarrow> run_bind (run_unwrap (offset_shift x ambiguity)) (\<lambda>after.
                           Done (Fold next_transition x after))
               | Greater \<Rightarrow> run_bind (run_unwrap (offset_shift x ambiguity)) (\<lambda>after.
                           Done (Gap next_transition x after)))
      | None \<Rightarrow>
          (case zone_end z of
             Some tz \<Rightarrow> Done (tz_mapping_for_local tz t)
           | None \<Rightarrow>
               if zone_local z = [] then Panic
               else (let (prev_offset, last_shift) = snd (last (zone_local z))
                     in run_bind (run_unwrap (offset_shift prev_offset last_shift)) (\<lambda>x.
                          Done (Unique x)))))"

definition zone_parse_posix :: "bytes \<Rightarrow> time_zone option" where
  "zone_parse_posix s =
     do { tz \<leftarrow> tz_parse s;
          Some \<lparr>zone_key = None, zone_utc = [], zone_local = [], zone_end = Some tz,
                zone_meta = [], zone_abbrevs = []\<rparr> }"

definition abbrev_from_data :: "bytes \<Rightarrow> int \<Rightarrow> tz_abbrev" where
  "abbrev_from_data d idx =
     (let start = nat idx
      in if start \<ge> length d then tz_abbrev_empty
         else (let end' = (case position (\<lambda>b. byte b = 0) (drop start d) of
                             Some p \<Rightarrow> start + p | None \<Rightarrow> length d)
               in case tz_abbrev_from_bytes (drop start (take end' d)) of
                    Some a \<Rightarrow> a | None \<Rightarrow> tz_abbrev_empty))"

definition meta_result :: "time_zone \<Rightarrow> transition_meta \<Rightarrow> tz_meta_result" where
  "meta_result z m =
     \<lparr>dst_saving = tm_dst_saving m, meta_abbrev = abbrev_from_data (zone_abbrevs z) (tm_abbrev_idx m)\<rparr>"

definition zone_meta_for_instant :: "time_zone \<Rightarrow> epoch_secs \<Rightarrow> tz_meta_result run" where
  "zone_meta_for_instant z t =
     (case bisect (zone_utc z) t of
        Some i \<Rightarrow> run_bind (run_index (zone_meta z) (i - 1)) (\<lambda>m. Done (meta_result z m))
      | None \<Rightarrow>
          (case zone_end z of
             Some tz \<Rightarrow> Done (tz_meta_for_instant tz t)
           | None \<Rightarrow> if zone_meta z = [] then Panic else Done (meta_result z (last (zone_meta z)))))"

definition zone_next_transition :: "time_zone \<Rightarrow> epoch_secs \<Rightarrow> (epoch_secs \<times> offset) option" where
  "zone_next_transition z t =
     (case bisect (zone_utc z) t of
        Some i \<Rightarrow> Some (zone_utc z ! i)
      | None \<Rightarrow> do { tz \<leftarrow> zone_end z; tz_next_transition tz t })"

text \<open>\<open>partition_point\<close>: the number of leading entries that satisfy the predicate (on
  entries in order, which is all the library documents it for).\<close>

definition partition_point :: "('a \<Rightarrow> bool) \<Rightarrow> 'a list \<Rightarrow> nat" where
  "partition_point f xs = length (takeWhile f xs)"

definition zone_prev_transition :: "time_zone \<Rightarrow> epoch_secs \<Rightarrow> (epoch_secs \<times> offset) option" where
  "zone_prev_transition z t =
     (let from_rule = (case zone_end z of
                         Some tz \<Rightarrow>
                           if zone_utc z = [] \<or> t > fst (last (zone_utc z))
                           then tz_prev_transition tz t else None
                       | None \<Rightarrow> None)
      in case from_rule of
           Some r \<Rightarrow> Some r
         | None \<Rightarrow>
             (let idx = partition_point (\<lambda>p. fst p < t) (zone_utc z)
              in if idx > 1 then Some (zone_utc z ! (idx - 1)) else None))"

subsection \<open>Reading the file\<close>

datatype error_cause = HeaderError | BodyError | TzStringError

record header =
  hd_version :: int
  hd_isutcnt :: int
  hd_isstdcnt :: int
  hd_leapcnt :: int
  hd_timecnt :: int
  hd_typecnt :: int
  hd_charcnt :: int

record type_info =
  ti_offset :: offset
  ti_isdst :: bool
  ti_abbrev_idx :: int

definition be_value :: "bytes \<Rightarrow> int" where
  "be_value b = foldl (\<lambda>a c. a * 256 + byte c) 0 b"

definition i32_from_be :: "bytes \<Rightarrow> int" where
  "i32_from_be b = as_i32 (be_value b)"

definition i64_from_be :: "bytes \<Rightarrow> int" where
  "i64_from_be b = as_i64 (be_value b)"

definition slice :: "bytes \<Rightarrow> nat \<Rightarrow> nat \<Rightarrow> bytes" where
  "slice b i j = take (j - i) (drop i b)"

definition check_magic_bytes :: "bytes \<Rightarrow> bool \<times> bytes" where
  "check_magic_bytes s = (case scan_take 4 s of (r, s') \<Rightarrow> (r = Some ''TZif'', s'))"

definition parse_version :: "int scanner" where
  "parse_version =
     scan_bind (scan_take 1) (\<lambda>b.
     scan_bind (if byte (b ! 0) = 0 then scan_return 1
                else if is_ascii_digit (b ! 0) then scan_return (digit_val (b ! 0))
                else scan_fail) (\<lambda>version.
     scan_bind (scan_take 15) (\<lambda>_. scan_return version)))"

definition parse_header :: "header scanner" where
  "parse_header s =
     (case check_magic_bytes s of
        (False, s') \<Rightarrow> (None, s')
      | (True, s') \<Rightarrow>
          scan_bind parse_version (\<lambda>version.
          scan_bind (scan_take 24) (\<lambda>content. scan_return
            \<lparr>hd_version = version,
             hd_isutcnt = i32_from_be (slice content 0 4),
             hd_isstdcnt = i32_from_be (slice content 4 8),
             hd_leapcnt = i32_from_be (slice content 8 12),
             hd_timecnt = i32_from_be (slice content 12 16),
             hd_typecnt = i32_from_be (slice content 16 20),
             hd_charcnt = i32_from_be (slice content 20 24)\<rparr>)) s')"

text \<open>\<open>as usize\<close> of an \<open>i32\<close> extends the sign; \<open>take\<close> of such a length fails,
  \<open>with_capacity\<close> panics.\<close>

definition scan_take_usize :: "int \<Rightarrow> bytes scanner" where
  "scan_take_usize n = scan_take (nat (as_u64 n))"

definition parse_v2_transitions :: "header \<Rightarrow> bytes \<Rightarrow> (epoch_secs list option \<times> bytes) run" where
  "parse_v2_transitions h s =
     run_bind (run_capacity (as_u64 (hd_timecnt h)) 8) (\<lambda>_. Done (
       scan_bind (scan_take_usize (as_u64 (hd_timecnt h) * 8)) (\<lambda>values.
         scan_return (map (\<lambda>i. epoch_clamp (i64_from_be (slice values (i * 8) ((i + 1) * 8))))
           [0..<nat (hd_timecnt h)])) s))"

definition parse_v1_transitions :: "header \<Rightarrow> bytes \<Rightarrow> (epoch_secs list option \<times> bytes) run" where
  "parse_v1_transitions h s =
     run_bind (run_capacity (as_u64 (hd_timecnt h)) 8) (\<lambda>_. Done (
       scan_bind (scan_take_usize (as_u64 (hd_timecnt h) * 4)) (\<lambda>values.
         scan_return (map (\<lambda>i. epoch_from_i32 (i32_from_be (slice values (i * 4) ((i + 1) * 4))))
           [0..<nat (hd_timecnt h)])) s))"

definition parse_offset_indices :: "header \<Rightarrow> bytes \<Rightarrow> (int list option \<times> bytes) run" where
  "parse_offset_indices h s =
     run_bind (run_capacity (as_u64 (hd_timecnt h)) 1) (\<lambda>_. Done (
       scan_bind (scan_take_usize (as_u64 (hd_timecnt h))) (\<lambda>values.
         scan_return (map (\<lambda>i. be_value (slice values i (i + 1))) [0..<nat (hd_timecnt h)])) s))"

text \<open>The entries of \<open>parse_type_info\<close>; an offset out of range ends it.\<close>

fun read_types :: "bytes \<Rightarrow> nat \<Rightarrow> nat \<Rightarrow> type_info list option" where
  "read_types values i 0 = Some []"
| "read_types values i (Suc n) =
     do { x \<leftarrow> offset_new (i32_from_be (slice values (i * 6) (i * 6 + 4)));
          rest \<leftarrow> read_types values (i + 1) n;
          Some (\<lparr>ti_offset = x, ti_isdst = (byte (values ! (i * 6 + 4)) \<noteq> 0),
                 ti_abbrev_idx = byte (values ! (i * 6 + 5))\<rparr> # rest) }"

definition parse_type_info :: "int \<Rightarrow> int \<Rightarrow> bytes \<Rightarrow> ((type_info list \<times> bytes) option \<times> bytes) run" where
  "parse_type_info typecnt charcnt s =
     run_bind (run_capacity typecnt 8) (\<lambda>_. Done (
       scan_bind (scan_take_usize (typecnt * 6)) (\<lambda>values.
       scan_bind (scan_lift (read_types values 0 (nat typecnt))) (\<lambda>types.
       scan_bind (scan_take_usize charcnt) (\<lambda>abbrev_data.
         scan_return (types, abbrev_data)))) s))"

definition types_get :: "type_info list \<Rightarrow> int \<Rightarrow> type_info option" where
  "types_get types idx = (if nat idx < length types then Some (types ! nat idx) else None)"

text \<open>The first standard offset that is in use (\<open>find_map\<close>).\<close>

fun first_std_offset :: "type_info list \<Rightarrow> int list \<Rightarrow> offset option" where
  "first_std_offset types [] = None"
| "first_std_offset types (idx # rest) =
     (case types_get types idx of
        Some typ \<Rightarrow> if \<not> ti_isdst typ then Some (ti_offset typ) else first_std_offset types rest
      | None \<Rightarrow> first_std_offset types rest)"

fun load_loop :: "type_info list \<Rightarrow> offset \<Rightarrow> (int \<times> epoch_secs) list
    \<Rightarrow> ((epoch_secs \<times> offset) list \<times> transition_meta list) option" where
  "load_loop types last_std [] = Some ([], [])"
| "load_loop types last_std ((idx, epoch) # rest) =
     do { typ \<leftarrow> types_get types idx;
          let dst_saving = (if ti_isdst typ then offset_get (ti_offset typ) - offset_get last_std else 0);
              last_std' = (if \<not> ti_isdst typ then ti_offset typ else last_std)
          in do { (offsets, meta) \<leftarrow> load_loop types last_std' rest;
                  Some ((epoch, ti_offset typ) # offsets,
                        \<lparr>tm_dst_saving = dst_saving, tm_abbrev_idx = ti_abbrev_idx typ\<rparr> # meta) } }"

definition load_transitions :: "epoch_secs list \<Rightarrow> type_info list \<Rightarrow> int list
    \<Rightarrow> ((epoch_secs \<times> offset) list \<times> transition_meta list) option" where
  "load_transitions transition_times types indices =
     (case types of
        [] \<Rightarrow> None
      | first_type # _ \<Rightarrow>
          (let last_std = (case first_std_offset types indices of
                             Some x \<Rightarrow> x | None \<Rightarrow> ti_offset first_type)
           in do { (offsets, meta) \<leftarrow> load_loop types last_std (zip indices transition_times);
                   Some ((EpochSecs epoch_min, ti_offset first_type) # offsets,
                         \<lparr>tm_dst_saving = 0, tm_abbrev_idx = ti_abbrev_idx first_type\<rparr> # meta) }))"

fun local_loop :: "offset \<Rightarrow> (epoch_secs \<times> offset) list
    \<Rightarrow> (local_seconds \<times> (offset \<times> offset_delta)) list" where
  "local_loop prev [] = []"
| "local_loop prev ((epoch, x) # rest) =
     (ls_from_instant_saturating epoch (max prev x), (prev, offset_sub x prev)) # local_loop x rest"

definition local_transitions :: "(epoch_secs \<times> offset) list
    \<Rightarrow> (local_seconds \<times> (offset \<times> offset_delta)) list" where
  "local_transitions transitions =
     (case transitions of [] \<Rightarrow> [] | (_, x) # rest \<Rightarrow> local_loop x rest)"

definition parse_posix_tz :: "bytes \<Rightarrow> tz_str option" where
  "parse_posix_tz s =
     tz_parse (case fst (scan_take_until (\<lambda>b. byte b = 10) s) of Some x \<Rightarrow> x | None \<Rightarrow> s)"

text \<open>\<open>ok_or(cause)?\<close> on a step of the reader.\<close>

definition ok_or :: "error_cause \<Rightarrow> ('a option \<times> bytes) run
    \<Rightarrow> ('a \<Rightarrow> bytes \<Rightarrow> (error_cause + 'b) run) \<Rightarrow> (error_cause + 'b) run" where
  "ok_or cause m f =
     run_bind m (\<lambda>(r, s). case r of None \<Rightarrow> Done (Inl cause) | Some x \<Rightarrow> f x s)"

definition parse_content :: "header \<Rightarrow> bytes \<Rightarrow> bytes option \<Rightarrow> (error_cause + time_zone) run" where
  "parse_content h s key =
     (let rest = (\<lambda>tts h s.
        ok_or BodyError (parse_offset_indices h s) (\<lambda>offset_indices s.
        ok_or BodyError (parse_type_info (as_u64 (hd_typecnt h)) (hd_charcnt h) s) (\<lambda>(types, abbrev_data) s.
        ok_or BodyError (Done (load_transitions tts types offset_indices, s)) (\<lambda>(offsets_by_utc, meta_by_utc) s.
        let finish = (\<lambda>end'.
              if end' = None \<and> offsets_by_utc = [] then Done (Inl BodyError)
              else Done (Inr \<lparr>zone_key = key, zone_utc = offsets_by_utc,
                              zone_local = local_transitions offsets_by_utc, zone_end = end',
                              zone_meta = meta_by_utc, zone_abbrevs = abbrev_data\<rparr>))
        in if hd_version h \<ge> 2 then
             ok_or BodyError (Done (scan_take_usize
               (as_i32 (hd_isutcnt h + hd_isstdcnt h + hd_leapcnt h * 12 + 1)) s)) (\<lambda>_ s.
             ok_or TzStringError (Done (parse_posix_tz s, s)) (\<lambda>tz s. finish (Some tz)))
           else finish None))))
      in if hd_version h \<ge> 2 then
           ok_or BodyError (Done (scan_take_usize
             (as_i32 (hd_timecnt h * 5 + hd_typecnt h * 6 + hd_charcnt h + hd_leapcnt h * 8
               + hd_isstdcnt h + hd_isutcnt h)) s)) (\<lambda>_ s.
           ok_or HeaderError (Done (parse_header s)) (\<lambda>new_header s.
           ok_or BodyError (parse_v2_transitions new_header s) (\<lambda>tts s. rest tts new_header s)))
         else ok_or BodyError (parse_v1_transitions h s) (\<lambda>tts s. rest tts h s))"

definition parse_tzif :: "bytes \<Rightarrow> bytes option \<Rightarrow> (error_cause + time_zone) run" where
  "parse_tzif s key =
     ok_or HeaderError (Done (parse_header s)) (\<lambda>h s. parse_content h s key)"

end
