(* ===== verification/Store.thy ===== *)
theory Store
  imports Tzif
begin

section \<open>The store of time zones (\<open>src/src/tz/store.rs\<close>)\<close>

text \<open>
  Zones are shared through \<open>Arc\<close>. An \<open>Arc\<close> is an address of the \<open>st_heap\<close>; a zone is
  alive while a strong reference to it exists: in the LRU list, in the cached system zone, or in
  \<open>st_held\<close>, one entry for each \<open>Arc\<close> that the callers hold (zoned date-times, and loads
  under way). The \<open>Weak\<close> references of the lookup table are plain addresses, and
  \<open>upgrade\<close> tests that the zone is alive. The lock makes each \<open>with_mut\<close> one step:
  \<open>cache_find\<close> and \<open>cache_store\<close> are the two sections of
  \<open>get_or_insert_with\<close>, between which other threads may run; the interleavings are
  \<open>store_step\<close> in \<open>Store_Facts\<close>. The file system is a parameter
  \<open>fs\<close>: the contents of the file at a path, \<open>None\<close> for a path that is not a
  readable file. The search path and the \<open>tzdata\<close> directory, which Python supplies, are
  parameters as well; exceptions raised by Python itself are not modelled.
\<close>

record store =
  st_lookup :: "bytes \<Rightarrow> nat option"
  st_lru :: "nat list"
  st_system :: "nat option"
  st_heap :: "nat \<Rightarrow> time_zone option"
  st_next :: nat
  st_held :: "nat list"

definition lru_capacity :: nat where "lru_capacity = 8"

definition store_new :: store where
  "store_new = \<lparr>st_lookup = (\<lambda>_. None), st_lru = [], st_system = None, st_heap = (\<lambda>_. None),
                st_next = 0, st_held = []\<rparr>"

subsection \<open>References\<close>

definition alive :: "store \<Rightarrow> nat \<Rightarrow> bool" where
  "alive s a \<longleftrightarrow> a \<in> set (st_lru s) \<or> st_system s = Some a \<or> a \<in> set (st_held s)"

definition upgrade :: "store \<Rightarrow> nat \<Rightarrow> nat option" where
  "upgrade s a = (if alive s a then Some a else None)"

text \<open>\<open>Arc::new\<close>, held by the caller.\<close>

definition arc_new :: "time_zone \<Rightarrow> store \<Rightarrow> nat \<times> store" where
  "arc_new z s =
     (st_next s, s\<lparr>st_heap := (st_heap s)(st_next s \<mapsto> z), st_next := st_next s + 1,
                   st_held := st_next s # st_held s\<rparr>)"

definition arc_clone :: "nat \<Rightarrow> store \<Rightarrow> store" where
  "arc_clone a s = s\<lparr>st_held := a # st_held s\<rparr>"

definition arc_drop :: "nat \<Rightarrow> store \<Rightarrow> store" where
  "arc_drop a s = s\<lparr>st_held := remove1 a (st_held s)\<rparr>"

subsection \<open>The cache\<close>

definition new_to_lru :: "'a \<Rightarrow> 'a list \<Rightarrow> 'a list" where
  "new_to_lru tz lru = tz # (if length lru = lru_capacity then butlast lru else lru)"

definition promote_lru :: "'a \<Rightarrow> 'a list \<Rightarrow> 'a list" where
  "promote_lru tz lru =
     (case position (\<lambda>p. p = tz) lru of
        Some 0 \<Rightarrow> lru
      | Some i \<Rightarrow> (lru ! i) # (take i lru @ drop (Suc i) lru)
      | None \<Rightarrow> new_to_lru tz lru)"

definition cache_find :: "bytes \<Rightarrow> store \<Rightarrow> nat option \<times> store" where
  "cache_find key s =
     (case st_lookup s key \<bind> upgrade s of
        Some a \<Rightarrow> (Some a, arc_clone a (s\<lparr>st_lru := promote_lru a (st_lru s)\<rparr>))
      | None \<Rightarrow> (None, s))"

definition cache_store :: "bytes \<Rightarrow> nat \<Rightarrow> store \<Rightarrow> nat \<times> store" where
  "cache_store key loaded s =
     (case st_lookup s key \<bind> upgrade s of
        Some a \<Rightarrow> (a, arc_drop loaded (arc_clone a (s\<lparr>st_lru := promote_lru a (st_lru s)\<rparr>)))
      | None \<Rightarrow> (loaded, s\<lparr>st_lookup := (st_lookup s)(key \<mapsto> loaded),
                            st_lru := new_to_lru loaded (st_lru s)\<rparr>))"

definition get_or_insert_with :: "bytes \<Rightarrow> time_zone option run \<Rightarrow> store \<Rightarrow> (nat option \<times> store) run" where
  "get_or_insert_with key load s =
     (case cache_find key s of
        (Some a, s') \<Rightarrow> Done (Some a, s')
      | (None, s') \<Rightarrow>
          run_bind load (\<lambda>r. case r of
              None \<Rightarrow> Done (None, s')
            | Some z \<Rightarrow>
                (case arc_new z s' of (loaded, s'') \<Rightarrow>
                   (case cache_store key loaded s'' of (a, t) \<Rightarrow> Done (Some a, t)))))"

definition clear_all :: "store \<Rightarrow> store" where
  "clear_all s = s\<lparr>st_lookup := (\<lambda>_. None), st_lru := []\<rparr>"

definition clear_key :: "bytes \<Rightarrow> store \<Rightarrow> store" where
  "clear_key k s =
     s\<lparr>st_lookup := (st_lookup s)(k := None),
       st_lru := filter (\<lambda>a. (case st_heap s a of Some z \<Rightarrow> zone_key z | None \<Rightarrow> None) \<noteq> Some k) (st_lru s)\<rparr>"

definition clear_only :: "bytes list \<Rightarrow> store \<Rightarrow> store" where
  "clear_only keys s = fold clear_key keys s"

subsection \<open>Loading\<close>

definition benign_key :: "bytes \<Rightarrow> bytes option" where
  "benign_key key = (if is_valid_key key then Some key else None)"

text \<open>\<open>Path::join\<close>: an absolute path replaces the base, a separator is added where it is missing.\<close>

definition path_join :: "bytes \<Rightarrow> bytes \<Rightarrow> bytes" where
  "path_join base p =
     (if p \<noteq> [] \<and> hd p = CHR ''/'' then p
      else if base = [] \<or> last base = CHR ''/'' then base @ p
      else base @ CHR ''/'' # p)"

definition read_tzif_at_path :: "(bytes \<Rightarrow> bytes option) \<Rightarrow> bytes \<Rightarrow> bytes option \<Rightarrow> time_zone option run" where
  "read_tzif_at_path fs path key =
     (case fs path of
        None \<Rightarrow> Done None
      | Some d \<Rightarrow>
          run_bind (parse_tzif d key) (\<lambda>r. Done (case r of Inl _ \<Rightarrow> None | Inr z \<Rightarrow> Some z)))"

fun load_tzif_from_tzpath :: "(bytes \<Rightarrow> bytes option) \<Rightarrow> bytes list \<Rightarrow> bytes \<Rightarrow> time_zone option run" where
  "load_tzif_from_tzpath fs [] key = Done None"
| "load_tzif_from_tzpath fs (base # paths) key =
     run_bind (read_tzif_at_path fs (path_join base key) (Some key)) (\<lambda>r.
       case r of Some z \<Rightarrow> Done (Some z) | None \<Rightarrow> load_tzif_from_tzpath fs paths key)"

definition load_tzif_from_tzdata :: "(bytes \<Rightarrow> bytes option) \<Rightarrow> bytes option \<Rightarrow> bytes \<Rightarrow> time_zone option run" where
  "load_tzif_from_tzdata fs tzdata_path key =
     (case tzdata_path of
        None \<Rightarrow> Done None
      | Some base \<Rightarrow> read_tzif_at_path fs (path_join base key) (Some key))"

definition load_tzif :: "(bytes \<Rightarrow> bytes option) \<Rightarrow> bytes list \<Rightarrow> bytes option \<Rightarrow> bytes \<Rightarrow> time_zone option run" where
  "load_tzif fs paths tzdata_path raw_key =
     (case benign_key raw_key of
        None \<Rightarrow> Done None
      | Some key \<Rightarrow>
          run_bind (load_tzif_from_tzpath fs paths key) (\<lambda>r.
            case r of None \<Rightarrow> load_tzif_from_tzdata fs tzdata_path key | Some z \<Rightarrow> Done (Some z)))"

subsection \<open>The store\<close>

datatype store_error = TzNotFound | TzTypeError

definition store_get :: "(bytes \<Rightarrow> bytes option) \<Rightarrow> bytes list \<Rightarrow> bytes option \<Rightarrow> bytes \<Rightarrow> store
    \<Rightarrow> ((store_error + nat) \<times> store) run" where
  "store_get fs paths tzdata_path key s =
     run_bind (get_or_insert_with key (load_tzif fs paths tzdata_path key) s) (\<lambda>(r, s').
       Done (case r of Some a \<Rightarrow> Inr a | None \<Rightarrow> Inl TzNotFound, s'))"

text \<open>\<open>tz_type\<close> and \<open>tz_value\<close> are what the Python function \<open>get_tz\<close> returns.\<close>

definition determine_system_tz :: "(bytes \<Rightarrow> bytes option) \<Rightarrow> bytes list \<Rightarrow> bytes option \<Rightarrow> int \<Rightarrow> bytes \<Rightarrow> store
    \<Rightarrow> ((store_error + nat) \<times> store) run" where
  "determine_system_tz fs paths tzdata_path tz_type tz_value s =
     (if tz_type = 0 then store_get fs paths tzdata_path tz_value s
      else if tz_type = 1 then
        run_bind (read_tzif_at_path fs tz_value None) (\<lambda>r.
          case r of
            Some z \<Rightarrow> (case arc_new z s of (a, s') \<Rightarrow> Done (Inr a, s'))
          | None \<Rightarrow> Done (Inl TzNotFound, s))
      else if tz_type = 2 then
        run_bind (get_or_insert_with tz_value (load_tzif fs paths tzdata_path tz_value) s) (\<lambda>(r, s').
          case r of
            Some a \<Rightarrow> Done (Inr a, s')
          | None \<Rightarrow>
              (case zone_parse_posix tz_value of
                 Some z \<Rightarrow> (case arc_new z s' of (a, t) \<Rightarrow> Done (Inr a, t))
               | None \<Rightarrow> Done (Inl TzNotFound, s')))
      else Done (Inl TzTypeError, s))"

definition reset_system_tz :: "(bytes \<Rightarrow> bytes option) \<Rightarrow> bytes list \<Rightarrow> bytes option \<Rightarrow> int \<Rightarrow> bytes \<Rightarrow> store
    \<Rightarrow> ((store_error + nat) \<times> store) run" where
  "reset_system_tz fs paths tzdata_path tz_type tz_value s =
     run_bind (determine_system_tz fs paths tzdata_path tz_type tz_value s) (\<lambda>(r, s').
       Done (r, case r of Inr a \<Rightarrow> s'\<lparr>st_system := Some a\<rparr> | Inl _ \<Rightarrow> s'))"

definition get_system_tz :: "(bytes \<Rightarrow> bytes option) \<Rightarrow> bytes list \<Rightarrow> bytes option \<Rightarrow> int \<Rightarrow> bytes \<Rightarrow> store
    \<Rightarrow> ((store_error + nat) \<times> store) run" where
  "get_system_tz fs paths tzdata_path tz_type tz_value s =
     (case st_system s of
        Some a \<Rightarrow> Done (Inr a, arc_clone a s)
      | None \<Rightarrow> reset_system_tz fs paths tzdata_path tz_type tz_value s)"

end
