(* ===== verification/Iso_Facts.thy ===== *)
theory Iso_Facts
  imports Iso_Text Moments_Facts
begin

section \<open>Reading back what was printed\<close>

text \<open>
  The ISO 8601 printers and readers of \<open>Iso_Text\<close> are inverse to each other: what the
  digits mean, how far each reader goes, and the round trips of dates, times of day, offsets and
  offset date-times. The reader's results satisfy the invariants of their types.
\<close>

subsection \<open>Digits\<close>

lemma format_2_digits_table:
  "list_all (\<lambda>n. format_2_digits n = [digit_char (n div 10), digit_char (n mod 10)]) (map int [0..<100])"
  by code_simp

lemma format_2_digits_eq:
  assumes "0 \<le> n" and "n < 100"
  shows "format_2_digits n = [digit_char (n div 10), digit_char (n mod 10)]"
proof -
  have "n \<in> set (map int [0..<100])" using assms by (auto intro!: image_eqI [of _ _ "nat n"])
  then show ?thesis using format_2_digits_table by (auto simp: list_all_iff)
qed

lemma mod_100_digits:
  fixes n :: int
  shows "n mod 100 div 10 = n div 10 mod 10" and "n mod 100 mod 10 = n mod 10"
proof -
  have *: "n mod 100 = 10 * (n div 10 mod 10) + n mod 10"
    using zmod_zmult2_eq [of 10 n 10] by simp
  show "n mod 100 div 10 = n div 10 mod 10" using div_mod_unique(1) [OF *] by simp
  show "n mod 100 mod 10 = n mod 10" by (simp add: mod_mod_cancel)
qed

lemma format_4_digits_eq:
  assumes "0 \<le> n" and "n < 10000"
  shows "format_4_digits n = [digit_char (n div 1000), digit_char (n div 100 mod 10),
    digit_char (n div 10 mod 10), digit_char (n mod 10)]"
proof -
  have "n div 100 < 100" "0 \<le> n div 100" "n div 100 div 10 = n div 1000"
    using assms by (simp_all add: zdiv_zmult2_eq [symmetric] pos_imp_zdiv_nonneg_iff)
  then show ?thesis
    by (simp add: format_4_digits_def format_2_digits_eq mod_100_digits del: mod_mod_cancel)
qed

lemma four_digits:
  fixes n :: int
  assumes "0 \<le> n"
  shows "n div 1000 * 1000 + n div 100 mod 10 * 100 + n div 10 mod 10 * 10 + n mod 10 = n"
proof -
  have "n div 100 div 10 = n div 1000" "n div 10 div 10 = n div 100"
    by (simp_all add: zdiv_zmult2_eq [symmetric])
  then show ?thesis
    using div_mult_mod_eq [of n 10] div_mult_mod_eq [of "n div 10" 10] div_mult_mod_eq [of "n div 100" 10]
    by linarith
qed

lemma digit_char_neq [simp]:
  "0 \<le> d \<Longrightarrow> d \<le> 9 \<Longrightarrow> \<not> is_ascii_digit c \<Longrightarrow> digit_char d \<noteq> c"
  "0 \<le> d \<Longrightarrow> d \<le> 9 \<Longrightarrow> \<not> is_ascii_digit c \<Longrightarrow> c \<noteq> digit_char d"
  by (metis digit_char_digit(1))+

lemma not_digit [simp]:
  "\<not> is_ascii_digit (CHR ''-'')" "\<not> is_ascii_digit (CHR '':'')" "\<not> is_ascii_digit (CHR ''+'')"
  "\<not> is_ascii_digit (CHR ''.'')" "\<not> is_ascii_digit (CHR '','')" "\<not> is_ascii_digit (CHR ''Z'')"
  "\<not> is_ascii_digit (CHR ''z'')" "\<not> is_ascii_digit (CHR ''T'')" "\<not> is_ascii_digit (CHR ''['')"
  by code_simp+

subsection \<open>Dates\<close>

lemma month_new_get: "month_new (month_get m) = Some m"
  by (cases m) (simp_all add: month_new_def month_new_unchecked_def)

lemma div_10_range: fixes n :: int shows "0 \<le> n \<Longrightarrow> n < 100 \<Longrightarrow> 0 \<le> n div 10 \<and> n div 10 \<le> 9"
  by (simp add: pos_imp_zdiv_nonneg_iff)

lemma mod_10_range: fixes n :: int shows "0 \<le> n mod 10 \<and> n mod 10 \<le> 9"
  using pos_mod_bound [of 10 n] by simp

lemma two_digits_of:
  assumes "0 \<le> n" and "n < 100"
  obtains a b where "0 \<le> a" "a \<le> 9" "0 \<le> b" "b \<le> 9" "n = a * 10 + b"
    and "format_2_digits n = [digit_char a, digit_char b]"
  using assms div_10_range mod_10_range [of n] format_2_digits_eq
  by (intro that [of "n div 10" "n mod 10"]) auto

lemma four_digits_of:
  assumes "0 \<le> n" and "n < 10000"
  obtains a b c d where "0 \<le> a" "a \<le> 9" "0 \<le> b" "b \<le> 9" "0 \<le> c" "c \<le> 9" "0 \<le> d" "d \<le> 9"
    and "n = a * 1000 + b * 100 + c * 10 + d"
    and "format_4_digits n = [digit_char a, digit_char b, digit_char c, digit_char d]"
proof -
  have "0 \<le> n div 1000" "n div 1000 \<le> 9" using assms by (simp_all add: pos_imp_zdiv_nonneg_iff)
  then show ?thesis
    using that [OF _ _ mod_10_range [THEN conjunct1] mod_10_range [THEN conjunct2]
        mod_10_range [THEN conjunct1] mod_10_range [THEN conjunct2] mod_10_range [THEN conjunct1]
        mod_10_range [THEN conjunct2] four_digits [OF assms(1), symmetric] format_4_digits_eq [OF assms]]
    by blast
qed

lemma date_digits:
  assumes "date_ok x"
  obtains a b c d e f g h where
    "0 \<le> a" "a \<le> 9" "0 \<le> b" "b \<le> 9" "0 \<le> c" "c \<le> 9" "0 \<le> d" "d \<le> 9"
    "0 \<le> e" "e \<le> 9" "0 \<le> f" "f \<le> 9" "0 \<le> g" "g \<le> 9" "0 \<le> h" "h \<le> 9"
    and "d_year x = Year (a * 1000 + b * 100 + c * 10 + d)"
    and "month_get (d_month x) = e * 10 + f" and "d_day x = g * 10 + h"
    and "date_iso_format x basic = [digit_char a, digit_char b, digit_char c, digit_char d]
      @ (if basic then [] else ''-'') @ [digit_char e, digit_char f]
      @ (if basic then [] else ''-'') @ [digit_char g, digit_char h]"
proof -
  have y: "0 \<le> year_get (d_year x)" "year_get (d_year x) < 10000" and k: "0 \<le> d_day x" "d_day x < 100"
    using assms days_in_month_range(2) [of "d_year x" "d_month x"] by (auto simp: date_ok_def year_ok_def)
  have m: "0 \<le> month_get (d_month x)" "month_get (d_month x) < 100"
    using month_get_range [of "d_month x"] by linarith+
  show ?thesis
    by (rule four_digits_of [OF y]; rule two_digits_of [OF m]; rule two_digits_of [OF k]; rule that)
      (simp_all add: date_iso_format_def year.expand)
qed

lemma date_new_fields: "date_ok x \<Longrightarrow> date_new (d_year x) (d_month x) (d_day x) = Some x"
  by (simp add: date_new_def date_ok_def)

lemma date_parse_format:
  assumes "date_ok x"
  shows date_parse_extended_format: "date_parse_iso_extended (date_iso_format x False) = Some x"
    and date_parse_basic_format: "date_parse_iso_basic (date_iso_format x True) = Some x"
proof -
  have y: "0 < year_get (d_year x)" using assms by (simp add: date_ok_def year_ok_def)
  note date_new_fields [OF assms] month_new_get [of "d_month x"]
  note facts = this y
  show "date_parse_iso_extended (date_iso_format x False) = Some x"
    by (rule date_digits [OF assms, of False]) (use facts in \<open>simp add: date_parse_iso_extended_def
      extract_year_def extract_2_digits_def extract_digit_def numeral_nat\<close>)
  show "date_parse_iso_basic (date_iso_format x True) = Some x"
    by (rule date_digits [OF assms, of True]) (use facts in \<open>simp add: date_parse_iso_basic_def
      extract_year_def extract_2_digits_def extract_digit_def numeral_nat\<close>)
qed

lemma date_format_length: "date_ok x \<Longrightarrow> length (date_iso_format x basic) = date_iso_len basic"
  by (rule date_digits [of x basic]) (auto simp: date_iso_len_def)

subsection \<open>Fractions of a second\<close>

text \<open>The digit of \<open>n\<close> at a place after the point, and what the digits add up to.\<close>

definition frac_digit :: "int \<Rightarrow> nat \<Rightarrow> int" where
  "frac_digit n i = n div 10 ^ (9 - i) mod 10"

lemma frac_digit_range [simp]: "0 \<le> frac_digit n i" "frac_digit n i \<le> 9"
  using mod_10_range by (simp_all add: frac_digit_def)

lemma frac_sum:
  assumes "l \<le> 9"
  shows "(\<Sum>i\<in>{1..<Suc l}. frac_digit n i * 10 ^ (9 - i)) = n mod 10 ^ 9 - n mod 10 ^ (9 - l)"
  using assms
proof (induction l)
  case (Suc l)
  define k where "k = 9 - Suc l"
  have k: "9 - l = Suc k" using Suc.prems by (simp add: k_def)
  have "n mod (10 ^ k * 10) = 10 ^ k * (n div 10 ^ k mod 10) + n mod 10 ^ k"
    by (rule zmod_zmult2_eq) simp
  then have "n mod 10 ^ Suc k = n mod 10 ^ k + frac_digit n (Suc l) * 10 ^ k"
    by (simp add: frac_digit_def k_def mult.commute)
  moreover have "{1..<Suc (Suc l)} = insert (Suc l) {1..<Suc l}" by auto
  then have "(\<Sum>i\<in>{1..<Suc (Suc l)}. frac_digit n i * 10 ^ (9 - i))
      = frac_digit n (Suc l) * 10 ^ k + (n mod 10 ^ 9 - n mod 10 ^ Suc k)"
    using Suc.IH Suc.prems k by (simp add: k_def del: power_Suc)
  ultimately show ?case by (simp add: k_def del: power_Suc)
qed simp

lemma frac_sum_9:
  assumes "0 \<le> n" and "n < 1000000000"
  shows "(\<Sum>i\<in>{1..<10}. frac_digit n i * 10 ^ (9 - i)) = n"
proof -
  have "n mod 10 ^ 9 = n" "n mod 10 ^ (9 - 9) = 0" using assms by simp_all
  then show ?thesis using frac_sum [of 9 n] by (simp only: eval_nat_numeral) simp
qed

lemma frac_sum_cut:
  assumes "0 \<le> n" "n < 1000000000" "l \<le> 9" and "\<forall>i\<in>{Suc l..<10}. frac_digit n i = 0"
  shows "(\<Sum>i\<in>{1..<Suc l}. frac_digit n i * 10 ^ (9 - i)) = n"
proof -
  have "(\<Sum>i\<in>{1..<Suc l}. frac_digit n i * 10 ^ (9 - i)) + (\<Sum>i\<in>{Suc l..<10}. frac_digit n i * 10 ^ (9 - i))
      = (\<Sum>i\<in>{1..<10}. frac_digit n i * 10 ^ (9 - i))"
    using assms(3) by (intro sum.atLeastLessThan_concat) auto
  moreover have "(\<Sum>i\<in>{Suc l..<10}. frac_digit n i * 10 ^ (9 - i)) = 0"
    by (rule sum.neutral) (use assms(4) in simp)
  ultimately show ?thesis using frac_sum_9 [OF assms(1,2)] by linarith
qed

text \<open>What may follow a fraction, so that its reader stops there.\<close>

definition no_digit :: "bytes \<Rightarrow> bool" where
  "no_digit s \<longleftrightarrow> (case s of [] \<Rightarrow> True | c # _ \<Rightarrow> \<not> is_ascii_digit c)"

definition stops :: "bytes \<Rightarrow> bool" where
  "stops s \<longleftrightarrow> no_digit s \<and> (s \<noteq> [] \<longrightarrow> hd s \<notin> {CHR ''.'', CHR '','', CHR '':''})"

lemma scan_subsec_digits_none: "no_digit s \<Longrightarrow> scan_subsec_digits p tally s = (tally, s)"
  by (cases p; cases s) (simp_all add: no_digit_def)

lemma scan_subsec_digits_map:
  assumes "\<And>i. 0 \<le> f i \<and> f i \<le> 9" and "b = 10 \<or> no_digit rest" and "a \<le> b" and "b \<le> 10"
  shows "scan_subsec_digits (10 - a) tally (map (\<lambda>i. digit_char (f i)) [a..<b] @ rest)
    = (tally + (\<Sum>i\<in>{a..<b}. f i * 10 ^ (9 - i)), rest)"
  using assms(3,4)
proof (induction "b - a" arbitrary: a tally)
  case 0
  then have "a = b" by simp
  then show ?case using assms(2) scan_subsec_digits_none by auto
next
  case (Suc k)
  then have a: "a < b" "k = b - Suc a" by simp_all
  then have "10 - a = Suc (9 - a)" "[a..<b] = a # [Suc a..<b]" "{a..<b} = insert a {Suc a..<b}"
    using Suc.prems by (auto simp: upt_conv_Cons)
  then show ?case
    using Suc.hyps(1) [OF a(2), of "tally + f a * 10 ^ (9 - a)"] a Suc.prems assms(1) [of a]
    by simp
qed

lemma scan_digit_char [simp]:
  "0 \<le> d \<Longrightarrow> d \<le> 9 \<Longrightarrow> scan_digit (digit_char d # s) = (Some d, s)"
  by (simp add: scan_digit_def scan_transform_def scan_peek_def)

lemma scan_subsec_fraction:
  assumes "1 \<le> l" and "l \<le> 9" and "l = 9 \<or> no_digit rest"
  shows "scan_subsec (CHR ''.'' # map (\<lambda>i. digit_char (frac_digit n i)) [1..<Suc l] @ rest)
    = (Some (SubSecNanos (\<Sum>i\<in>{1..<Suc l}. frac_digit n i * 10 ^ (9 - i))), rest)"
proof -
  have "[1..<Suc l] = 1 # [2..<Suc l]" "{1..<Suc l} = insert 1 {2..<Suc l}"
    using assms(1) by (auto simp: upt_conv_Cons numeral_2_eq_2)
  moreover have "scan_subsec_digits (10 - 2) (frac_digit n 1 * 100000000)
      (map (\<lambda>i. digit_char (frac_digit n i)) [2..<Suc l] @ rest)
    = (frac_digit n 1 * 100000000 + (\<Sum>i\<in>{2..<Suc l}. frac_digit n i * 10 ^ (9 - i)), rest)"
    using assms by (intro scan_subsec_digits_map) auto
  ultimately show ?thesis
    by (simp add: scan_subsec_def scan_peek_def scan_bind_def scan_match_def)
qed

lemma scan_subsec_absent: "stops rest \<Longrightarrow> scan_subsec rest = (Some (SubSecNanos 0), rest)"
  by (cases rest) (auto simp: scan_subsec_def scan_peek_def stops_def subsec_min_def)

text \<open>The digits that are printed.\<close>

lemma last_significant_le: "last_significant buf n \<le> n"
  by (induction n) auto

lemma last_significant_zeros: "last_significant buf n < j \<Longrightarrow> j \<le> n \<Longrightarrow> buf ! j = CHR ''0''"
proof (induction n)
  case (Suc n)
  then show ?case by (cases "j = Suc n") (auto split: if_splits)
qed simp

lemma digit_char_zero: "0 \<le> d \<Longrightarrow> d \<le> 9 \<Longrightarrow> digit_char d = CHR ''0'' \<longleftrightarrow> d = 0"
proof -
  assume "0 \<le> d" "d \<le> 9"
  moreover have "byte (CHR ''0'') = 48" by code_simp
  ultimately show ?thesis using byte_digit_char [of d] byte_inject by fastforce
qed

lemma subsec_text:
  assumes "0 \<le> n" and "n < 1000000000" and "u \<in> {PAuto, PNanosecond}"
  obtains "take (case u of PAuto \<Rightarrow> snd (subsec_iso_format (SubSecNanos n)) | _ \<Rightarrow> 10)
      (fst (subsec_iso_format (SubSecNanos n))) = []" "n = 0"
    | l where "1 \<le> l" "l \<le> 9" "(\<Sum>i\<in>{1..<Suc l}. frac_digit n i * 10 ^ (9 - i)) = n"
      "take (case u of PAuto \<Rightarrow> snd (subsec_iso_format (SubSecNanos n)) | _ \<Rightarrow> 10)
        (fst (subsec_iso_format (SubSecNanos n)))
       = CHR ''.'' # map (\<lambda>i. digit_char (frac_digit n i)) [1..<Suc l]"
proof -
  define buf where "buf = CHR ''.'' # map (\<lambda>i. digit_char (frac_digit n i)) [1..<10]"
  have full: "take 10 buf = CHR ''.'' # map (\<lambda>i. digit_char (frac_digit n i)) [1..<Suc 9]"
    by (simp add: buf_def)
  consider "n = 0" "u = PAuto" | "n = 0" "u = PNanosecond" | "n \<noteq> 0" "u = PNanosecond" | "n \<noteq> 0" "u = PAuto"
    using assms(3) by auto
  then show ?thesis
  proof cases
    case 1
    then show ?thesis using that(1) by (simp add: subsec_iso_format_def)
  next
    case 2
    have "''.000000000'' = CHR ''.'' # map (\<lambda>i. digit_char (frac_digit 0 i)) [1..<Suc 9]" by code_simp
    with 2 show ?thesis using that(2) [of 9] by (simp add: subsec_iso_format_def frac_digit_def)
  next
    case 3
    then show ?thesis using that(2) [of 9] full frac_sum_9 [OF assms(1,2)]
      by (simp add: subsec_iso_format_def Let_def buf_def frac_digit_def)
  next
    case 4
    define l where "l = last_significant buf 9"
    have nth: "buf ! j = digit_char (frac_digit n j)" if "1 \<le> j" "j \<le> 9" for j
    proof -
      obtain k where "j = Suc k" "k < 9" using \<open>1 \<le> j\<close> \<open>j \<le> 9\<close> by (cases j) auto
      then show ?thesis by (simp add: buf_def nth_upt)
    qed
    have zeros: "\<forall>i\<in>{Suc l..<10}. frac_digit n i = 0"
      using last_significant_zeros [of buf 9] nth by (fastforce simp: l_def digit_char_zero)
    have l9: "l \<le> 9" by (simp add: l_def last_significant_le)
    have sum: "(\<Sum>i\<in>{1..<Suc l}. frac_digit n i * 10 ^ (9 - i)) = n"
      using frac_sum_cut [OF assms(1,2) l9 zeros] .
    with 4 have l1: "1 \<le> l" by (cases l) auto
    have "take (Suc l) buf = CHR ''.'' # map (\<lambda>i. digit_char (frac_digit n i)) [1..<Suc l]"
      using l9 by (simp add: buf_def take_map)
    moreover have "subsec_iso_format (SubSecNanos n) = (buf, l + 1)"
      using 4 l1 by (simp add: subsec_iso_format_def Let_def buf_def l_def frac_digit_def)
    ultimately show ?thesis using that(2) [OF l1 l9 sum] 4 by simp
  qed
qed

subsection \<open>Times of day\<close>

lemmas scan_simps = scan_bind_def scan_match_def scan_return_def scan_fail_def scan_lift_def

lemma digit_char_le_5: "0 \<le> d \<Longrightarrow> d \<le> 9 \<Longrightarrow> 48 \<le> byte (digit_char d) \<and> (byte (digit_char d) \<le> 53 \<longleftrightarrow> d \<le> 5)"
  by simp

lemma scan_digits00_59_format [simp]:
  assumes "0 \<le> n" and "n < 60"
  shows "scan_digits00_59 (format_2_digits n @ s) = (Some n, s)"
proof -
  obtain a b where ab: "0 \<le> a" "a \<le> 9" "0 \<le> b" "b \<le> 9" "n = a * 10 + b"
    and "format_2_digits n = [digit_char a, digit_char b]"
    by (rule two_digits_of [of n]) (use assms in auto)
  then show ?thesis using assms by (simp add: scan_digits00_59_def)
qed

lemma scan_digits00_60_leap_format [simp]:
  assumes "0 \<le> n" and "n < 60"
  shows "scan_digits00_60_leap (format_2_digits n @ s) = (Some n, s)"
proof -
  obtain a b where ab: "0 \<le> a" "a \<le> 9" "0 \<le> b" "b \<le> 9" "n = a * 10 + b"
    and "format_2_digits n = [digit_char a, digit_char b]"
    by (rule two_digits_of [of n]) (use assms in auto)
  then show ?thesis using assms by (simp add: scan_digits00_60_leap_def)
qed

lemma scan_digits00_23_format [simp]:
  assumes "0 \<le> n" and "n < 24"
  shows "scan_digits00_23 (format_2_digits n @ s) = (Some n, s)"
proof -
  obtain a b where ab: "0 \<le> a" "a \<le> 9" "0 \<le> b" "b \<le> 9" "n = a * 10 + b"
    and "format_2_digits n = [digit_char a, digit_char b]"
    by (rule two_digits_of [of n]) (use assms in auto)
  then show ?thesis using assms by (simp add: scan_digits00_23_def)
qed

lemma scan_advance_on_Cons [simp]: "scan_advance_on c (c # s) = (Some True, s)"
  by (simp add: scan_advance_on_def scan_peek_def)

lemma format_2_digits_length [simp]: "length (format_2_digits n) = 2"
  by (simp add: format_2_digits_def Let_def)

lemma format_2_digits_third:
  "scan_get (format_2_digits a @ s) 2 = scan_get s 0"
  by (simp add: scan_get_def nth_append)

lemma format_2_digits_hd_digit:
  assumes "0 \<le> n" and "n < 100"
  shows "\<exists>c r. format_2_digits n = c # r \<and> is_ascii_digit c"
  by (rule two_digits_of [OF assms]) auto

lemma scan_subsec_text:
  assumes "0 \<le> n" and "n < 1000000000" and "u \<in> {PAuto, PNanosecond}" and "stops rest"
  shows "scan_subsec (take (case u of PAuto \<Rightarrow> snd (subsec_iso_format (SubSecNanos n)) | _ \<Rightarrow> 10)
      (fst (subsec_iso_format (SubSecNanos n))) @ rest) = (Some (SubSecNanos n), rest)"
proof (rule subsec_text [OF assms(1-3)])
  assume "n = 0" and t: "take (case u of PAuto \<Rightarrow> snd (subsec_iso_format (SubSecNanos n)) | _ \<Rightarrow> 10)
      (fst (subsec_iso_format (SubSecNanos n))) = []"
  with scan_subsec_absent [OF assms(4)] show ?thesis by (simp only: t append_Nil)
next
  fix l
  assume l: "1 \<le> l" "l \<le> 9" and sum: "(\<Sum>i\<in>{1..<Suc l}. frac_digit n i * 10 ^ (9 - i)) = n"
    and t: "take (case u of PAuto \<Rightarrow> snd (subsec_iso_format (SubSecNanos n)) | _ \<Rightarrow> 10)
        (fst (subsec_iso_format (SubSecNanos n)))
       = CHR ''.'' # map (\<lambda>i. digit_char (frac_digit n i)) [1..<Suc l]"
  show ?thesis
    using scan_subsec_fraction [OF l, of rest n] assms(4) sum
    by (simp only: t append_Cons stops_def) simp
qed

lemma time_format_parts:
  assumes "u \<in> {PAuto, PNanosecond}"
  shows "time_iso_format t u basic = format_2_digits (t_hour t) @ (if basic then [] else '':'')
    @ format_2_digits (t_minute t) @ (if basic then [] else '':'') @ format_2_digits (t_second t)
    @ take (case u of PAuto \<Rightarrow> snd (subsec_iso_format (t_subsec t)) | _ \<Rightarrow> 10) (fst (subsec_iso_format (t_subsec t)))"
  using assms by (auto simp: time_iso_format_def split: prod.split)

lemma time_read_format:
  assumes "time_ok t" and "u \<in> {PAuto, PNanosecond}" and "stops rest"
  shows "time_read_iso (time_iso_format t u basic @ rest) = (Some t, rest)"
proof -
  obtain h m s n where t: "t = \<lparr>t_hour = h, t_minute = m, t_second = s, t_subsec = SubSecNanos n\<rparr>"
    by (cases t; cases "t_subsec t") auto
  have ok: "0 \<le> h" "h < 24" "0 \<le> m" "m < 60" "0 \<le> s" "s < 60" "0 \<le> n" "n < 1000000000"
    using assms(1) by (auto simp: t time_ok_def subsec_ok_def bound_defs)
  note sub = scan_subsec_text [OF ok(7,8) assms(2,3)]
  note parts = time_format_parts [OF assms(2), of t basic, unfolded t time.select_convs]
  have "scan_get (format_2_digits m @ y) 0 \<noteq> Some (CHR '':'')" for y
    using format_2_digits_hd_digit [of m] ok by (auto simp: scan_get_def)
  with ok show ?thesis unfolding t parts
    by (cases basic)
      (simp_all add: time_read_iso_def format_2_digits_third time_read_iso_basic_def
        time_read_iso_extended_def scan_simps sub, simp_all add: scan_get_def)
qed

lemma time_parse_format:
  assumes "time_ok t" and "u \<in> {PAuto, PNanosecond}"
  shows "time_parse_iso (time_iso_format t u basic) = Some t"
  using time_read_format [OF assms, of "[]" basic]
  by (simp add: time_parse_iso_def scan_parse_all_def scan_is_done_def scan_peek_def stops_def no_digit_def)

subsection \<open>Offsets\<close>

lemma scan_none_on [simp]:
  "scan_digits00_59 [] = (None, [])" "scan_advance_on c [] = (None, [])"
  by (simp_all add: scan_digits00_59_def scan_advance_on_def scan_peek_def)

lemma scan_digits00_59_stop: "no_digit s \<Longrightarrow> scan_digits00_59 s = (None, s)"
  by (cases s rule: remdups_adj.cases) (auto simp: scan_digits00_59_def no_digit_def is_ascii_digit_def)

lemma advance_on_digits:
  assumes "0 \<le> n" and "n < 100" and "\<not> is_ascii_digit c"
  shows "scan_advance_on c (format_2_digits n @ s) = (Some False, format_2_digits n @ s)"
proof -
  obtain d r where "format_2_digits n = d # r" "is_ascii_digit d"
    using format_2_digits_hd_digit [OF assms(1,2)] by auto
  with assms(3) show ?thesis by (auto simp: scan_advance_on_def scan_peek_def)
qed

lemma scan_advance_on_stop: "stops s \<Longrightarrow> scan_advance_on (CHR '':'') s = (if s = [] then None else Some False, s)"
  by (cases s) (auto simp: scan_advance_on_def scan_peek_def stops_def)

lemma offset_read_format:
  assumes "offset_ok x" and "stops rest"
  shows "offset_read_iso (offset_format_write (offset_iso_format x basic) @ rest) = (Some x, rest)"
proof -
  define v where "v = \<bar>offset_get x\<bar>"
  define h m s where "h = v div 3600" and "m = v div 60 mod 60" and "s = v mod 60"
  have v: "0 \<le> v" "v < 86400" using assms(1) by (auto simp: v_def offset_ok_def bound_defs)
  have h: "0 \<le> h" "h < 24" using v by (simp_all add: h_def pos_imp_zdiv_nonneg_iff)
  have m: "0 \<le> m" "m < 60" and s: "0 \<le> s" "s < 60" by (simp_all add: m_def s_def)
  have sum: "h * 3600 + m * 60 + s = v"
  proof -
    have "h = v div 60 div 60" by (simp add: h_def zdiv_zmult2_eq [symmetric])
    then have "h * 60 + m = v div 60" by (simp add: m_def)
    moreover have "v div 60 * 60 + s = v" unfolding s_def by (rule div_mult_mod_eq)
    ultimately show ?thesis by linarith
  qed
  have nd: "no_digit rest" using assms(2) by (simp add: stops_def)
  have fmt: "offset_iso_format x basic = \<lparr>of_sign_char = (if offset_get x < 0 then CHR ''-'' else CHR ''+''),
      of_hrs = h, of_mins = m, of_secs = s, of_basic = basic\<rparr>"
    using h m s by (simp add: offset_iso_format_def Let_def v_def [symmetric] h_def m_def s_def)
  have min: "offset_read_minutes (h * 3600) ((if \<not> basic then '':'' else []) @ format_2_digits m
      @ (if s \<noteq> 0 then (if \<not> basic then '':'' else []) @ format_2_digits s else []) @ rest) = (Some v, rest)"
    using m s sum [symmetric] scan_digits00_59_stop [OF nd]
    by (cases basic) (auto simp: offset_read_minutes_def scan_simps advance_on_digits scan_advance_on_stop [OF assms(2)])
  have sign: "offset_with_sign (Offset v) (if offset_get x < 0 then Minus else Plus) = x"
    by (cases x) (auto simp: offset_with_sign_def v_def)
  from min sign h show ?thesis unfolding offset_format_write_def fmt
    by (cases "offset_get x < 0"; cases basic; cases "s = 0")
      (simp_all add: offset_read_iso_def scan_simps scan_next_def)
qed

subsection \<open>Date-times\<close>

lemma take_date_text:
  assumes "date_ok d"
  shows "take (date_iso_len basic) (date_iso_format d basic @ s) = date_iso_format d basic"
    and "drop (date_iso_len basic) (date_iso_format d basic @ s) = s"
  using date_format_length [OF assms] by simp_all

lemma time_format_min_length: "u \<in> {PAuto, PNanosecond} \<Longrightarrow> 4 \<le> length (time_iso_format t u basic)"
  by (simp add: time_format_parts)

lemma digit_no_sep: "is_ascii_digit c \<Longrightarrow> \<not> is_datetime_sep c"
  by (auto simp: is_datetime_sep_def is_ascii_digit_def byte_def)

lemma format_2_digits_second_digit:
  assumes "0 \<le> n" and "n < 100"
  shows "is_ascii_digit ((format_2_digits n @ s) ! Suc 0)"
  by (rule two_digits_of [OF assms]) auto

lemma pdt_read_format_sep:
  assumes "date_ok d" and "time_ok t" and "u \<in> {PAuto, PNanosecond}" and "stops rest"
    and sep: "is_datetime_sep c"
  shows "pdt_read_iso (date_iso_format d basic @ c # time_iso_format t u basic2 @ rest)
    = (Some \<lparr>pdt_date = d, pdt_time = t\<rparr>, rest)"
proof -
  let ?txt = "date_iso_format d basic @ c # time_iso_format t u basic2 @ rest"
  note len = date_format_length [OF assms(1)] take_date_text [OF assms(1)]
  have long: "\<not> length ?txt < 11"
    using len(1) [of basic] time_format_min_length [OF assms(3), of t basic2] by (simp add: date_iso_len_def split: if_splits)
  have time: "time_read_iso (scan_skip 1 (c # time_iso_format t u basic2 @ rest)) = (Some t, rest)"
    using time_read_format [OF assms(2,3,4)] by (simp add: scan_skip_def)
  show ?thesis
  proof (cases basic)
    case True
    have l: "length (date_iso_format d True) = 8" using len(1) [of True] by (simp add: date_iso_len_def)
    then have "\<not> is_datetime_sep (?txt ! 10)" "?txt ! 8 = c"
      using format_2_digits_second_digit [of "t_hour t"] assms(2,3) True
      by (auto simp: nth_append [of _ _ 8] nth_append [of _ _ 10] time_format_parts time_ok_def
          intro!: digit_no_sep simp del: format_2_digits_length)
    with True l long time sep show ?thesis
      by (simp add: pdt_read_iso_def scan_take_unchecked_def date_parse_basic_format [OF assms(1)]
          scan_simps)
  next
    case False
    have l: "length (date_iso_format d False) = 10" using len(1) [of False] by (simp add: date_iso_len_def)
    with False long time sep show ?thesis
      by (simp add: pdt_read_iso_def scan_take_unchecked_def date_parse_extended_format [OF assms(1)]
          nth_append scan_simps)
  qed
qed

lemma pdt_read_format:
  assumes "date_ok d" and "time_ok t" and "u \<in> {PAuto, PNanosecond}" and "stops rest"
  shows "pdt_read_iso (date_iso_format d basic @ CHR ''T'' # time_iso_format t u basic2 @ rest)
    = (Some \<lparr>pdt_date = d, pdt_time = t\<rparr>, rest)"
  by (rule pdt_read_format_sep [OF assms]) (simp add: is_datetime_sep_def)

lemma pdt_parse_format:
  assumes "pdt_ok p" and "u \<in> {PAuto, PNanosecond}"
  shows "pdt_parse_iso (date_iso_format (pdt_date p) basic @ CHR ''T'' # time_iso_format (pdt_time p) u basic2)
    = Some p"
  using pdt_read_format [of "pdt_date p" "pdt_time p" u "[]" basic basic2] assms
  by (simp add: pdt_parse_iso_def scan_parse_all_def scan_is_done_def scan_peek_def stops_def no_digit_def
      pdt_ok_def)

lemma offset_format_stops: "stops (offset_format_write (offset_iso_format x basic) @ s)"
  by (auto simp: offset_format_write_def offset_iso_format_def Let_def stops_def no_digit_def)

lemma skip_tzname_nil [simp]: "skip_tzname [] = (Some (), [])"
  by (simp add: skip_tzname_def scan_simps)

lemma odt_parse_format_sep:
  assumes "odt_ok x" and "u \<in> {PAuto, PNanosecond}" and "is_datetime_sep c"
  shows "odt_parse_iso (date_iso_format (odt_date x) b @ c # time_iso_format (odt_time x) u b'
     @ offset_format_write (offset_iso_format (odt_offset x) b'')) = Some x"
proof -
  have ok: "date_ok (odt_date x)" "time_ok (odt_time x)" "offset_ok (odt_offset x)"
    using assms(1) by (auto simp: odt_ok_def)
  have "pdt_assume_offset \<lparr>pdt_date = odt_date x, pdt_time = odt_time x\<rparr> (odt_offset x) = Some x"
    using assms(1) by (cases x) (auto simp: pdt_assume_offset_def odt_new_def odt_ok_def odt_to_plain_def)
  moreover have "stops []" by (simp add: stops_def no_digit_def)
  ultimately show ?thesis
    using pdt_read_format_sep [OF ok(1,2) assms(2) offset_format_stops [of "odt_offset x" b'' "[]"] assms(3), of b b']
      offset_read_format [OF ok(3), of "[]" b'']
    by (simp add: odt_parse_iso_def odt_read_iso_def scan_parse_all_def scan_is_done_def scan_peek_def scan_simps)
qed

lemma odt_parse_format:
  assumes "odt_ok x" and "u \<in> {PAuto, PNanosecond}"
  shows "odt_parse_iso (date_iso_format (odt_date x) b @ CHR ''T'' # time_iso_format (odt_time x) u b'
     @ offset_format_write (offset_iso_format (odt_offset x) b'')) = Some x"
  by (rule odt_parse_format_sep [OF assms]) (simp add: is_datetime_sep_def)

subsection \<open>What the readers return\<close>

lemma digit_val_range: "is_ascii_digit c \<Longrightarrow> 0 \<le> digit_val c \<and> digit_val c \<le> 9"
  by (simp add: is_ascii_digit_def digit_val_def)

lemma scan_two_digits_range:
  "scan_digits00_23 s = (Some n, r) \<Longrightarrow> 0 \<le> n \<and> n < 24"
  "scan_digits00_59 s = (Some n, r) \<Longrightarrow> 0 \<le> n \<and> n < 60"
  "scan_digits00_60_leap s = (Some n, r) \<Longrightarrow> 0 \<le> n \<and> n < 60"
  by (auto simp: scan_digits00_23_def scan_digits00_59_def scan_digits00_60_leap_def Let_def
      is_ascii_digit_def digit_val_def split: list.splits if_splits)

lemma scan_subsec_digits_range:
  "scan_subsec_digits p tally s = (v, r) \<Longrightarrow> tally \<le> v \<and> v < tally + 10 ^ p"
proof (induction p tally s rule: scan_subsec_digits.induct)
  case (2 p tally s)
  show ?case
  proof (cases s)
    case (Cons c r')
    show ?thesis
    proof (cases "is_ascii_digit c")
      case True
      have "tally + digit_val c * 10 ^ p \<le> v \<and> v < tally + digit_val c * 10 ^ p + 10 ^ p"
        using 2 Cons True by simp
      moreover have "0 \<le> digit_val c * 10 ^ p" using digit_val_range [OF True] by simp
      moreover have "digit_val c * 10 ^ p \<le> 9 * 10 ^ p"
        by (rule mult_right_mono) (use digit_val_range [OF True] in simp_all)
      ultimately show ?thesis by (simp only: power_Suc) linarith
    qed (use 2 Cons in simp)
  qed (use 2 in simp)
qed auto

lemma scan_digit_range: "scan_digit s = (Some d, r) \<Longrightarrow> 0 \<le> d \<and> d \<le> 9"
  using digit_val_range
  by (auto simp: scan_digit_def scan_transform_def split: option.splits if_splits bind_splits)

lemma scan_subsec_range:
  assumes "scan_subsec s = (Some n, r)"
  shows "subsec_ok n"
proof (cases "scan_peek s = Some (CHR ''.'') \<or> scan_peek s = Some (CHR '','')")
  case True
  with assms obtain d s' v where d: "scan_digit (drop 1 s) = (Some d, s')"
    and v: "scan_subsec_digits 8 (d * 100000000) s' = (v, r)" "n = SubSecNanos v"
    by (auto simp: scan_subsec_def scan_simps split: prod.splits option.splits)
  show ?thesis using scan_digit_range [OF d] scan_subsec_digits_range [OF v(1)] v(2)
    by (auto simp: subsec_ok_def bound_defs)
next
  case False
  with assms show ?thesis by (auto simp: scan_subsec_def subsec_ok_def bound_defs)
qed

lemma scan_bind_Some:
  "scan_bind m f s = (Some y, r) \<longleftrightarrow> (\<exists>x s'. m s = (Some x, s') \<and> f x s' = (Some y, r))"
  by (auto simp: scan_simps split: prod.splits option.splits)

lemma scan_match_eq: "scan_match m f s = p \<longleftrightarrow> (\<exists>x s'. m s = (x, s') \<and> f x s' = p)"
  by (auto simp: scan_match_def split: prod.splits)

lemma subsec_zero_ok: "subsec_ok (SubSecNanos subsec_min)"
  by (simp add: subsec_ok_def bound_defs)

lemma time_read_ok:
  assumes "time_read_iso s = (Some t, r)"
  shows "time_ok t"
proof -
  note ranges = scan_two_digits_range scan_subsec_range
  have "time_read_iso_extended s = (Some t, r) \<Longrightarrow> time_ok t"
    by (auto simp: time_read_iso_extended_def scan_bind_Some scan_match_eq scan_return_def scan_lift_def time_ok_def
        split: if_splits bind_splits dest!: ranges simp: subsec_zero_ok)
  moreover have "time_read_iso_basic s = (Some t, r) \<Longrightarrow> time_ok t"
    by (auto simp: time_read_iso_basic_def scan_bind_Some scan_match_eq scan_return_def time_ok_def
        split: option.splits dest!: ranges simp: subsec_zero_ok)
  ultimately show ?thesis using assms by (auto simp: time_read_iso_def split: if_splits)
qed

lemma extract_digit_range: "extract_digit s i = Some d \<Longrightarrow> 0 \<le> d \<and> d \<le> 9"
  using digit_val_range by (auto simp: extract_digit_def Let_def split: if_splits)

lemma extract_year_ok: "extract_year s i = Some y \<Longrightarrow> year_ok y"
  by (auto simp: extract_year_def year_ok_def Let_def split: if_splits dest!: extract_digit_range)

lemma date_new_ok: "year_ok y \<Longrightarrow> date_new y m d = Some x \<Longrightarrow> date_ok x"
  by (auto simp: date_new_def date_ok_def split: if_splits)

lemma date_parse_ok:
  "date_parse_iso_extended s = Some d \<Longrightarrow> date_ok d"
  "date_parse_iso_basic s = Some d \<Longrightarrow> date_ok d"
  by (auto simp: date_parse_iso_extended_def date_parse_iso_basic_def split: if_splits
      dest: extract_year_ok date_new_ok)

lemma offset_minutes_range:
  assumes "offset_read_minutes v s = (Some w, r)"
  shows "v \<le> w \<and> w < v + 3600"
proof -
  obtain a s1 where a: "scan_advance_on (CHR '':'') s = (a, s1)" by fastforce
  note ranges = scan_two_digits_range(2)
  consider "a = None" | "a = Some True" | "a = Some False" by (cases a) auto
  then show ?thesis
  proof cases
    case 1
    with assms a show ?thesis by (simp add: offset_read_minutes_def scan_match_def scan_return_def)
  next
    case 2
    with assms a obtain m s2 where m: "scan_digits00_59 s1 = (Some m, s2)"
      and rest: "scan_match (scan_advance_on (CHR '':'')) (\<lambda>r. if r = Some True
          then scan_bind scan_digits00_59 (\<lambda>s. scan_return (v + m * 60 + s))
          else scan_return (v + m * 60)) s2 = (Some w, r)"
      by (auto simp: offset_read_minutes_def scan_match_def scan_bind_Some)
    from rest obtain k where "0 \<le> k" "k < 60" "w = v + m * 60 + k"
      by (auto simp: scan_match_eq scan_bind_Some scan_return_def split: if_splits dest!: ranges)
    with ranges [OF m] show ?thesis by linarith
  next
    case 3
    obtain q s2 where q: "scan_digits00_59 s1 = (q, s2)" by fastforce
    show ?thesis
    proof (cases q)
      case None
      with 3 assms a q show ?thesis by (simp add: offset_read_minutes_def scan_match_def scan_return_def)
    next
      case (Some m)
      obtain q' s3 where q': "scan_digits00_59 s2 = (q', s3)" by fastforce
      have "w = v + m * 60 + (case q' of None \<Rightarrow> 0 | Some k \<Rightarrow> k)"
        using 3 assms a q q' Some
        by (auto simp: offset_read_minutes_def scan_match_def scan_return_def split: option.splits)
      with q q' Some show ?thesis by (auto dest!: ranges split: option.splits)
    qed
  qed
qed

lemma offset_read_ok: "offset_read_iso s = (Some x, r) \<Longrightarrow> offset_ok x"
  by (auto simp: offset_read_iso_def scan_bind_Some scan_match_eq scan_return_def scan_fail_def offset_ok_def
      offset_zero_def offset_with_sign_def bound_defs
      split: if_splits dest!: scan_two_digits_range offset_minutes_range)

lemma pdt_read_ok:
  assumes "pdt_read_iso s = (Some p, r)"
  shows "pdt_ok p"
proof (cases "length s < 11")
  case False
  define ds where "ds = (if is_datetime_sep (s ! 10)
      then (case scan_take_unchecked 10 s of (b, s') \<Rightarrow> (date_parse_iso_extended b, s'))
      else if is_datetime_sep (s ! 8)
      then (case scan_take_unchecked 8 s of (b, s') \<Rightarrow> (date_parse_iso_basic b, s'))
      else (None, s))"
  obtain d s' where ds': "ds = (d, s')" by (cases ds)
  have "pdt_read_iso s = scan_bind (scan_lift d) (\<lambda>date.
      scan_bind (\<lambda>s. time_read_iso (scan_skip 1 s)) (\<lambda>time. scan_return \<lparr>pdt_date = date, pdt_time = time\<rparr>)) s'"
    unfolding pdt_read_iso_def using False by (simp add: ds_def [symmetric] ds')
  with assms obtain x t where "d = Some x" "time_read_iso (scan_skip 1 s') = (Some t, r)"
    "p = \<lparr>pdt_date = x, pdt_time = t\<rparr>"
    by (auto simp: scan_bind_Some scan_lift_def scan_return_def)
  moreover have "date_ok x" if "d = Some x"
    using that ds' by (auto simp: ds_def dest: date_parse_ok split: if_splits prod.splits)
  ultimately show ?thesis by (simp add: pdt_ok_def time_read_ok)
qed (use assms in \<open>simp add: pdt_read_iso_def\<close>)

lemma odt_read_ok:
  assumes "odt_read_iso s = (Some x, r)"
  shows "odt_ok x"
proof -
  obtain p s1 o1 s2 where "pdt_read_iso s = (Some p, s1)" "offset_read_iso s1 = (Some o1, s2)"
    and "pdt_assume_offset p o1 = Some x"
    using assms by (auto simp: odt_read_iso_def scan_bind_Some scan_lift_def scan_return_def)
  then show ?thesis using assume_offset_ok pdt_read_ok offset_read_ok by blast
qed

lemma scan_parse_all_Some: "scan_parse_all f s = Some x \<Longrightarrow> \<exists>r. f s = (Some x, r)"
  by (auto simp: scan_parse_all_def split: prod.splits if_splits)

subsection \<open>The properties\<close>

text \<open>A date that is printed in the basic or the extended ISO 8601 format takes exactly the
  number of bytes that its length promises (the buffer is allocated with it), and
  \<open>Date::parse_iso\<close> reads the date back.\<close>

theorem iso_date_roundtrip:
  assumes "date_ok d"
  shows "date_parse_iso (date_iso_format d basic) = Some d
    \<and> length (date_iso_format d basic) = date_iso_len basic"
  using date_format_length [OF assms] date_parse_format [OF assms]
  by (cases basic) (simp_all add: date_parse_iso_def date_iso_len_def)

theorem iso_date_roundtrip_witness:
  "date_parse_iso (date_iso_format date_max True) = Some date_max
    \<and> length (date_iso_format date_max True) = date_iso_len True"
  by (rule iso_date_roundtrip [OF date_max_ok])

text \<open>A time of day printed with automatic or nanosecond precision, in either format, is read
  back exactly by \<open>Time::parse_iso\<close>: the printer drops only trailing zeros, and the reader
  scales the digits that are left.\<close>

theorem iso_time_roundtrip:
  assumes "time_ok t" and "u = PAuto \<or> u = PNanosecond"
  shows "time_parse_iso (time_iso_format t u basic) = Some t"
  using time_parse_format assms by simp

theorem iso_time_roundtrip_witness:
  "time_parse_iso (time_iso_format time_max PAuto True) = Some time_max"
proof -
  have "time_ok time_max" by code_simp
  then show ?thesis using iso_time_roundtrip [of time_max PAuto True] by simp
qed

text \<open>An offset date-time printed with its UTC offset is read back exactly by
  \<open>OffsetDateTime::parse_iso\<close>, whatever formats are chosen for the three parts.\<close>

theorem iso_offset_datetime_roundtrip:
  assumes "odt_ok x"
  shows "odt_parse_iso (date_iso_format (odt_date x) b @ CHR ''T'' # time_iso_format (odt_time x) PAuto b'
     @ offset_format_write (offset_iso_format (odt_offset x) b'')) = Some x"
  using odt_parse_format [OF assms] by simp

theorem iso_offset_datetime_roundtrip_witness:
  "odt_parse_iso (date_iso_format date_min False @ CHR ''T'' # time_iso_format time_max PAuto False
     @ offset_format_write (offset_iso_format (Offset (-3723)) True))
   = Some \<lparr>odt_date = date_min, odt_time = time_max, odt_offset = Offset (-3723)\<rparr>"
proof -
  have "odt_ok \<lparr>odt_date = date_min, odt_time = time_max, odt_offset = Offset (-3723)\<rparr>" by code_simp
  from iso_offset_datetime_roundtrip [OF this, of False False True] show ?thesis by simp
qed

text \<open>C14. Whatever bytes the ISO readers are given, a value they return satisfies the invariant of
  its type: field ranges and the length of the month, and for an offset date-time an instant in
  range, which the code elsewhere relies on without checking.\<close>

theorem iso_parse_well_formed:
  "pred_option date_ok (date_parse_iso s) \<and> pred_option time_ok (time_parse_iso s)
   \<and> pred_option pdt_ok (pdt_parse_iso s) \<and> pred_option odt_ok (odt_parse_iso s)"
  using date_parse_ok [of s] time_read_ok [of s] pdt_read_ok [of s] odt_read_ok [of s]
  by (auto simp: pred_option_def date_parse_iso_def time_parse_iso_def pdt_parse_iso_def odt_parse_iso_def
      dest!: scan_parse_all_Some split: if_splits)

end
