(* ===== verification/Posix_Facts.thy ===== *)
theory Posix_Facts
  imports Posix Iso_Facts
begin

section \<open>What POSIX rules mean\<close>

text \<open>
  The date that a rule names, when a rule's local time is what it says, how the query by local
  time inverts the query by instant, when the search for transitions moves strictly, and what the
  parser lets through.
\<close>

subsection \<open>Rules\<close>

text \<open>What the parser builds (\<open>NonZeroU8\<close> in 1..=4, days in 1..=366 and 1..=365), and
  the range of a rule's time that RFC 9636 allows.\<close>

fun rule_ok :: "rule \<Rightarrow> bool" where
  "rule_ok (NthWeekday n w m) \<longleftrightarrow> 1 \<le> n \<and> n \<le> 4"
| "rule_ok (DayOfYear d) \<longleftrightarrow> 1 \<le> d \<and> d \<le> 366"
| "rule_ok (JulianDayOfYear d) \<longleftrightarrow> 1 \<le> d \<and> d \<le> 365"
| "rule_ok (LastWeekday w m) \<longleftrightarrow> True"

definition rule_time_ok :: "rule \<times> transition_time \<Rightarrow> bool" where
  "rule_time_ok r \<longleftrightarrow> rule_ok (fst r) \<and> \<bar>snd r\<bar> \<le> 601200"

definition dst_ok :: "dst \<Rightarrow> bool" where
  "dst_ok d \<longleftrightarrow> offset_ok (dst_offset d) \<and> rule_time_ok (dst_start d) \<and> rule_time_ok (dst_end d)"

definition tz_ok :: "tz_str \<Rightarrow> bool" where
  "tz_ok tz \<longleftrightarrow> offset_ok (tz_std tz) \<and> (case tz_dst tz of None \<Rightarrow> True | Some d \<Rightarrow> dst_ok d)"

abbreviation year_days :: "year \<Rightarrow> int" where
  "year_days y \<equiv> (if year_is_leap y then 366 else 365)"

lemma jan1_eq: "year_unix_days_at_jan1 y = UnixDays (year_days_before y + unix_days_min)"
  by (simp add: year_unix_days_at_jan1_def year_days_before_def Let_def bound_defs)

lemma year_day_date:
  assumes "year_ok y" and "1 \<le> j" and "j \<le> year_days y"
  defines "x \<equiv> unix_days_date (unix_days_add_unchecked (year_unix_days_at_jan1 y) (j - 1))"
  shows "date_ok x \<and> d_year x = y \<and> date_day_of_year x = j"
proof -
  let ?n = "year_days_before y + unix_days_min + (j - 1)"
  have "0 \<le> year_days_before y"
    using days_before_mono [of 1 "year_get y"] assms(1) by (simp add: year_ok_def year_days_before_def)
  moreover have "year_days_before y + year_days y \<le> 3652059"
  proof -
    have "year_days_before y + year_days y = year_days_before (Year (year_get y + 1))"
      using next_year_day [of y] by simp
    also have "\<dots> \<le> year_days_before (Year 10000)"
      using assms(1) by (intro days_before_mono) (simp add: year_ok_def)
    finally show ?thesis by (simp add: year_days_before_def)
  qed
  ultimately have "unix_days_ok (UnixDays ?n)" using assms(2,3) by (auto simp: unix_days_ok_iff bound_defs)
  then have "date_ok x" "day_number x = ?n"
    unfolding x_def by (simp_all add: jan1_eq unix_days_add_unchecked_def unix_days_date_ok date_unix_days_date)
  then show ?thesis using year_of_day [of x y j] assms(2,3) by simp
qed

lemma nth_weekday_total:
  assumes "year_ok y" and "n = -1 \<or> 1 \<le> n \<and> n \<le> 4"
  shows "date_nth_weekday_in_month y m n w \<noteq> None"
proof -
  have "0 \<le> k mod 7 \<and> k mod 7 \<le> 6" for k :: int using pos_mod_bound [of 7 k] by simp
  then show ?thesis
    using assms(2) days_in_month_range(1) [of y m]
    by (auto simp: date_nth_weekday_in_month_def Let_def)
qed

definition common_days_before :: "month \<Rightarrow> int" where
  "common_days_before m = days_before_month ! 0 ! nat (month_get m)"

lemma julian_day:
  assumes "date_ok x" and "date_day_of_year x = d + (if year_is_leap (d_year x) \<and> d > 59 then 1 else 0)"
    and "1 \<le> d" and "d \<le> 365"
  shows "common_days_before (d_month x) + d_day x = d \<and> \<not> (d_month x = February \<and> d_day x = 29)"
  using assms
  by (cases "d_month x")
    (auto simp: date_ok_def date_day_of_year_def common_days_before_def tables_by_month days_before_month_def
      split: if_splits)

fun names_date :: "rule \<Rightarrow> year \<Rightarrow> date \<Rightarrow> bool" where
  "names_date (DayOfYear d) y x \<longleftrightarrow> date_day_of_year x = min d (year_days y)"
| "names_date (JulianDayOfYear d) y x \<longleftrightarrow>
     common_days_before (d_month x) + d_day x = d \<and> \<not> (d_month x = February \<and> d_day x = 29)"
| "names_date (LastWeekday w m) y x \<longleftrightarrow>
     d_month x = m \<and> date_day_of_week x = w \<and> year_days_in_month y m < d_day x + 7"
| "names_date (NthWeekday n w m) y x \<longleftrightarrow>
     d_month x = m \<and> date_day_of_week x = w \<and> 7 * (n - 1) < d_day x \<and> d_day x \<le> 7 * n"

lemma week_of_month: "7 * (n - 1) < k \<and> k \<le> 7 * n" if "(k - 1) div 7 = n - 1" for k n :: int
proof -
  define r where "r = (k - 1) mod 7"
  have r: "0 \<le> r" "r < 7" by (simp_all add: r_def)
  have e: "(n - 1) * 7 + r = k - 1" using div_mult_mod_eq [of "k - 1" 7] unfolding that r_def .
  have "7 * (n - 1) < k" using r e by presburger
  moreover have "k \<le> 7 * n" using r e by presburger
  ultimately show ?thesis by blast
qed

lemma rule_date_aux:
  assumes "year_ok y" and "rule_ok r"
  shows "date_ok (rule_date r y) \<and> d_year (rule_date r y) = y \<and> names_date r y (rule_date r y)"
proof (cases r)
  case (DayOfYear d)
  then show ?thesis
    using year_day_date [OF assms(1), of "min d (year_days y)"] assms(2) by (cases "year_is_leap y") auto
next
  case (JulianDayOfYear d)
  define j where "j = d + (if year_is_leap y \<and> d > 59 then 1 else 0)"
  have j: "1 \<le> j" "j \<le> year_days y" using JulianDayOfYear assms(2) by (auto simp: j_def)
  have "rule_date r y = unix_days_date (unix_days_add_unchecked (year_unix_days_at_jan1 y) (j - 1))"
    by (simp add: JulianDayOfYear j_def algebra_simps)
  with year_day_date [OF assms(1) j]
  have x: "date_ok (rule_date r y)" "d_year (rule_date r y) = y" "date_day_of_year (rule_date r y) = j"
    by simp_all
  moreover have "1 \<le> d" "d \<le> 365" using JulianDayOfYear assms(2) by auto
  ultimately show ?thesis using julian_day [of "rule_date r y" d] JulianDayOfYear by (simp add: j_def)
next
  case (LastWeekday w m)
  obtain x where x: "date_nth_weekday_in_month y m (-1) w = Some x"
    using nth_weekday_total [OF assms(1), of "-1" m w] by auto
  then have "rule_date r y = x" by (simp add: LastWeekday)
  with nth_weekday_in_month_aux [OF assms(1), of "-1" m w x] x LastWeekday show ?thesis
    by (simp add: div_eq_0_iff) (auto simp: zdiv_eq_0_iff date_ok_def)
next
  case (NthWeekday n w m)
  then have n: "1 \<le> n" "n \<le> 4" using assms(2) by auto
  obtain x where x: "date_nth_weekday_in_month y m n w = Some x"
    using nth_weekday_total [OF assms(1), of n m w] n by auto
  then have "rule_date r y = x" by (simp add: NthWeekday)
  moreover have "date_ok x \<and> d_year x = y \<and> d_month x = m \<and> date_day_of_week x = w \<and> (d_day x - 1) div 7 = n - 1"
    using nth_weekday_in_month_aux [OF assms(1), of n m w x] x n by simp
  moreover have "7 * (n - 1) < d_day x \<and> d_day x \<le> 7 * n" if "(d_day x - 1) div 7 = n - 1"
    using week_of_month [OF that] .
  ultimately show ?thesis using NthWeekday by simp
qed

text \<open>C15. For every year and every rule that the parser can build, the date of the rule
  exists (the two \<open>unwrap\<close>s of \<open>Rule::for_year\<close> never panic and the unchecked day
  numbers are in range) and is the one POSIX names: the given day counted from January 1st
  (clamped to the last day of the year), the given day of a year without leap day, which is
  never February 29th, or the n-th or last given weekday of the month.\<close>

theorem posix_rule_date:
  assumes "year_ok y" and "rule_ok r"
  shows "date_ok (rule_date r y) \<and> d_year (rule_date r y) = y \<and> names_date r y (rule_date r y)"
  using assms by (rule rule_date_aux)

theorem posix_rule_date_witness:
  "date_ok (rule_date (JulianDayOfYear 60) (Year 2024)) \<and> d_year (rule_date (JulianDayOfYear 60) (Year 2024)) = Year 2024
    \<and> names_date (JulianDayOfYear 60) (Year 2024) (rule_date (JulianDayOfYear 60) (Year 2024))"
proof -
  have "year_ok (Year 2024)" "rule_ok (JulianDayOfYear 60)" by code_simp+
  then show ?thesis by (rule posix_rule_date)
qed

subsection \<open>The local time of a rule\<close>

lemma year_before_after:
  assumes "2 \<le> year_get y" and "year_get y \<le> 9998" and "date_ok x" and "d_year x = y"
  shows "-718797 \<le> day_number x" and "day_number x \<le> 2932531"
proof -
  have r: "1 \<le> date_day_of_year x" "date_day_of_year x \<le> year_days y"
    using day_of_year_range [OF assms(3)] assms(4) by auto
  have "year_days_before (Year 2) \<le> year_days_before y"
    using days_before_mono [of 2 "year_get y"] assms(1) by simp
  moreover have "year_days_before y + year_days y \<le> year_days_before (Year 9999)"
    using days_before_mono [of "year_get y + 1" 9999] next_year_day [of y] assms(2) by simp
  moreover have "year_days_before (Year 2) = 365" "year_days_before (Year 9999) = 3651694"
    by (simp_all add: year_days_before_def)
  ultimately show "-718797 \<le> day_number x" and "day_number x \<le> 2932531"
    using r day_number_in_year [of x] assms(4) by (simp_all add: bound_defs)
qed

lemma rule_for_year_get:
  assumes "2 \<le> year_get y" and "year_get y \<le> 9998" and "rule_ok r" and "\<bar>tm\<bar> \<le> 601200"
  shows "ls_get (rule_for_year r y tm) = day_number (rule_date r y) * 86400 + tm"
proof -
  have "date_ok (rule_date r y)" "d_year (rule_date r y) = y"
    using rule_date_aux [of y r] assms(1-3) by (simp_all add: year_ok_def)
  note b = year_before_after [OF assms(1,2) this]
  then have "epoch_min \<le> day_number (rule_date r y) * 86400 + tm" "day_number (rule_date r y) * 86400 + tm \<le> epoch_max"
    using assms(4) by (simp_all add: epoch_bounds)
  then show ?thesis
    by (simp add: rule_for_year_def ls_saturating_add_i32_def ls_get_def epoch_saturating_add_i32_def epoch_clamp_def
        pdt_local_seconds_def date_at_def date_epoch_at_def unix_days_epoch_at_def time_min_def
        time_total_seconds_def s_per_day_def)
qed

lemma rule_for_year_range:
  assumes "2 \<le> year_get y" and "year_get y \<le> 9998" and "rule_ok r" and "\<bar>tm\<bar> \<le> 601200"
  shows "epoch_min + 172800 \<le> ls_get (rule_for_year r y tm)" and "ls_get (rule_for_year r y tm) \<le> epoch_max - 172800"
proof -
  have "date_ok (rule_date r y)" "d_year (rule_date r y) = y"
    using rule_date_aux [of y r] assms(1-3) by (simp_all add: year_ok_def)
  note b = year_before_after [OF assms(1,2) this]
  with assms(4) show "epoch_min + 172800 \<le> ls_get (rule_for_year r y tm)"
    and "ls_get (rule_for_year r y tm) \<le> epoch_max - 172800"
    by (simp_all add: rule_for_year_get [OF assms] epoch_bounds)
qed

subsection \<open>Local times and instants\<close>

text \<open>The offset of an instant (in seconds) between two transitions, and the offsets that a
  mapping allows.\<close>

definition between_offset :: "int \<Rightarrow> int \<Rightarrow> offset \<Rightarrow> offset \<Rightarrow> int \<Rightarrow> offset" where
  "between_offset u1 u2 a b u = (if u < u1 then a else if u < u2 then b else a)"

fun mapping_offsets :: "local_mapping \<Rightarrow> offset set" where
  "mapping_offsets (Unique x) = {x}"
| "mapping_offsets (Fold t a b) = {a, b}"
| "mapping_offsets (Gap t a b) = {}"

lemma local_less: "(s :: local_seconds) < t \<longleftrightarrow> ls_get s < ls_get t"
  by (simp add: less_local_seconds_def less_epoch_secs_def ls_get_def)

lemma saturating_add_get:
  "epoch_min \<le> ls_get t + n \<Longrightarrow> ls_get t + n \<le> epoch_max \<Longrightarrow> ls_get (ls_saturating_add_i32 t n) = ls_get t + n"
  by (simp add: ls_saturating_add_i32_def ls_get_def epoch_saturating_add_i32_def epoch_clamp_def)

lemma transitions_mapping_inverts:
  assumes "s = offset_get b - offset_get a"
    and "ls_get t1 + 2 * \<bar>s\<bar> \<le> ls_get t2"
    and "epoch_min + 172800 \<le> ls_get t1" and "ls_get t2 \<le> epoch_max - 172800"
    and "offset_ok a" and "offset_ok b"
  shows "{x. \<exists>u. u + offset_get x = ls_get t
        \<and> between_offset (ls_get t1 - offset_get a) (ls_get t2 - offset_get b) a b u = x}
    = mapping_offsets (transitions_mapping t1 t2 a b s t)"
proof -
  have s: "\<bar>s\<bar> \<le> 172800" using assms(1,5,6) by (auto simp: offset_ok_def bound_defs abs_le_iff)
  have add: "ls_get (ls_saturating_add_i32 t1 s) = ls_get t1 + s"
    "ls_get (ls_saturating_add_i32 t2 (- s)) = ls_get t2 - s"
    using assms(2,3,4) s by (subst saturating_add_get; simp)+
  define u1 u2 T where "u1 = ls_get t1 - offset_get a" and "u2 = ls_get t2 - offset_get b" and "T = ls_get t"
  have iff: "(\<exists>u. u + offset_get x = T \<and> between_offset u1 u2 a b u = x)
      \<longleftrightarrow> between_offset u1 u2 a b (T - offset_get x) = x" for x
  proof
    assume "\<exists>u. u + offset_get x = T \<and> between_offset u1 u2 a b u = x"
    then obtain u where "u = T - offset_get x" "between_offset u1 u2 a b u = x" by force
    then show "between_offset u1 u2 a b (T - offset_get x) = x" by simp
  qed (auto intro: exI [of _ "T - offset_get x"])
  show ?thesis
  proof (cases "a = b")
    case True
    then have "transitions_mapping t1 t2 a b s t = Unique a"
      using assms(1) add by (auto simp: transitions_mapping_def local_less)
    with True show ?thesis
      unfolding u1_def [symmetric] u2_def [symmetric] T_def [symmetric] iff by (auto simp: between_offset_def)
  next
    case False
    then have ne: "s \<noteq> 0" using assms(1) offset.expand by auto
    have a: "between_offset u1 u2 a b (T - offset_get a) = a \<longleftrightarrow> T < ls_get t1 \<or> ls_get t2 - s \<le> T"
      using False assms(1,2) by (auto simp: between_offset_def u1_def u2_def)
    have b: "between_offset u1 u2 a b (T - offset_get b) = b \<longleftrightarrow> ls_get t1 + s \<le> T \<and> T < ls_get t2"
      using False assms(1) by (auto simp: between_offset_def u1_def u2_def)
    have x: "between_offset u1 u2 a b u = x \<Longrightarrow> x = a \<or> x = b" for u x
      by (auto simp: between_offset_def split: if_splits)
    have "between_offset u1 u2 a b (T - offset_get x) = x \<longleftrightarrow>
        x = a \<and> (T < ls_get t1 \<or> ls_get t2 - s \<le> T) \<or> x = b \<and> ls_get t1 + s \<le> T \<and> T < ls_get t2" for x
      using a b x [of "T - offset_get x" x] by metis
    note set = this
    have "{x. between_offset u1 u2 a b (T - offset_get x) = x}
        = (if T < ls_get t1 \<or> ls_get t2 - s \<le> T then {a} else {})
          \<union> (if ls_get t1 + s \<le> T \<and> T < ls_get t2 then {b} else {})"
      unfolding set by auto
    moreover have "mapping_offsets (transitions_mapping t1 t2 a b s t)
        = (if T < ls_get t1 \<or> ls_get t2 - s \<le> T then {a} else {})
          \<union> (if ls_get t1 + s \<le> T \<and> T < ls_get t2 then {b} else {})"
    proof (cases "s \<ge> 0")
      case True
      with assms(2) have "ls_get t1 \<le> ls_get t1 + s" "ls_get t1 + s \<le> ls_get t2 - s" "ls_get t2 - s \<le> ls_get t2"
        by linarith+
      with True show ?thesis by (auto simp: transitions_mapping_def local_less add T_def [symmetric])
    next
      case False
      with assms(2) have "ls_get t1 + s < ls_get t1" "ls_get t1 < ls_get t2" "ls_get t2 < ls_get t2 - s"
        by linarith+
      with False show ?thesis by (auto simp: transitions_mapping_def local_less add T_def [symmetric])
    qed
    ultimately show ?thesis
      unfolding u1_def [symmetric] u2_def [symmetric] T_def [symmetric] iff by simp
  qed
qed

lemma to_epoch_saturating_get:
  assumes "epoch_min + 172800 \<le> ls_get l" and "ls_get l \<le> epoch_max - 172800" and "offset_ok x"
  shows "epoch_get (ls_to_epoch_saturating l x) = ls_get l - offset_get x"
  using assms by (auto simp: ls_to_epoch_saturating_def epoch_saturating_shift_by_offset_def epoch_clamp_def
      offset_neg_def ls_get_def offset_ok_def bound_defs)

text \<open>The local times of the two rules in a year.\<close>

definition start_local :: "dst \<Rightarrow> year \<Rightarrow> int" where
  "start_local d y = ls_get (rule_for_year (fst (dst_start d)) y (snd (dst_start d)))"

definition end_local :: "dst \<Rightarrow> year \<Rightarrow> int" where
  "end_local d y = ls_get (rule_for_year (fst (dst_end d)) y (snd (dst_end d)))"

lemma rule_locals_range:
  assumes "dst_ok d" and "2 \<le> year_get y" and "year_get y \<le> 9998"
  shows "epoch_min + 172800 \<le> start_local d y" "start_local d y \<le> epoch_max - 172800"
    "epoch_min + 172800 \<le> end_local d y" "end_local d y \<le> epoch_max - 172800"
  using rule_for_year_range [OF assms(2,3)] assms(1)
  by (auto simp: dst_ok_def rule_time_ok_def start_local_def end_local_def)

lemma utc_transitions_get:
  assumes "tz_ok tz" and "tz_dst tz = Some d" and "2 \<le> year_get y" and "year_get y \<le> 9998"
  obtains se ee where "tz_utc_transitions tz y = Some ((se, dst_offset d), (ee, tz_std tz))"
    and "epoch_get se = start_local d y - offset_get (tz_std tz)"
    and "epoch_get ee = end_local d y - offset_get (dst_offset d)"
proof (rule that)
  have d: "dst_ok d" "offset_ok (tz_std tz)" "offset_ok (dst_offset d)"
    using assms(1,2) by (auto simp: tz_ok_def dst_ok_def)
  note r = rule_locals_range [OF d(1) assms(3,4)]
  show "tz_utc_transitions tz y = Some
      ((ls_to_epoch_saturating (rule_for_year (fst (dst_start d)) y (snd (dst_start d))) (tz_std tz), dst_offset d),
       (ls_to_epoch_saturating (rule_for_year (fst (dst_end d)) y (snd (dst_end d))) (dst_offset d), tz_std tz))"
    by (simp add: tz_utc_transitions_def assms(2) split: prod.split)
  show "epoch_get (ls_to_epoch_saturating (rule_for_year (fst (dst_start d)) y (snd (dst_start d))) (tz_std tz))
      = start_local d y - offset_get (tz_std tz)"
    using to_epoch_saturating_get d(2) r(1,2) by (simp add: start_local_def)
  show "epoch_get (ls_to_epoch_saturating (rule_for_year (fst (dst_end d)) y (snd (dst_end d))) (dst_offset d))
      = end_local d y - offset_get (dst_offset d)"
    using to_epoch_saturating_get d(3) r(3,4) by (simp add: end_local_def)
qed

lemma epoch_less: "(e :: epoch_secs) < f \<longleftrightarrow> epoch_get e < epoch_get f"
  and epoch_le: "(e :: epoch_secs) \<le> f \<longleftrightarrow> epoch_get e \<le> epoch_get f"
  by (simp_all add: less_epoch_secs_def less_eq_epoch_secs_def)

lemma offset_in_year:
  assumes "tz_ok tz" and "tz_dst tz = Some d" and "y = tz_local_year tz u"
    and "2 \<le> year_get y" and "year_get y \<le> 9998"
    and apart: "2 * \<bar>offset_get (dst_offset d) - offset_get (tz_std tz)\<bar> \<le> \<bar>start_local d y - end_local d y\<bar>"
  shows "tz_offset_for_instant tz u = (if start_local d y < end_local d y
    then between_offset (start_local d y - offset_get (tz_std tz)) (end_local d y - offset_get (dst_offset d))
           (tz_std tz) (dst_offset d) (epoch_get u)
    else between_offset (end_local d y - offset_get (dst_offset d)) (start_local d y - offset_get (tz_std tz))
           (dst_offset d) (tz_std tz) (epoch_get u))"
proof -
  obtain se ee where tr: "tz_utc_transitions tz y = Some ((se, dst_offset d), (ee, tz_std tz))"
    and se: "epoch_get se = start_local d y - offset_get (tz_std tz)"
    and ee: "epoch_get ee = end_local d y - offset_get (dst_offset d)"
    using utc_transitions_get [OF assms(1,2,4,5)] by blast
  have eq: "tz_offset_for_instant tz u = (if (if se < ee then se \<le> u \<and> u < ee else \<not> (ee \<le> u \<and> u < se))
      then dst_offset d else tz_std tz)"
    by (simp add: tz_offset_for_instant_def tz_is_dst_at_def assms(2) assms(3) [symmetric] tr)
  show ?thesis
  proof (cases "start_local d y < end_local d y")
    case True
    with apart have "se < ee" unfolding epoch_less se ee by (auto simp: abs_if split: if_split_asm)
    with True eq show ?thesis by (auto simp: between_offset_def epoch_less epoch_le se ee)
  next
    case False
    with apart have "\<not> se < ee" unfolding epoch_less se ee by (auto simp: abs_if split: if_split_asm)
    with False eq show ?thesis by (auto simp: between_offset_def epoch_less epoch_le se ee)
  qed
qed

lemma mapping_in_year:
  assumes "tz_ok tz" and "tz_dst tz = Some d" and "y = d_year (ls_date t)"
    and "2 \<le> year_get y" and "year_get y \<le> 9998"
    and apart: "2 * \<bar>offset_get (dst_offset d) - offset_get (tz_std tz)\<bar> \<le> \<bar>start_local d y - end_local d y\<bar>"
  shows "mapping_offsets (tz_mapping_for_local tz t) = {x. \<exists>u. u + offset_get x = ls_get t
    \<and> (if start_local d y < end_local d y
       then between_offset (start_local d y - offset_get (tz_std tz)) (end_local d y - offset_get (dst_offset d))
              (tz_std tz) (dst_offset d) u
       else between_offset (end_local d y - offset_get (dst_offset d)) (start_local d y - offset_get (tz_std tz))
              (dst_offset d) (tz_std tz) u) = x}"
proof -
  have d: "dst_ok d" "offset_ok (tz_std tz)" "offset_ok (dst_offset d)"
    using assms(1,2) by (auto simp: tz_ok_def dst_ok_def)
  note r = rule_locals_range [OF d(1) assms(4,5)]
  define s e where "s = rule_for_year (fst (dst_start d)) y (snd (dst_start d))"
    and "e = rule_for_year (fst (dst_end d)) y (snd (dst_end d))"
  have get: "ls_get s = start_local d y" "ls_get e = end_local d y"
    by (simp_all add: s_def e_def start_local_def end_local_def)
  have map: "tz_mapping_for_local tz t = (if s < e
      then transitions_mapping s e (tz_std tz) (dst_offset d) (offset_get (dst_offset d) - offset_get (tz_std tz)) t
      else transitions_mapping e s (dst_offset d) (tz_std tz) (offset_get (tz_std tz) - offset_get (dst_offset d)) t)"
    by (simp add: tz_mapping_for_local_def assms(2) assms(3) [symmetric] s_def e_def offset_sub_def split: prod.split)
  show ?thesis
  proof (cases "start_local d y < end_local d y")
    case True
    then show ?thesis
      using transitions_mapping_inverts [where ?t1.0 = s and ?t2.0 = e and a = "tz_std tz" and b = "dst_offset d" and t = t, OF refl]
        r d apart by (simp add: map local_less get)
  next
    case False
    then show ?thesis
      using transitions_mapping_inverts [where ?t1.0 = e and ?t2.0 = s and a = "dst_offset d" and b = "tz_std tz" and t = t, OF refl]
        r d apart by (simp add: map local_less get abs_minus_commute)
  qed
qed

text \<open>Where the two queries of a rule agree: the instant and the local time lie in one year (2 to
  9998) of the rule, and its transitions of that year are at least twice the size of the shift apart.
  A rule without summer time has one offset.\<close>

definition rule_agrees :: "tz_str \<Rightarrow> epoch_secs \<Rightarrow> local_seconds \<Rightarrow> bool" where
  "rule_agrees tz u t \<longleftrightarrow>
     (case tz_dst tz of
        None \<Rightarrow> True
      | Some d \<Rightarrow>
          (let y = d_year (ls_date t)
           in tz_local_year tz u = y \<and> 2 \<le> year_get y \<and> year_get y \<le> 9998
              \<and> 2 * \<bar>offset_get (dst_offset d) - offset_get (tz_std tz)\<bar> \<le> \<bar>start_local d y - end_local d y\<bar>))"

lemma rule_mapping_inverts:
  assumes "tz_ok tz" and "rule_agrees tz u t"
  shows "epoch_get u + offset_get (tz_offset_for_instant tz u) = ls_get t
    \<longleftrightarrow> (\<exists>x \<in> mapping_offsets (tz_mapping_for_local tz t). epoch_get u + offset_get x = ls_get t)"
proof (cases "tz_dst tz")
  case None
  then show ?thesis by (simp add: tz_offset_for_instant_def tz_mapping_for_local_def tz_is_dst_at_def tz_utc_transitions_def)
next
  case (Some d)
  with assms(2) have y: "d_year (ls_date t) = tz_local_year tz u" "2 \<le> year_get (d_year (ls_date t))"
    "year_get (d_year (ls_date t)) \<le> 9998"
    "2 * \<bar>offset_get (dst_offset d) - offset_get (tz_std tz)\<bar>
      \<le> \<bar>start_local d (d_year (ls_date t)) - end_local d (d_year (ls_date t))\<bar>"
    by (simp_all add: rule_agrees_def Let_def)
  show ?thesis
    unfolding offset_in_year [OF assms(1) Some y] mapping_in_year [OF assms(1) Some refl y(2-4)]
    by (auto simp: between_offset_def split: if_splits)
qed

text \<open>C16. The two queries of a POSIX rule agree: an instant has a local time under
  \<open>offset_for_instant\<close> exactly when \<open>mapping_for_local\<close> allows the offset that leads from one
  to the other: the unique one, either of the two in a fold, none in a gap. This holds for a rule
  without summer time, and otherwise for an instant and a local time of the same year of the rule
  (2 to 9998) whose two transitions lie at least twice the size of the shift apart.\<close>

theorem posix_mapping_inverts_offset:
  assumes "tz_ok tz" and "rule_agrees tz u t"
  shows "epoch_get u + offset_get (tz_offset_for_instant tz u) = ls_get t
    \<longleftrightarrow> (\<exists>x \<in> mapping_offsets (tz_mapping_for_local tz t). epoch_get u + offset_get x = ls_get t)"
  using assms by (rule rule_mapping_inverts)

theorem posix_mapping_inverts_offset_witness:
  "\<exists>tz t. tz_parse ''EST5EDT,M3.2.0,M11.1.0'' = Some tz
    \<and> (epoch_get (EpochSecs 1730608200) + offset_get (tz_offset_for_instant tz (EpochSecs 1730608200)) = ls_get t
      \<longleftrightarrow> (\<exists>x \<in> mapping_offsets (tz_mapping_for_local tz t). epoch_get (EpochSecs 1730608200) + offset_get x = ls_get t))"
proof -
  define d where "d = \<lparr>dst_offset = Offset (-14400), dst_start = (NthWeekday 2 Sunday March, 7200),
    dst_end = (NthWeekday 1 Sunday November, 7200), dst_abbrev = \<lparr>tz_data = ''EDT'' @ replicate 5 (CHR 0x00), tz_len = 3\<rparr>\<rparr>"
  define tz where "tz = \<lparr>tz_std = Offset (-18000), tz_dst = Some d,
    tz_std_abbrev = \<lparr>tz_data = ''EST'' @ replicate 5 (CHR 0x00), tz_len = 3\<rparr>\<rparr>"
  define t where "t = LocalSeconds (EpochSecs 1730593800)"
  note defs = tz_def d_def t_def
  have "tz_parse ''EST5EDT,M3.2.0,M11.1.0'' = Some tz" unfolding defs by code_simp
  moreover have "tz_ok tz" unfolding defs by code_simp
  moreover have "rule_agrees tz (EpochSecs 1730608200) t" unfolding defs by code_simp
  ultimately show ?thesis using posix_mapping_inverts_offset [of tz "EpochSecs 1730608200" t] by blast
qed

subsection \<open>The parser\<close>

text \<open>Every value that a scanner can return satisfies the predicate.\<close>

definition yields :: "'a scanner \<Rightarrow> ('a \<Rightarrow> bool) \<Rightarrow> bool" where
  "yields m P \<longleftrightarrow> (\<forall>s x r. m s = (Some x, r) \<longrightarrow> P x)"

lemma yields_return [simp]: "yields (scan_return x) P \<longleftrightarrow> P x"
  and yields_fail [simp]: "yields scan_fail P"
  and yields_lift [simp]: "yields (scan_lift v) P \<longleftrightarrow> pred_option P v"
  by (auto simp: yields_def scan_simps pred_option_def)

lemma yields_mono: "yields m P \<Longrightarrow> (\<And>x. P x \<Longrightarrow> Q x) \<Longrightarrow> yields m Q"
  by (auto simp: yields_def)

lemma yieldsD: "yields m P \<Longrightarrow> m s = (Some x, r) \<Longrightarrow> P x"
  by (auto simp: yields_def)

lemma yields_match:
  assumes "yields m P" and "\<And>x. pred_option P x \<Longrightarrow> yields (f x) Q"
  shows "yields (scan_match m f) Q"
  unfolding yields_def
proof (intro allI impI)
  fix s x r
  assume m: "scan_match m f s = (Some x, r)"
  obtain v s' where v: "m s = (v, s')" by (cases "m s")
  have "pred_option P v" using yieldsD [OF assms(1)] v by (cases v) auto
  from assms(2) [OF this] m v show "Q x" by (auto simp: scan_match_def yields_def)
qed

lemma yields_bind:
  assumes "yields m P" and "\<And>x. P x \<Longrightarrow> yields (f x) Q"
  shows "yields (scan_bind m f) Q"
  unfolding scan_bind_def
  by (rule yields_match [OF assms(1)]) (auto simp: assms(2) split: option.split)

lemma yields_any: "yields m (\<lambda>_. True)"
  by (simp add: yields_def)

lemma yields_if: "(b \<Longrightarrow> yields m P) \<Longrightarrow> (\<not> b \<Longrightarrow> yields n P) \<Longrightarrow> yields (if b then m else n) P"
  by simp

lemma yields_branch:
  "yields m P \<Longrightarrow> yields n P \<Longrightarrow> yields (\<lambda>s. if b s then m s else n s) P"
  by (auto simp: yields_def)

lemma yields_transform: "(\<And>c x. f c = Some x \<Longrightarrow> P x) \<Longrightarrow> yields (scan_transform f) P"
  by (auto simp: yields_def scan_transform_def split: option.splits)

lemma yields_digit: "yields scan_digit (\<lambda>d. 0 \<le> d \<and> d \<le> 9)"
  unfolding scan_digit_def by (rule yields_transform) (auto simp: is_ascii_digit_def digit_val_def split: if_splits)

lemma scan_more_digits_nonneg: "0 \<le> n \<Longrightarrow> 0 \<le> fst (scan_more_digits k n s)"
proof (induction k arbitrary: n s)
  case (Suc k)
  show ?case
  proof (cases "scan_digit s")
    case (Pair v s')
    show ?thesis
    proof (cases v)
      case (Some d)
      with Pair have "0 \<le> d" using yieldsD [OF yields_digit] by blast
      then show ?thesis using Suc.IH [of "n * 10 + d" s'] Suc.prems Pair Some by simp
    qed (use Pair Suc.prems in simp)
  qed
qed simp

lemma yields_up_to_3_digits: "yields scan_up_to_3_digits (\<lambda>d. 0 \<le> d)"
proof -
  have "yields (\<lambda>s. case scan_more_digits 2 d s of (t, s') \<Rightarrow> (Some t, s')) (\<lambda>d. 0 \<le> d)"
    if "0 \<le> d \<and> d \<le> 9" for d
    using scan_more_digits_nonneg [of d 2] that by (auto simp: yields_def split: prod.splits) (metis fst_conv)
  then show ?thesis unfolding scan_up_to_3_digits_def by (rule yields_bind [OF yields_digit])
qed

lemma yields_up_to_2_digits: "yields scan_up_to_2_digits (\<lambda>d. 0 \<le> d)"
  unfolding scan_up_to_2_digits_def
  by (rule yields_bind [OF yields_digit], rule yields_match [OF yields_digit]) (auto simp: pred_option_def split: option.splits)

lemma yields_digits00_59: "yields scan_digits00_59 (\<lambda>d. 0 \<le> d)"
  using scan_two_digits_range(2) by (auto simp: yields_def)

lemma yields_parse_hms:
  assumes "0 \<le> max_secs"
  shows "yields (parse_hms max_secs) (\<lambda>t. \<bar>t\<bar> \<le> max_secs)"
proof -
  have sign: "yields (scan_transform (\<lambda>c. if c = CHR ''+'' then Some 1 else if c = CHR ''-'' then Some (-1) else None))
      (\<lambda>x. x = 1 \<or> x = (-1 :: int))"
    by (rule yields_transform) (auto split: if_splits)
  have hours: "yields (if max_secs > 99 * 3600 then scan_up_to_3_digits else scan_up_to_2_digits) (\<lambda>d. 0 \<le> d)"
    by (simp add: yields_up_to_3_digits yields_up_to_2_digits)
  have rest: "yields (scan_match (scan_advance_on (CHR '':'')) (\<lambda>r.
         if r = Some True then
           scan_bind scan_digits00_59 (\<lambda>m.
           scan_match (scan_advance_on (CHR '':'')) (\<lambda>r.
             if r = Some True
             then scan_bind scan_digits00_59 (\<lambda>s. scan_return (tally + m * 60 + s))
             else scan_return (tally + m * 60)))
         else scan_return tally)) (\<lambda>d. 0 \<le> d)" if "0 \<le> tally" for tally :: int
    using that
    by (intro yields_match [OF yields_any] yields_if yields_bind [OF yields_digits00_59]) auto
  show ?thesis unfolding parse_hms_def Let_def
    by (rule yields_match [OF sign], rule yields_bind [OF hours], rule yields_bind [OF rest])
      (auto simp: pred_option_def abs_mult split: option.splits)
qed

lemma yields_parse_offset: "yields parse_offset offset_ok"
  unfolding parse_offset_def
  by (rule yields_bind [OF yields_parse_hms]) (auto simp: offset_ok_def bound_defs)

lemma yields_weekday_rule: "yields parse_weekday_rule rule_ok"
proof -
  have week: "yields (scan_digit_ranged (CHR ''1'') (CHR ''5'')) (\<lambda>w. 1 \<le> w \<and> w \<le> 5)"
    unfolding scan_digit_ranged_def
    by (rule yields_transform) (auto simp: digit_val_def byte_def split: if_splits)
  show ?thesis unfolding parse_weekday_rule_def Let_def
    by (intro yields_bind [OF yields_any] yields_bind [OF week]) auto
qed

lemma yields_after: "yields m P \<Longrightarrow> yields (\<lambda>s. m (f s)) P"
  by (simp add: yields_def)

lemma yields_rule_date: "yields parse_rule_date rule_ok"
proof -
  have julian: "yields (scan_bind scan_up_to_3_digits
      (\<lambda>d. if d \<noteq> 0 \<and> d \<le> 365 then scan_return (JulianDayOfYear d) else scan_fail)) rule_ok"
    by (rule yields_bind [OF yields_up_to_3_digits]) auto
  have day: "yields (scan_bind scan_up_to_3_digits
      (\<lambda>d. if d + 1 \<noteq> 0 \<and> d + 1 \<le> 366 then scan_return (DayOfYear (d + 1)) else scan_fail)) rule_ok"
    by (rule yields_bind [OF yields_up_to_3_digits]) auto
  show ?thesis
    using yields_weekday_rule julian day
    by (auto simp: yields_def parse_rule_date_def split: option.splits if_splits)
qed

lemma yields_parse_rule: "yields parse_rule rule_time_ok"
  unfolding parse_rule_def
  by (rule yields_bind [OF yields_rule_date], rule yields_match)
    (auto intro!: yields_bind [OF yields_any] yields_parse_hms
      simp: rule_time_ok_def pred_option_def default_rule_time_def split: option.splits)

lemma posix_parse_ok:
  "pred_option tz_ok (tz_parse s)"
proof -
  have shift: "pred_option offset_ok (offset_shift x d)" for x d
    by (auto simp: offset_shift_def offset_new_def offset_ok_def bound_defs pred_option_def split: if_splits)
  have dst: "yields (\<lambda>s. case scan_peek s of
                 None \<Rightarrow> (None, s)
               | Some c \<Rightarrow>
                   if c = CHR '','' then (offset_shift std default_dst, drop 1 s)
                   else scan_bind parse_offset (\<lambda>x. scan_bind (scan_expect (CHR '','')) (\<lambda>_. scan_return x)) s)
      offset_ok" for std
  proof -
    have "yields (scan_bind parse_offset (\<lambda>x. scan_bind (scan_expect (CHR '','')) (\<lambda>_. scan_return x))) offset_ok"
      by (rule yields_bind [OF yields_parse_offset], rule yields_bind [OF yields_any]) simp
    then show ?thesis using shift [of std default_dst]
      by (auto simp: yields_def pred_option_def split: option.splits if_splits)
  qed
  have "yields tz_read tz_ok"
    unfolding tz_read_def
  proof (rule yields_bind [OF yields_any], rule yields_bind [OF yields_parse_offset], rule yields_branch)
    fix abbrev std
    assume std: "offset_ok std"
    then show "yields (scan_return \<lparr>tz_std = std, tz_dst = None, tz_std_abbrev = abbrev\<rparr>) tz_ok"
      by (simp add: tz_ok_def)
    show "yields (scan_bind parse_tzname (\<lambda>name. scan_bind (\<lambda>s. case scan_peek s of
                 None \<Rightarrow> (None, s)
               | Some c \<Rightarrow>
                   if c = CHR '','' then (offset_shift std default_dst, drop 1 s)
                   else scan_bind parse_offset (\<lambda>x. scan_bind (scan_expect (CHR '','')) (\<lambda>_. scan_return x)) s)
              (\<lambda>dst_offset.
            scan_bind parse_rule (\<lambda>start.
            scan_bind (scan_expect (CHR '','')) (\<lambda>_.
            scan_bind parse_rule (\<lambda>end' s.
              if scan_is_done s
              then (Some \<lparr>tz_std = std,
                          tz_dst = Some \<lparr>dst_offset = dst_offset, dst_start = start, dst_end = end',
                                        dst_abbrev = name\<rparr>,
                          tz_std_abbrev = abbrev\<rparr>, s)
              else (None, s))))))) tz_ok"
      by (rule yields_bind [OF yields_any], rule yields_bind [OF dst], rule yields_bind [OF yields_parse_rule],
          rule yields_bind [OF yields_any], rule yields_bind [OF yields_parse_rule])
        (use std in \<open>auto simp: yields_def tz_ok_def dst_ok_def split: if_splits\<close>)
  qed
  then show ?thesis by (cases "tz_read s") (auto simp: tz_parse_def yields_def pred_option_def)
qed

text \<open>Whatever bytes \<open>TzStr::parse\<close> is given, the rule it returns is well-formed: the
  offsets lie within a day, the days of the year and the weeks of the month within their bounds
  and the times of the rules within a week, which is what the queries rely on.\<close>

theorem posix_parse_well_formed: "pred_option tz_ok (tz_parse s)"
  by (rule posix_parse_ok)

subsection \<open>The search for transitions\<close>

lemma epoch_date_day:
  assumes "epoch_ok e"
  shows "date_ok (epoch_date e)" and "day_number (epoch_date e) = epoch_get e div 86400"
proof -
  have e: "-62135596800 \<le> epoch_get e" "epoch_get e \<le> 253402300799" using assms by (simp_all add: epoch_ok_iff)
  have days: "-719162 \<le> epoch_get e div 86400" "epoch_get e div 86400 \<le> 2932896" using e by linarith+
  then have "epoch_as_days e = UnixDays (epoch_get e div 86400)"
    by (simp add: epoch_as_days_def s_per_day_def)
  moreover have "unix_days_ok (UnixDays (epoch_get e div 86400))" using days by (simp add: unix_days_ok_iff)
  ultimately show "date_ok (epoch_date e)" and "day_number (epoch_date e) = epoch_get e div 86400"
    by (simp_all add: epoch_date_def unix_days_date_ok date_unix_days_date)
qed

lemma clamped_ok [simp]: "epoch_ok (epoch_clamp n)"
  by (simp add: epoch_clamp_def epoch_ok_def epoch_bounds)

lemma local_year_mono:
  assumes "u \<le> v"
  shows "tz_local_year tz u \<le> tz_local_year tz v"
proof -
  let ?c = "\<lambda>e. epoch_saturating_shift_by_offset e (tz_std tz)"
  have ok: "epoch_ok (?c e)" for e by (simp add: epoch_saturating_shift_by_offset_def)
  have "epoch_get (?c u) \<le> epoch_get (?c v)"
    using assms by (simp add: epoch_saturating_shift_by_offset_def epoch_clamp_def epoch_le)
  then have "epoch_get (?c u) div 86400 \<le> epoch_get (?c v) div 86400" by (rule zdiv_mono1) simp
  then have "epoch_date (?c u) \<le> epoch_date (?c v)"
    using date_unix_days_le [OF epoch_date_day(1) epoch_date_day(1)] epoch_date_day(2) ok by simp
  then show ?thesis by (auto simp: tz_local_year_def less_eq_date_ext_def date_key_def)
qed

text \<open>What the search for a transition relies on: in the years that it looks at, both
  transitions fall in that year (by standard time). The offset is then decided by them.\<close>

definition in_year :: "tz_str \<Rightarrow> year \<Rightarrow> epoch_secs \<Rightarrow> epoch_secs \<Rightarrow> bool" where
  "in_year tz y start end' \<longleftrightarrow>
     tz_utc_transitions tz y = Some ((start, dst_offset (the (tz_dst tz))), (end', tz_std tz))
     \<and> tz_local_year tz start = y \<and> tz_local_year tz end' = y"

lemma offset_by_transitions:
  assumes "in_year tz y start end'" and "tz_local_year tz u = y"
  shows "tz_offset_for_instant tz u =
    (if (if start < end' then start \<le> u \<and> u < end' else \<not> (end' \<le> u \<and> u < start))
     then dst_offset (the (tz_dst tz)) else tz_std tz)"
  using assms by (simp add: tz_offset_for_instant_def tz_is_dst_at_def in_year_def)

lemma next_in_year:
  assumes "in_year tz y start end'" and "tz_local_year tz u = y" and "u < start \<or> u < end'"
  obtains e x where "tz_next_transition tz u = Some (e, x)" and "u < e" and "tz_offset_for_instant tz e = x"
    and "\<And>v. u \<le> v \<Longrightarrow> v < e \<Longrightarrow> tz_offset_for_instant tz v = tz_offset_for_instant tz u"
proof -
  define e where "e = (if u < start \<and> u < end' then min start end' else if u < start then start else end')"
  define x where "x = (if e = start then dst_offset (the (tz_dst tz)) else tz_std tz)"
  have tr: "tz_utc_transitions tz y = Some ((start, dst_offset (the (tz_dst tz))), (end', tz_std tz))"
    and y: "tz_local_year tz start = y" "tz_local_year tz end' = y"
    using assms(1) by (simp_all add: in_year_def)
  have "tz_next_transition tz u = Some (e, x)"
    using assms(3) by (auto simp: tz_next_transition_def assms(2) tr e_def x_def Let_def min_def)
  moreover have "u < e" using assms(3) by (auto simp: e_def)
  moreover have ey: "tz_local_year tz e = y" using y by (simp add: e_def min_def)
  moreover have "tz_offset_for_instant tz e = x"
    unfolding offset_by_transitions [OF assms(1) ey] using assms(3) by (auto simp: e_def x_def min_def)
  moreover have "tz_offset_for_instant tz v = tz_offset_for_instant tz u" if "u \<le> v" "v < e" for v
  proof -
    have "tz_local_year tz v = y"
      using local_year_mono [OF that(1), of tz] local_year_mono [of v e tz] that(2) ey assms(2) by simp
    with that show ?thesis
      by (auto simp: offset_by_transitions [OF assms(1)] assms(2) e_def min_def split: if_splits)
  qed
  ultimately show ?thesis using that by blast
qed

lemma next_in_next_year:
  assumes "in_year tz y start end'" and "tz_local_year tz u = y" and "start \<le> u" and "end' \<le> u"
    and "year_new (year_get y + 1) = Some z" and "in_year tz z start' end''"
    and order: "start < end' \<longleftrightarrow> start' < end''"
  obtains e x where "tz_next_transition tz u = Some (e, x)" and "u < e" and "tz_offset_for_instant tz e = x"
    and "\<And>v. u \<le> v \<Longrightarrow> v < e \<Longrightarrow> tz_offset_for_instant tz v = tz_offset_for_instant tz u"
proof -
  define e where "e = min start' end''"
  define x where "x = (if start' \<le> end'' then dst_offset (the (tz_dst tz)) else tz_std tz)"
  have tr: "tz_utc_transitions tz y = Some ((start, dst_offset (the (tz_dst tz))), (end', tz_std tz))"
    "tz_utc_transitions tz z = Some ((start', dst_offset (the (tz_dst tz))), (end'', tz_std tz))"
    and z: "tz_local_year tz start' = z" "tz_local_year tz end'' = z"
    using assms(1,6) by (simp_all add: in_year_def)
  have yz: "year_get z = year_get y + 1" using assms(5) by (auto simp: year_new_def split: if_splits)
  have ez: "tz_local_year tz e = z" using z by (simp add: e_def min_def)
  have found: "tz_next_transition tz u = Some (e, x)"
    using assms(3,4) by (auto simp: tz_next_transition_def assms(2,5) tr e_def x_def Let_def min_def)
  have less: "u < e"
    using local_year_mono [of e u tz] assms(2) ez yz by (auto simp: less_eq_year_def not_le [symmetric])
  have at: "tz_offset_for_instant tz e = x"
    unfolding offset_by_transitions [OF assms(6) ez] by (auto simp: e_def x_def min_def)
  have const: "tz_offset_for_instant tz v = tz_offset_for_instant tz u" if v: "u \<le> v" "v < e" for v
  proof -
    have "y \<le> tz_local_year tz v" "tz_local_year tz v \<le> z"
      using local_year_mono [OF v(1), of tz] local_year_mono [of v e tz] v(2) ez assms(2) by simp_all
    with yz have "tz_local_year tz v = y \<or> tz_local_year tz v = z"
      by (auto simp: less_eq_year_def intro!: year.expand)
    then show ?thesis
    proof
      assume "tz_local_year tz v = y"
      with v assms(3,4) show ?thesis
        by (auto simp: offset_by_transitions [OF assms(1)] assms(2))
    next
      assume "tz_local_year tz v = z"
      with v assms(3,4) order show ?thesis
        by (auto simp: offset_by_transitions [OF assms(1)] offset_by_transitions [OF assms(6)] assms(2) e_def)
    qed
  qed
  show ?thesis using that [OF found less at const] by blast
qed

text \<open>C17. Where the transitions of the year of an instant and of the following one fall in those
  years, and the two rules come in the same order, \<open>next_transition\<close> returns an instant that is
  strictly later, up to which the offset does not change, and the offset that holds from there
  on.\<close>

theorem posix_next_transition:
  assumes "in_year tz (tz_local_year tz u) start end'"
    and "year_new (year_get (tz_local_year tz u) + 1) = Some z" and "in_year tz z start' end''"
    and "start < end' \<longleftrightarrow> start' < end''"
  shows "\<exists>e x. tz_next_transition tz u = Some (e, x) \<and> u < e \<and> tz_offset_for_instant tz e = x
    \<and> (\<forall>v. u \<le> v \<and> v < e \<longrightarrow> tz_offset_for_instant tz v = tz_offset_for_instant tz u)"
proof (cases "u < start \<or> u < end'")
  case True
  then show ?thesis by (rule next_in_year [OF assms(1) refl]) blast
next
  case False
  then have "start \<le> u" "end' \<le> u" by auto
  then show ?thesis by (rule next_in_next_year [OF assms(1) refl _ _ assms(2-4)]) blast
qed

theorem posix_next_transition_witness:
  "\<exists>tz. tz_parse ''EST5EDT,M3.2.0,M11.1.0'' = Some tz
    \<and> (\<exists>e x. tz_next_transition tz (EpochSecs 1735000000) = Some (e, x) \<and> EpochSecs 1735000000 < e
      \<and> tz_offset_for_instant tz e = x
      \<and> (\<forall>v. EpochSecs 1735000000 \<le> v \<and> v < e
           \<longrightarrow> tz_offset_for_instant tz v = tz_offset_for_instant tz (EpochSecs 1735000000)))"
proof -
  define d where "d = \<lparr>dst_offset = Offset (-14400), dst_start = (NthWeekday 2 Sunday March, 7200),
    dst_end = (NthWeekday 1 Sunday November, 7200), dst_abbrev = \<lparr>tz_data = ''EDT'' @ replicate 5 (CHR 0x00), tz_len = 3\<rparr>\<rparr>"
  define tz where "tz = \<lparr>tz_std = Offset (-18000), tz_dst = Some d,
    tz_std_abbrev = \<lparr>tz_data = ''EST'' @ replicate 5 (CHR 0x00), tz_len = 3\<rparr>\<rparr>"
  note defs = tz_def d_def
  have "tz_parse ''EST5EDT,M3.2.0,M11.1.0'' = Some tz" unfolding defs by code_simp
  moreover have "in_year tz (tz_local_year tz (EpochSecs 1735000000)) (EpochSecs 1710054000) (EpochSecs 1730613600)"
    unfolding defs by code_simp
  moreover have "year_new (year_get (tz_local_year tz (EpochSecs 1735000000)) + 1) = Some (Year 2025)"
    unfolding defs by code_simp
  moreover have "in_year tz (Year 2025) (EpochSecs 1741503600) (EpochSecs 1762063200)"
    unfolding defs by code_simp
  moreover have "EpochSecs 1710054000 < EpochSecs 1730613600 \<longleftrightarrow> EpochSecs 1741503600 < EpochSecs 1762063200"
    by code_simp
  ultimately show ?thesis using posix_next_transition by blast
qed

text \<open>Without that condition \<open>next_transition\<close> can go backwards: for a rule whose time
  leaves its year (J1/-167 starts daylight saving time in the last week of December), the next
  transition after 2024-01-01 00:00 UTC is reported to be on 2023-12-25.\<close>

theorem posix_next_transition_goes_back:
  "\<exists>tz. tz_parse ''EST5EDT,J1/-167,J100'' = Some tz
    \<and> tz_next_transition tz (EpochSecs 1704067200) = Some (EpochSecs 1703484000, Offset (-14400))
    \<and> EpochSecs 1703484000 < EpochSecs 1704067200"
proof -
  have "case tz_parse ''EST5EDT,J1/-167,J100'' of None \<Rightarrow> False
    | Some tz \<Rightarrow> tz_next_transition tz (EpochSecs 1704067200) = Some (EpochSecs 1703484000, Offset (-14400))"
    by code_simp
  then show ?thesis by (auto simp: epoch_less split: option.splits)
qed

text \<open>The parser swallows a malformed time of a rule: a time beyond 167 hours, or none after
  the slash, is read as the default 02:00 instead of being rejected.\<close>

theorem posix_accepts_malformed_time:
  "tz_parse ''EST5EDT,M3.2.0/200,M11.1.0/'' = tz_parse ''EST5EDT,M3.2.0/2,M11.1.0/2''
    \<and> tz_parse ''EST5EDT,M3.2.0/2,M11.1.0/2'' \<noteq> None"
  by (intro conjI; code_simp)

end
