(* ===== verification/Tzif_Facts.thy ===== *)
theory Tzif_Facts
  imports Tzif Posix_Facts
begin

section \<open>What the queries of a time zone compute\<close>

text \<open>
  The bisection finds the first key beyond the given one; the query by instant is the offset of
  the last transition at or before it, with the POSIX rule after the last one; the query by local
  time inverts it; no file that the reader accepts makes a query panic, except for one kind of
  file of version 1.
\<close>

subsection \<open>Bisection\<close>

lemma bisect_loop_bounds:
  assumes "left \<le> right"
  shows "left \<le> bisect_loop arr x left right \<and> bisect_loop arr x left right \<le> right"
  using assms
proof (induction arr x left right rule: bisect_loop.induct)
  case (1 arr x left right)
  show ?case
  proof (cases "left < right")
    case True
    define mid where "mid = left + (right - left) div 2"
    have mid: "left \<le> mid" "mid < right" using True by (auto simp: mid_def)
    show ?thesis
      using 1(1) [OF True mid_def] 1(2) [OF True mid_def] mid
      by (subst (1 2) bisect_loop.simps) (auto simp: Let_def mid_def [symmetric])
  qed (use 1(3) in \<open>simp add: bisect_loop.simps\<close>)
qed

lemma bisect_loop_split:
  assumes "sorted (map fst arr)" and "left \<le> right" and "right \<le> length arr"
    and "\<forall>j < left. fst (arr ! j) \<le> x" and "\<forall>j. right \<le> j \<and> j < length arr \<longrightarrow> x < fst (arr ! j)"
  shows "(\<forall>j < bisect_loop arr x left right. fst (arr ! j) \<le> x)
    \<and> (\<forall>j. bisect_loop arr x left right \<le> j \<and> j < length arr \<longrightarrow> x < fst (arr ! j))"
  using assms
proof (induction arr x left right rule: bisect_loop.induct)
  case (1 arr x left right)
  show ?case
  proof (cases "left < right")
    case True
    define mid where "mid = left + (right - left) div 2"
    have mid: "left \<le> mid" "mid < right" using True by (auto simp: mid_def)
    have key: "fst (arr ! i) \<le> fst (arr ! j)" if "i \<le> j" "j < length arr" for i j
      using sorted_nth_mono [OF "1.prems"(1)] that by simp
    show ?thesis
    proof (cases "fst (arr ! mid) \<le> x")
      case le: True
      have "bisect_loop arr x left right = bisect_loop arr x (mid + 1) right"
        by (subst bisect_loop.simps) (use True le in \<open>simp add: Let_def mid_def [symmetric]\<close>)
      moreover have below: "\<forall>j < mid + 1. fst (arr ! j) \<le> x"
      proof (intro allI impI)
        fix j assume "j < mid + 1"
        then show "fst (arr ! j) \<le> x" using key [of j mid] mid "1.prems"(3) le by (auto intro: order.trans)
      qed
      moreover have "mid + 1 \<le> right" using mid by simp
      note "1.IH"(1) [OF True mid_def le "1.prems"(1) this "1.prems"(3) below "1.prems"(5)]
      ultimately show ?thesis by (simp only:)
    next
      case gt: False
      have "bisect_loop arr x left right = bisect_loop arr x left mid"
        by (subst bisect_loop.simps) (use True gt in \<open>simp add: Let_def mid_def [symmetric]\<close>)
      moreover have above: "\<forall>j. mid \<le> j \<and> j < length arr \<longrightarrow> x < fst (arr ! j)"
        using key [of mid] gt by (meson not_le order.strict_trans2)
      moreover have "mid \<le> length arr" using mid "1.prems"(3) by simp
      note "1.IH"(2) [OF True mid_def gt "1.prems"(1) mid(1) this "1.prems"(4) above]
      ultimately show ?thesis by (simp only:)
    qed
  next
    case False
    with "1.prems" have "left = right" by simp
    then show ?thesis using "1.prems"(4,5) by (simp add: bisect_loop.simps)
  qed
qed

text \<open>The bisection as a walk along the entries.\<close>

lemma bisect_eq_takeWhile:
  assumes "sorted (map fst arr)"
  shows "bisect arr x = (let n = length (takeWhile (\<lambda>p. fst p \<le> x) arr)
    in if n < length arr then Some n else None)"
proof -
  let ?i = "bisect_loop arr x 0 (length arr)"
  have i: "?i \<le> length arr" using bisect_loop_bounds [of 0 "length arr" arr x] by simp
  have beyond: "\<forall>j. length arr \<le> j \<and> j < length arr \<longrightarrow> x < fst (arr ! j)" by (meson not_le)
  have s: "\<forall>j < ?i. fst (arr ! j) \<le> x" "\<forall>j. ?i \<le> j \<and> j < length arr \<longrightarrow> x < fst (arr ! j)"
    using bisect_loop_split [OF assms le0 order_refl _ beyond] by simp_all
  have "takeWhile (\<lambda>p. fst p \<le> x) arr = take ?i arr"
    by (rule takeWhile_eq_take_P_nth) (use s in \<open>auto simp: not_le\<close>)
  with i have "length (takeWhile (\<lambda>p. fst p \<le> x) arr) = ?i" by simp
  with i show ?thesis by (auto simp: bisect_def Let_def)
qed

lemma takeWhile_sorted:
  assumes "sorted (map fst arr)"
  shows "takeWhile (\<lambda>p. fst p \<le> x) arr = filter (\<lambda>p. fst p \<le> x) arr"
  using assms
proof (induction arr)
  case (Cons p arr)
  show ?case
  proof (cases "fst p \<le> x")
    case False
    with Cons.prems have "\<forall>q \<in> set arr. \<not> fst q \<le> x" by (auto dest: order.trans)
    with False show ?thesis by (simp add: filter_False)
  qed (use Cons in simp)
qed simp

lemma bisect_in_range: "bisect arr x = Some i \<Longrightarrow> i < length arr"
  using bisect_loop_bounds [of 0 "length arr" arr x] by (auto simp: bisect_def Let_def split: if_splits)

lemma bisect_empty [simp]: "bisect [] x = None"
  by (simp add: bisect_def bisect_loop.simps)

lemma bisect_later:
  assumes "sorted (map fst arr)"
  shows "bisect arr x = None \<longleftrightarrow> (\<forall>p \<in> set arr. fst p \<le> x)"
    and "bisect arr x = Some i \<Longrightarrow> i = length (filter (\<lambda>p. fst p \<le> x) arr) \<and> i < length arr"
proof -
  have f: "bisect arr x = (let n = length (filter (\<lambda>p. fst p \<le> x) arr) in if n < length arr then Some n else None)"
    using bisect_eq_takeWhile [OF assms] takeWhile_sorted [OF assms] by simp
  have "length (filter (\<lambda>p. fst p \<le> x) arr) < length arr \<longleftrightarrow> \<not> (\<forall>p \<in> set arr. fst p \<le> x)"
    by (metis (no_types, lifting) filter_True length_filter_less less_irrefl)
  then show "bisect arr x = None \<longleftrightarrow> (\<forall>p \<in> set arr. fst p \<le> x)" by (simp add: f Let_def)
  show "bisect arr x = Some i \<Longrightarrow> i = length (filter (\<lambda>p. fst p \<le> x) arr) \<and> i < length arr"
    by (auto simp: f Let_def split: if_splits)
qed

subsection \<open>The offset of an instant\<close>

text \<open>The offset of the last transition at or before an instant, or the first offset.\<close>

definition offset_at :: "(epoch_secs \<times> offset) list \<Rightarrow> epoch_secs \<Rightarrow> offset" where
  "offset_at ts t =
     (case filter (\<lambda>p. fst p \<le> t) ts of [] \<Rightarrow> snd (hd ts) | past \<Rightarrow> snd (last past))"

lemma nth_of_past:
  assumes "sorted (map fst ts)" and "ts \<noteq> []"
  shows "snd (ts ! (length (filter (\<lambda>p. fst p \<le> t) ts) - 1)) = offset_at ts t"
proof (cases "filter (\<lambda>p. fst p \<le> t) ts")
  case Nil
  then show ?thesis using assms(2) by (simp add: offset_at_def hd_conv_nth)
next
  case (Cons p past)
  let ?n = "length (takeWhile (\<lambda>p. fst p \<le> t) ts)"
  have eq: "filter (\<lambda>p. fst p \<le> t) ts = take ?n ts"
    using takeWhile_sorted [OF assms(1)] takeWhile_eq_take by metis
  have "?n \<le> length ts" by (rule length_takeWhile_le)
  moreover have "0 < ?n" using Cons takeWhile_sorted [OF assms(1), of t] by simp
  ultimately have "last (take ?n ts) = ts ! (?n - 1)" by (subst last_conv_nth) auto
  then have "ts ! (?n - 1) = last (filter (\<lambda>p. fst p \<le> t) ts)" by (simp only: eq)
  moreover have "offset_at ts t = snd (last (filter (\<lambda>p. fst p \<le> t) ts))" by (simp add: offset_at_def Cons)
  moreover have "?n = length (filter (\<lambda>p. fst p \<le> t) ts)" by (simp only: takeWhile_sorted [OF assms(1)])
  ultimately show ?thesis by (simp only:)
qed

lemma zone_offset_eq:
  assumes "sorted (map fst (zone_utc z))" and "zone_utc z = [] \<Longrightarrow> zone_end z \<noteq> None"
  shows "zone_offset_for_instant z t = Done
    (case zone_end z of
       Some tz \<Rightarrow> if \<forall>p \<in> set (zone_utc z). fst p \<le> t then tz_offset_for_instant tz t
                  else offset_at (zone_utc z) t
     | None \<Rightarrow> offset_at (zone_utc z) t)"
proof (cases "bisect (zone_utc z) t")
  case None
  then have all: "\<forall>p \<in> set (zone_utc z). fst p \<le> t" using bisect_later(1) [OF assms(1)] by blast
  then have "offset_at (zone_utc z) t = snd (last (zone_utc z))" if "zone_utc z \<noteq> []"
    using that by (simp add: offset_at_def split: list.split)
  with None all assms(2) show ?thesis by (auto simp: zone_offset_for_instant_def split: option.split)
next
  case (Some i)
  then have ne: "zone_utc z \<noteq> []" by auto
  have i: "i = length (filter (\<lambda>p. fst p \<le> t) (zone_utc z))" "i < length (zone_utc z)"
    using bisect_later(2) [OF assms(1) Some] by simp_all
  have "\<not> (\<forall>p \<in> set (zone_utc z). fst p \<le> t)" using Some bisect_later(1) [OF assms(1), of t] by force
  with Some i nth_of_past [OF assms(1) ne, of t] show ?thesis
    by (auto simp: zone_offset_for_instant_def run_index_def split: option.split)
qed

text \<open>C18. On a zone with its transitions in order, \<open>offset_for_instant\<close> is the offset of the
  last transition at or before the instant (the first one's before all of them), and the POSIX
  rule, if there is one, decides after the last transition. The bisection returns, stays within
  the list and never panics.\<close>

theorem zone_offset_is_last_transition:
  assumes "sorted (map fst (zone_utc z))" and "zone_utc z = [] \<Longrightarrow> zone_end z \<noteq> None"
  shows "zone_offset_for_instant z t = Done
    (case zone_end z of
       Some tz \<Rightarrow> if \<forall>p \<in> set (zone_utc z). fst p \<le> t then tz_offset_for_instant tz t
                  else offset_at (zone_utc z) t
     | None \<Rightarrow> offset_at (zone_utc z) t)"
  using assms by (rule zone_offset_eq)

subsection \<open>Zones that the readers return\<close>

definition zone_ok :: "time_zone \<Rightarrow> bool" where
  "zone_ok z \<longleftrightarrow> length (zone_meta z) = length (zone_utc z)
     \<and> zone_local z = local_transitions (zone_utc z)
     \<and> (\<forall>p \<in> set (zone_utc z). epoch_ok (fst p) \<and> offset_ok (snd p))
     \<and> pred_option tz_ok (zone_end z) \<and> (zone_utc z = [] \<longrightarrow> zone_end z \<noteq> None)"

lemma run_bind_Done: "run_bind m f = Done y \<longleftrightarrow> (\<exists>x. m = Done x \<and> f x = Done y)"
  by (cases m) auto

lemma ok_or_Inr: "ok_or c m f = Done (Inr z) \<longleftrightarrow> (\<exists>x s. m = Done (Some x, s) \<and> f x s = Done (Inr z))"
  by (auto simp: ok_or_def run_bind_Done split: option.splits)

lemma scan_bind_result: "scan_bind m f s = (Some x, r) \<longleftrightarrow> (\<exists>y s'. m s = (Some y, s') \<and> f y s' = (Some x, r))"
  by (auto simp: scan_simps split: prod.splits option.splits)

lemma i32_range: "-2147483648 \<le> as_i32 n \<and> as_i32 n \<le> 2147483647"
  by (simp add: as_i32_def)

lemma i32_epoch: "epoch_ok (EpochSecs (as_i32 n))"
  using i32_range [of n] by (simp add: epoch_ok_def epoch_bounds)

lemma read_types_ok: "read_types values i n = Some ts \<Longrightarrow> \<forall>ty \<in> set ts. offset_ok (ti_offset ty)"
proof (induction n arbitrary: i ts)
  case (Suc n)
  then show ?case by (auto simp: offset_new_def offset_ok_def bind_Some_iff split: if_splits)
qed simp

lemma types_get_ok: "types_get types i = Some ty \<Longrightarrow> ty \<in> set types"
  by (auto simp: types_get_def split: if_splits)

lemma load_loop_ok:
  assumes "load_loop types std ps = Some (us, ms)"
    and "\<forall>ty \<in> set types. offset_ok (ti_offset ty)" and "\<forall>p \<in> set ps. epoch_ok (snd p)"
  shows "length ms = length us \<and> (\<forall>p \<in> set us. epoch_ok (fst p) \<and> offset_ok (snd p))"
  using assms
proof (induction ps arbitrary: std us ms)
  case (Cons p ps)
  then show ?case
    by (cases p) (fastforce simp: bind_Some_iff Let_def dest: types_get_ok)
qed simp

lemma load_transitions_ok:
  assumes "load_transitions tts types idx = Some (us, ms)"
    and "\<forall>ty \<in> set types. offset_ok (ti_offset ty)" and "\<forall>e \<in> set tts. epoch_ok e"
  shows "length ms = length us \<and> us \<noteq> [] \<and> (\<forall>p \<in> set us. epoch_ok (fst p) \<and> offset_ok (snd p))"
proof -
  obtain ty types' where types: "types = ty # types'" using assms(1) by (cases types) (auto simp: load_transitions_def)
  obtain us' ms' std where l: "load_loop types std (zip idx tts) = Some (us', ms')"
    and us: "us = (EpochSecs epoch_min, ti_offset ty) # us'"
    and ms: "ms = \<lparr>tm_dst_saving = 0, tm_abbrev_idx = ti_abbrev_idx ty\<rparr> # ms'"
    using assms(1) by (auto simp: load_transitions_def types Let_def bind_Some_iff)
  have "\<forall>p \<in> set (zip idx tts). epoch_ok (snd p)" using assms(3) by (auto dest: set_zip_rightD)
  from load_loop_ok [OF l assms(2) this] assms(2) show ?thesis
    by (auto simp: us ms types epoch_ok_def epoch_bounds)
qed

lemma parse_type_info_ok:
  "parse_type_info n m s = Done (Some (types, a), r) \<Longrightarrow> \<forall>ty \<in> set types. offset_ok (ti_offset ty)"
  by (auto simp: parse_type_info_def run_bind_Done scan_bind_result scan_lift_def scan_return_def dest: read_types_ok)

lemma parse_v1_transitions_ok:
  "parse_v1_transitions h s = Done (Some tts, r) \<Longrightarrow> \<forall>e \<in> set tts. epoch_ok e"
  by (auto simp: parse_v1_transitions_def run_bind_Done scan_bind_result scan_return_def epoch_from_i32_def
      i32_from_be_def i32_epoch)

lemma parse_v2_transitions_ok:
  "parse_v2_transitions h s = Done (Some tts, r) \<Longrightarrow> \<forall>e \<in> set tts. epoch_ok e"
  by (auto simp: parse_v2_transitions_def run_bind_Done scan_bind_result scan_return_def)

lemma zone_build_ok:
  assumes "load_transitions tts types idx = Some (us, ms)"
    and "\<forall>ty \<in> set types. offset_ok (ti_offset ty)" and "\<forall>e \<in> set tts. epoch_ok e" and "pred_option tz_ok fin"
  shows "zone_ok \<lparr>zone_key = key, zone_utc = us, zone_local = local_transitions us, zone_end = fin,
    zone_meta = ms, zone_abbrevs = a\<rparr>"
  using load_transitions_ok [OF assms(1-3)] assms(4) by (simp add: zone_ok_def)

lemma parse_posix_ok: "parse_posix_tz s = Some tz \<Longrightarrow> tz_ok tz"
  using posix_parse_ok unfolding parse_posix_tz_def by (metis option.pred_inject(2))

lemma parse_content_ok:
  assumes "parse_content h s key = Done (Inr z)"
  shows "zone_ok z"
  using assms
  by (auto simp: parse_content_def Let_def ok_or_Inr split: if_splits
      intro!: zone_build_ok dest!: parse_v1_transitions_ok parse_v2_transitions_ok parse_type_info_ok parse_posix_ok)

lemma parse_tzif_ok: "parse_tzif s key = Done (Inr z) \<Longrightarrow> zone_ok z"
  using parse_content_ok by (auto simp: parse_tzif_def ok_or_Inr)

text \<open>C20. What the two readers of zones return is well-formed whatever the bytes: every transition
  lies in the range of instants and has an offset below a day, the metadata run parallel to the
  transitions, the local transitions are those of the transitions in UTC, and the POSIX rule is
  well-formed.\<close>

theorem zone_readers_well_formed:
  "(case parse_tzif s key of Done (Inr z) \<Rightarrow> zone_ok z | _ \<Rightarrow> True) \<and> pred_option zone_ok (zone_parse_posix s)"
proof
  show "case parse_tzif s key of Done (Inr z) \<Rightarrow> zone_ok z | _ \<Rightarrow> True"
    using parse_tzif_ok by (auto split: run.split sum.split)
  show "pred_option zone_ok (zone_parse_posix s)"
    using posix_parse_ok [of s]
    by (auto simp: zone_parse_posix_def zone_ok_def local_transitions_def pred_option_def split: bind_splits)
qed

subsection \<open>No panics\<close>

lemma bisect_local_in_range:
  "bisect (zone_local z) l = Some i \<Longrightarrow> i < length (zone_local z)"
  by (rule bisect_in_range)

lemma local_loop_next:
  assumes "(l, prev, change) \<in> set (local_loop x ts)" and "offset_ok x" and "\<forall>p \<in> set ts. offset_ok (snd p)"
  shows "\<exists>y. offset_ok y \<and> change = offset_sub y prev"
  using assms by (induction x ts rule: local_loop.induct) auto

lemma local_transitions_shift:
  assumes "zone_ok z" and "(l, prev, change) \<in> set (zone_local z)"
  shows "offset_shift prev change \<noteq> None"
proof -
  obtain p ts where utc: "zone_utc z = p # ts" "zone_local z = local_loop (snd p) ts"
    using assms by (cases "zone_utc z") (auto simp: zone_ok_def local_transitions_def)
  have "offset_ok (snd p)" "\<forall>p \<in> set ts. offset_ok (snd p)" using assms(1) utc by (auto simp: zone_ok_def)
  then obtain y where "offset_ok y" "change = offset_sub y prev"
    using local_loop_next [of _ prev change "snd p" ts] assms(2) utc(2) by auto
  then show ?thesis by (auto simp: offset_shift_def offset_sub_def offset_new_def offset_ok_def bound_defs)
qed

lemma zone_offset_total:
  assumes "zone_ok z"
  shows "\<exists>x. zone_offset_for_instant z t = Done x"
proof -
  have "zone_utc z = [] \<Longrightarrow> zone_end z \<noteq> None" using assms by (auto simp: zone_ok_def)
  then have "zone_offset_for_instant z t \<noteq> Panic"
    using bisect_in_range [of "zone_utc z" t]
    by (cases "bisect (zone_utc z) t"; cases "zone_end z")
      (auto simp: zone_offset_for_instant_def run_index_def dest: less_imp_diff_less)
  then show ?thesis by (cases "zone_offset_for_instant z t") simp_all
qed

text \<open>C21. On a well-formed zone the queries by instant never panic (the indices and the
  \<open>expect\<close>s are covered), and the query by local time panics in one case only: a zone
  without a POSIX rule and without any transition.\<close>

theorem zone_queries_do_not_panic:
  assumes "zone_ok z"
  shows "zone_offset_for_instant z t \<noteq> Panic \<and> zone_meta_for_instant z t \<noteq> Panic
    \<and> (zone_mapping_for_local z l = Panic \<longleftrightarrow> zone_end z = None \<and> zone_local z = [])"
proof (intro conjI)
  have len: "length (zone_meta z) = length (zone_utc z)" and ne: "zone_utc z = [] \<Longrightarrow> zone_end z \<noteq> None"
    using assms by (auto simp: zone_ok_def)
  show "zone_offset_for_instant z t \<noteq> Panic" using zone_offset_total [OF assms, of t] by auto
  show "zone_meta_for_instant z t \<noteq> Panic"
    using ne len bisect_in_range [of "zone_utc z" t]
    by (cases "bisect (zone_utc z) t"; cases "zone_end z")
      (auto simp: zone_meta_for_instant_def run_index_def dest: less_imp_diff_less)
  show "zone_mapping_for_local z l = Panic \<longleftrightarrow> zone_end z = None \<and> zone_local z = []"
  proof (cases "bisect (zone_local z) l")
    case (Some i)
    then have i: "i < length (zone_local z)" by (rule bisect_in_range)
    obtain nx prev change where at: "zone_local z ! i = (nx, prev, change)" by (cases "zone_local z ! i") auto
    then have "(nx, prev, change) \<in> set (zone_local z)" using i by (metis nth_mem)
    from local_transitions_shift [OF assms this] obtain y where "offset_shift prev change = Some y" by auto
    moreover have "zone_local z \<noteq> []" using i by auto
    ultimately show ?thesis using Some i at
      by (auto simp: zone_mapping_for_local_def run_index_def run_unwrap_def Let_def cmp_simps split: ordering.split)
  next
    case None
    show ?thesis
    proof (cases "zone_end z")
      case e: None
      show ?thesis
      proof (cases "zone_local z = []")
        case False
        obtain nx prev change where last: "last (zone_local z) = (nx, prev, change)" by (cases "last (zone_local z)") auto
        then have "(nx, prev, change) \<in> set (zone_local z)" using False by (metis last_in_set)
        from local_transitions_shift [OF assms this] obtain y where "offset_shift prev change = Some y" by auto
        with None e False last show ?thesis by (simp add: zone_mapping_for_local_def run_unwrap_def)
      qed (simp add: zone_mapping_for_local_def e)
    qed (use None in \<open>simp add: zone_mapping_for_local_def\<close>)
  qed
qed

text \<open>Two files: version 1 without transitions, version 2 with the transitions of 2024 in Central
  Europe and the rule that follows them.\<close>

definition bytes_of :: "nat list \<Rightarrow> bytes" where
  "bytes_of = map char_of"

definition file_v1 :: bytes where
  "file_v1 = bytes_of [
    84, 90, 105, 102, 0, 0, 0, 0, 0, 0, 0, 0, 0, 0, 0, 0, 0, 0, 0, 0, 0, 0, 0, 0, 0, 0, 0, 0, 0, 0, 0, 0, 0,
    0, 0, 0, 0, 0, 0, 1, 0, 0, 0, 4, 0, 0, 14, 16, 0, 0, 67, 69, 84, 0]"

definition file_v2 :: bytes where
  "file_v2 = bytes_of [
    84, 90, 105, 102, 50, 0, 0, 0, 0, 0, 0, 0, 0, 0, 0, 0, 0, 0, 0, 0, 0, 0, 0, 0, 0, 0, 0, 0, 0, 0, 0, 0, 0,
    0, 0, 0, 0, 0, 0, 0, 0, 0, 0, 0, 84, 90, 105, 102, 50, 0, 0, 0, 0, 0, 0, 0, 0, 0, 0, 0, 0, 0, 0, 0, 0, 0,
    0, 0, 0, 0, 0, 0, 0, 0, 0, 0, 0, 0, 0, 2, 0, 0, 0, 2, 0, 0, 0, 8, 0, 0, 0, 0, 102, 8, 181, 144, 0, 0, 0,
    0, 103, 29, 144, 144, 1, 0, 0, 0, 14, 16, 0, 0, 0, 0, 28, 32, 1, 4, 67, 69, 84, 0, 67, 69, 83, 0, 10, 67,
    69, 84, 45, 49, 67, 69, 83, 44, 77, 51, 46, 53, 46, 48, 44, 77, 49, 48, 46, 53, 46, 48, 47, 51, 10]"

definition zone_v2 :: time_zone where
  "zone_v2 =
     \<lparr>zone_key = None,
      zone_utc = [(EpochSecs (-62135596800), Offset 3600), (EpochSecs 1711846800, Offset 7200),
                  (EpochSecs 1729990800, Offset 3600)],
      zone_local = [(LocalSeconds (EpochSecs 1711854000), Offset 3600, OffsetDelta 3600),
                    (LocalSeconds (EpochSecs 1729998000), Offset 7200, OffsetDelta (-3600))],
      zone_end = Some \<lparr>tz_std = Offset 3600,
        tz_dst = Some \<lparr>dst_offset = Offset 7200, dst_start = (LastWeekday Sunday March, 7200),
          dst_end = (LastWeekday Sunday October, 10800),
          dst_abbrev = \<lparr>tz_data = ''CES'' @ replicate 5 (CHR 0x00), tz_len = 3\<rparr>\<rparr>,
        tz_std_abbrev = \<lparr>tz_data = ''CET'' @ replicate 5 (CHR 0x00), tz_len = 3\<rparr>\<rparr>,
      zone_meta = [\<lparr>tm_dst_saving = 0, tm_abbrev_idx = 0\<rparr>, \<lparr>tm_dst_saving = 3600, tm_abbrev_idx = 4\<rparr>,
                   \<lparr>tm_dst_saving = 0, tm_abbrev_idx = 0\<rparr>],
      zone_abbrevs = ''CET'' @ [CHR 0x00] @ ''CES'' @ [CHR 0x00]\<rparr>"

lemma zone_v2_parsed: "parse_tzif file_v2 None = Done (Inr zone_v2)"
  by code_simp

lemma zone_v2_ok: "zone_ok zone_v2"
  using zone_v2_parsed by (rule parse_tzif_ok)

theorem zone_offset_is_last_transition_witness:
  "zone_offset_for_instant zone_v2 (EpochSecs 1720000000) = Done (Offset 7200)"
proof -
  have "sorted (map fst (zone_utc zone_v2))" "zone_utc zone_v2 \<noteq> []" by code_simp+
  from zone_offset_is_last_transition [OF this(1), of "EpochSecs 1720000000"] this(2)
  have "zone_offset_for_instant zone_v2 (EpochSecs 1720000000) = Done (case zone_end zone_v2 of
       Some tz \<Rightarrow> if \<forall>p \<in> set (zone_utc zone_v2). fst p \<le> EpochSecs 1720000000
                  then tz_offset_for_instant tz (EpochSecs 1720000000)
                  else offset_at (zone_utc zone_v2) (EpochSecs 1720000000)
     | None \<Rightarrow> offset_at (zone_utc zone_v2) (EpochSecs 1720000000))" by blast
  also have "\<dots> = Done (Offset 7200)" by code_simp
  finally show ?thesis .
qed

theorem zone_queries_do_not_panic_witness:
  "parse_tzif file_v2 None = Done (Inr zone_v2)
    \<and> zone_offset_for_instant zone_v2 (EpochSecs 0) \<noteq> Panic \<and> zone_meta_for_instant zone_v2 (EpochSecs 0) \<noteq> Panic
    \<and> (zone_mapping_for_local zone_v2 (LocalSeconds (EpochSecs 0)) = Panic \<longleftrightarrow> zone_end zone_v2 = None \<and> zone_local zone_v2 = [])"
  using zone_queries_do_not_panic [OF zone_v2_ok] zone_v2_parsed by blast

text \<open>The one case is reached: a file of version 1 with one local time type and no transitions
  is accepted, since the check for emptiness looks at the list in UTC, which always has its
  sentinel, and then every query by local time panics.\<close>

theorem zone_v1_without_transitions_panics:
  "\<exists>z. parse_tzif file_v1 None = Done (Inr z) \<and> zone_mapping_for_local z (LocalSeconds (EpochSecs 0)) = Panic"
proof -
  have "case parse_tzif file_v1 None of
      Done (Inr z) \<Rightarrow> zone_mapping_for_local z (LocalSeconds (EpochSecs 0)) = Panic | _ \<Rightarrow> False" by code_simp
  then show ?thesis by (auto split: run.splits sum.splits)
qed

subsection \<open>The query by local time inverts the query by instant\<close>

text \<open>The offset at an instant, walking along the transitions; and what the inversion needs: the
  stretch of local time that a transition skips or repeats begins no earlier than the stretch of
  the transition before it ends, and ends in the range of local times.\<close>

fun off_from :: "offset \<Rightarrow> (epoch_secs \<times> offset) list \<Rightarrow> int \<Rightarrow> offset" where
  "off_from prev [] u = prev"
| "off_from prev ((e, x) # ts) u = (if u < epoch_get e then prev else off_from x ts u)"

fun spaced :: "int \<Rightarrow> offset \<Rightarrow> (epoch_secs \<times> offset) list \<Rightarrow> bool" where
  "spaced lo prev [] \<longleftrightarrow> True"
| "spaced lo prev ((e, x) # ts) \<longleftrightarrow>
     lo \<le> epoch_get e + offset_get (min prev x) \<and> epoch_get e + offset_get (max prev x) \<le> epoch_max
     \<and> spaced (epoch_get e + offset_get (max prev x)) x ts"

lemma offset_minmax:
  "offset_get (min x y) = min (offset_get x) (offset_get y)" "offset_get (max x y) = max (offset_get x) (offset_get y)"
  by (auto simp: min_def max_def less_eq_offset_def)

lemma off_from_late: "spaced lo prev ts \<Longrightarrow> off_from prev ts v = prev \<or> lo \<le> v + offset_get (off_from prev ts v)"
proof (induction lo prev ts rule: spaced.induct)
  case (2 lo prev e x ts)
  then show ?case by (fastforce simp: offset_minmax)
qed simp

lemma off_from_early: "spaced lo prev ts \<Longrightarrow> v + offset_get prev < lo \<Longrightarrow> off_from prev ts v = prev"
  by (cases ts) (auto simp: offset_minmax)

text \<open>The offsets that an entry of the local transitions allows.\<close>

definition entry_offsets :: "local_seconds \<times> offset \<times> offset_delta \<Rightarrow> int \<Rightarrow> offset set" where
  "entry_offsets p l =
     (case p of (nx, x, change) \<Rightarrow>
        if l < ls_get nx - \<bar>offset_delta_get change\<bar> \<or> offset_delta_get change = 0 then {x}
        else if offset_delta_get change < 0 then {x, Offset (offset_get x + offset_delta_get change)} else {})"

lemma local_time_of:
  assumes "epoch_min \<le> epoch_get e + offset_get (min prev x)" and "epoch_get e + offset_get (max prev x) \<le> epoch_max"
  shows "ls_get (ls_from_instant_saturating e (max prev x)) = epoch_get e + offset_get (max prev x)"
  using assms
  by (simp add: ls_get_def ls_from_instant_saturating_def epoch_saturating_shift_by_offset_def epoch_clamp_def offset_minmax)

lemma local_loop_inverts:
  assumes "spaced lo prev ts" and "epoch_min \<le> lo"
  shows "{y. off_from prev ts (l - offset_get y) = y} =
    (case find (\<lambda>p. l < ls_get (fst p)) (local_loop prev ts) of
       None \<Rightarrow> {snd (last ((EpochSecs 0, prev) # ts))} | Some p \<Rightarrow> entry_offsets p l)"
  using assms
proof (induction lo prev ts rule: spaced.induct)
  case (2 lo prev e x ts)
  define L where "L = epoch_get e + offset_get (max prev x)"
  define S where "S = {y. off_from prev ((e, x) # ts) (l - offset_get y) = y}"
  have lo: "lo \<le> epoch_get e + offset_get (min prev x)" and L: "spaced L x ts" "L \<le> epoch_max"
    using "2.prems"(1) by (simp_all add: L_def)
  have nx: "ls_get (ls_from_instant_saturating e (max prev x)) = L"
    using local_time_of [of e prev x] lo L(2) "2.prems"(2) by (simp add: L_def)
  have m: "offset_get prev \<le> offset_get (max prev x)" "offset_get x \<le> offset_get (max prev x)"
    by (simp_all add: offset_minmax)
  show ?case
  proof (cases "l < L")
    case False
    have "off_from prev ((e, x) # ts) (l - offset_get y) = y \<longleftrightarrow> off_from x ts (l - offset_get y) = y" for y
    proof (cases "l - offset_get y < epoch_get e")
      case True
      have "off_from x ts (l - offset_get y) = x"
        by (rule off_from_early [OF L(1)]) (use True m L_def in linarith)
      moreover have "y \<noteq> prev" "y \<noteq> x" using True False m L_def by auto
      ultimately show ?thesis using True by auto
    qed simp
    moreover have "epoch_min \<le> L" using lo "2.prems"(2) by (simp add: L_def offset_minmax)
    moreover have "snd (last ((EpochSecs 0, prev) # (e, x) # ts)) = snd (last ((EpochSecs 0, x) # ts))"
      by (cases ts) simp_all
    ultimately show ?thesis
      using "2.IH" [folded L_def, OF L(1)] False nx by (simp split: option.split)
  next
    case True
    have one: "off_from prev ((e, x) # ts) (l - offset_get y) = y \<longleftrightarrow>
        y = prev \<and> l < epoch_get e + offset_get prev \<or> y = x \<and> epoch_get e + offset_get x \<le> l" for y
    proof (cases "l - offset_get y < epoch_get e")
      case False
      have "off_from x ts (l - offset_get y) = y \<longleftrightarrow> y = x"
        using off_from_late [OF L(1), of "l - offset_get y"] off_from_early [OF L(1), of "l - offset_get x"] True by auto
      with False show ?thesis by auto
    qed auto
    have find: "find (\<lambda>p. l < ls_get (fst p)) (local_loop prev ((e, x) # ts))
        = Some (ls_from_instant_saturating e (max prev x), prev, offset_sub x prev)"
      using True nx by simp
    have "Offset (offset_get prev + (offset_get x - offset_get prev)) = x" by simp
    then have "{y. y = prev \<and> l < epoch_get e + offset_get prev \<or> y = x \<and> epoch_get e + offset_get x \<le> l}
      = entry_offsets (ls_from_instant_saturating e (max prev x), prev, offset_sub x prev) l"
      using True unfolding entry_offsets_def prod.case nx offset_sub_def offset_delta.sel L_def offset_minmax
      by (auto simp: offset.expand max_def abs_if split: if_splits)
    then show ?thesis unfolding find option.case one .
  qed
qed auto

lemma local_loop_sorted:
  assumes "spaced lo prev ts" and "epoch_min \<le> lo"
  shows "sorted (map fst (local_loop prev ts)) \<and>
    (\<forall>p \<in> set (local_loop prev ts). lo \<le> ls_get (fst p) \<and> ls_get (fst p) \<le> epoch_max
       \<and> epoch_min \<le> ls_get (fst p) - \<bar>offset_delta_get (snd (snd p))\<bar>)"
  using assms
proof (induction lo prev ts rule: spaced.induct)
  case (2 lo prev e x ts)
  define L where "L = epoch_get e + offset_get (max prev x)"
  have lo: "lo \<le> epoch_get e + offset_get (min prev x)" and L: "spaced L x ts" "L \<le> epoch_max" "lo \<le> L"
    using "2.prems"(1) by (auto simp: L_def offset_minmax)
  have nx: "ls_get (ls_from_instant_saturating e (max prev x)) = L"
    using local_time_of [of e prev x] lo L(2) "2.prems"(2) by (simp add: L_def)
  have "epoch_min \<le> L - \<bar>offset_get x - offset_get prev\<bar>"
    using lo "2.prems"(2) by (simp add: L_def offset_minmax)
  moreover note "2.IH" [folded L_def, OF L(1) order.trans [OF "2.prems"(2) L(3)]]
  ultimately show ?case using L nx
    by (auto simp: offset_sub_def less_eq_local_seconds_def ls_get_def less_eq_epoch_secs_def)
qed simp

lemma local_loop_last:
  "ts \<noteq> [] \<Longrightarrow> \<exists>nx p. last (local_loop x ts) = (nx, p, offset_sub (snd (last ts)) p)"
proof (induction x ts rule: local_loop.induct)
  case (2 prev e x rest)
  then show ?case by (cases rest) auto
qed simp

lemma find_bisect:
  assumes "sorted (map fst arr)"
  shows "find (\<lambda>p. x < fst p) arr = map_option ((!) arr) (bisect arr x)"
proof -
  have "find (\<lambda>p. x < fst p) arr =
    (let n = length (takeWhile (\<lambda>p. fst p \<le> x) arr) in if n < length arr then Some (arr ! n) else None)" for arr :: "('a \<times> 'b) list"
    by (induction arr) (auto simp: Let_def)
  then show ?thesis by (simp add: bisect_eq_takeWhile [OF assms] Let_def)
qed

lemma offset_at_off_from:
  assumes "sorted (map fst ts)"
  shows "offset_at ((e, x) # ts) t = off_from x ts (epoch_get t)"
  using assms
proof (induction ts arbitrary: e x)
  case (Cons p ts)
  obtain f y where p: "p = (f, y)" by (cases p)
  show ?case
  proof (cases "f \<le> t")
    case True
    then have "offset_at ((e, x) # p # ts) t = offset_at (p # ts) t"
      by (auto simp: offset_at_def p split: list.split)
    also have "\<dots> = off_from y ts (epoch_get t)" using Cons p by simp
    finally show ?thesis using True p by (simp add: less_eq_epoch_secs_def)
  next
    case False
    then have "filter (\<lambda>p. fst p \<le> t) ts = []" using Cons.prems p by (auto simp: filter_empty_conv)
    with False p show ?thesis by (simp add: offset_at_def less_eq_epoch_secs_def split: list.split)
  qed
qed (simp add: offset_at_def)

lemma mapping_of_entry:
  assumes "zone_ok z" and "bisect (zone_local z) t = Some i"
    and "epoch_min \<le> ls_get (fst (zone_local z ! i)) - \<bar>offset_delta_get (snd (snd (zone_local z ! i)))\<bar>"
    and "ls_get (fst (zone_local z ! i)) \<le> epoch_max"
  shows "\<exists>m. zone_mapping_for_local z t = Done m \<and> mapping_offsets m = entry_offsets (zone_local z ! i) (ls_get t)"
proof -
  obtain nx x c where at: "zone_local z ! i = (nx, x, c)" by (cases "zone_local z ! i") auto
  have i: "i < length (zone_local z)" using assms(2) by (rule bisect_in_range)
  then have "(nx, x, c) \<in> set (zone_local z)" using at by (metis nth_mem)
  from local_transitions_shift [OF assms(1) this] obtain y where y: "offset_shift x c = Some y" by blast
  then have y': "y = Offset (offset_get x + offset_delta_get c)"
    by (auto simp: offset_shift_def offset_new_def split: if_splits)
  have "ls_get (ls_saturating_add_i32 nx (- \<bar>offset_delta_get c\<bar>)) = ls_get nx - \<bar>offset_delta_get c\<bar>"
    using saturating_add_get [of nx "- \<bar>offset_delta_get c\<bar>"] assms(3,4) at by simp
  moreover have "offset_delta_get (offset_delta_abs c) = \<bar>offset_delta_get c\<bar>" by (simp add: offset_delta_abs_def)
  ultimately have lt: "t < ls_saturating_add_i32 nx (- offset_delta_get (offset_delta_abs c))
      \<longleftrightarrow> ls_get t < ls_get nx - \<bar>offset_delta_get c\<bar>"
    by (simp add: local_less)
  show ?thesis
    using assms(2) i at y y'
    by (auto simp: zone_mapping_for_local_def run_index_def run_unwrap_def Let_def lt entry_offsets_def cmp_def)
qed

lemma zone_mapping_inverts_aux:
  assumes "zone_ok z" and "sorted (map fst (zone_utc z))" and "zone_utc z = (e, x) # ts" and "ts \<noteq> []"
    and "spaced epoch_min x ts"
    and "zone_end z = None \<or> u < fst (last ts) \<and> t < fst (last (zone_local z))"
  shows "\<exists>m y. zone_mapping_for_local z t = Done m \<and> zone_offset_for_instant z u = Done y
    \<and> (epoch_get u + offset_get y = ls_get t
       \<longleftrightarrow> (\<exists>o' \<in> mapping_offsets m. epoch_get u + offset_get o' = ls_get t))"
proof -
  have local: "zone_local z = local_loop x ts" using assms(1,3) by (simp add: zone_ok_def local_transitions_def)
  note sorted = local_loop_sorted [OF assms(5) order_refl]
  have off: "zone_offset_for_instant z u = Done (off_from x ts (epoch_get u))"
  proof -
    have "zone_end z \<noteq> None \<Longrightarrow> \<not> (\<forall>p \<in> set (zone_utc z). fst p \<le> u)"
      using assms(3,4,6) last_in_set [of ts] by (auto simp: not_le)
    then show ?thesis
      using zone_offset_eq [OF assms(2)] offset_at_off_from [of ts e x u] assms(2,3) by (auto split: option.split)
  qed
  have "\<exists>m. zone_mapping_for_local z t = Done m
      \<and> mapping_offsets m = {y. off_from x ts (ls_get t - offset_get y) = y}"
  proof (cases "bisect (zone_local z) t")
    case (Some i)
    then have i: "i < length (zone_local z)" by (rule bisect_in_range)
    have "find (\<lambda>p. ls_get t < ls_get (fst p)) (local_loop x ts) = Some (zone_local z ! i)"
      using find_bisect [of "local_loop x ts" t] sorted Some by (simp add: local local_less)
    then have "{y. off_from x ts (ls_get t - offset_get y) = y} = entry_offsets (zone_local z ! i) (ls_get t)"
      using local_loop_inverts [OF assms(5) order_refl, of "ls_get t"] by simp
    moreover have "zone_local z ! i \<in> set (local_loop x ts)" using i local by (metis nth_mem)
    then have "\<exists>m. zone_mapping_for_local z t = Done m \<and> mapping_offsets m = entry_offsets (zone_local z ! i) (ls_get t)"
      using sorted by (intro mapping_of_entry [OF assms(1) Some]) auto
    ultimately show ?thesis by simp
  next
    case None
    have ne: "zone_local z \<noteq> []" using local assms(4) by (cases ts) auto
    have "zone_end z = None"
      using None bisect_later(1) [of "zone_local z" t] sorted assms(6) last_in_set [OF ne] by (auto simp: local not_le)
    moreover have "find (\<lambda>p. ls_get t < ls_get (fst p)) (local_loop x ts) = None"
      using find_bisect [of "local_loop x ts" t] sorted None by (simp add: local local_less)
    then have "{y. off_from x ts (ls_get t - offset_get y) = y} = {snd (last ts)}"
      using local_loop_inverts [OF assms(5) order_refl, of "ls_get t"] assms(4) by simp
    moreover obtain nx p c where last: "last (zone_local z) = (nx, p, c)" by (cases "last (zone_local z)") auto
    moreover have "offset_shift p c = Some (snd (last ts))"
      using local_loop_last [OF assms(4), of x] last local assms(1,3) last_in_set [OF assms(4)]
      by (auto simp: zone_ok_def offset_shift_def offset_sub_def offset_new_def offset_ok_def)
    ultimately show ?thesis
      using None ne by (simp add: zone_mapping_for_local_def run_unwrap_def)
  qed
  then obtain m where m: "zone_mapping_for_local z t = Done m"
    "mapping_offsets m = {y. off_from x ts (ls_get t - offset_get y) = y}" by blast
  have "epoch_get u + offset_get (off_from x ts (epoch_get u)) = ls_get t
      \<longleftrightarrow> (\<exists>o' \<in> mapping_offsets m. epoch_get u + offset_get o' = ls_get t)"
    (is "?l \<longleftrightarrow> ?r")
  proof
    assume l: ?l
    then have "ls_get t - offset_get (off_from x ts (epoch_get u)) = epoch_get u" by simp
    with l show ?r unfolding m(2) by (intro bexI [of _ "off_from x ts (epoch_get u)"]) simp_all
  next
    assume ?r
    then obtain o' where o': "off_from x ts (ls_get t - offset_get o') = o'" "epoch_get u + offset_get o' = ls_get t"
      unfolding m(2) by blast
    from o'(2) have "ls_get t - offset_get o' = epoch_get u" by simp
    with o' show ?l by simp
  qed
  with m(1) off show ?thesis by blast
qed

text \<open>A zone with its transitions in order and far enough apart, and the instants and local times
  that its table or its rule covers: both before the last transition, or both after it and where the
  rule agrees with itself; without a rule everything.\<close>

definition zone_spaced :: "time_zone \<Rightarrow> bool" where
  "zone_spaced z \<longleftrightarrow> sorted (map fst (zone_utc z))
     \<and> (case zone_utc z of [] \<Rightarrow> True | (_, x) # ts \<Rightarrow> spaced epoch_min x ts)"

definition covered :: "time_zone \<Rightarrow> epoch_secs \<Rightarrow> local_seconds \<Rightarrow> bool" where
  "covered z u t \<longleftrightarrow>
     (case zone_end z of
        None \<Rightarrow> zone_local z \<noteq> []
      | Some rule \<Rightarrow>
          (\<exists>p \<in> set (zone_utc z). u < fst p) \<and> (\<exists>p \<in> set (zone_local z). t < fst p)
          \<or> (\<forall>p \<in> set (zone_utc z). fst p \<le> u) \<and> (\<forall>p \<in> set (zone_local z). fst p \<le> t) \<and> rule_agrees rule u t)"

lemma before_last:
  assumes "sorted (map fst xs)" and "\<exists>p \<in> set xs. u < fst p"
  shows "u < fst (last xs)"
  using assms
proof (induction xs)
  case (Cons q xs)
  show ?case
  proof (cases "xs = []")
    case False
    then have "fst q \<le> fst (last xs)" using Cons.prems(1) by simp
    then show ?thesis using Cons False by (auto intro: less_le_trans)
  qed (use Cons in simp)
qed simp

lemma zone_mapping_covered:
  assumes "zone_ok z" and "zone_spaced z" and "covered z u t"
  shows "\<exists>m y. zone_mapping_for_local z t = Done m \<and> zone_offset_for_instant z u = Done y
    \<and> (epoch_get u + offset_get y = ls_get t
       \<longleftrightarrow> (\<exists>o' \<in> mapping_offsets m. epoch_get u + offset_get o' = ls_get t))"
proof -
  have sorted: "sorted (map fst (zone_utc z))" and none: "zone_utc z = [] \<Longrightarrow> zone_end z \<noteq> None"
    and local: "zone_local z = local_transitions (zone_utc z)" and rule: "pred_option tz_ok (zone_end z)"
    using assms(1,2) by (auto simp: zone_ok_def zone_spaced_def)
  have local_sorted: "sorted (map fst (zone_local z))"
    using assms(2) local_loop_sorted [OF _ order_refl]
    by (auto simp: local zone_spaced_def local_transitions_def split: list.splits)
  show ?thesis
  proof (cases "\<exists>r. zone_end z = Some r \<and> \<not> ((\<exists>p \<in> set (zone_utc z). u < fst p) \<and> (\<exists>p \<in> set (zone_local z). t < fst p))")
    case True
    then obtain r where r: "zone_end z = Some r" "\<forall>p \<in> set (zone_utc z). fst p \<le> u"
      "\<forall>p \<in> set (zone_local z). fst p \<le> t" "rule_agrees r u t"
      using assms(3) by (auto simp: covered_def)
    have "zone_offset_for_instant z u = Done (tz_offset_for_instant r u)"
      using zone_offset_eq [OF sorted none, of u] r(1,2) by simp
    moreover have "zone_mapping_for_local z t = Done (tz_mapping_for_local r t)"
      using bisect_later(1) [OF local_sorted, of t] r(1,3) by (simp add: zone_mapping_for_local_def)
    ultimately show ?thesis using rule_mapping_inverts [OF _ r(4)] rule r(1) by simp
  next
    case False
    then have table: "zone_end z = None \<or> (\<exists>p \<in> set (zone_utc z). u < fst p) \<and> (\<exists>p \<in> set (zone_local z). t < fst p)"
      by auto
    then have "zone_local z \<noteq> []" using assms(3) by (auto simp: covered_def)
    then obtain e x ts where ts: "zone_utc z = (e, x) # ts" "local_loop x ts \<noteq> []"
      by (auto simp: local local_transitions_def split: list.splits)
    then have ne: "ts \<noteq> []" by auto
    have "zone_end z = None \<or> u < fst (last ts) \<and> t < fst (last (zone_local z))"
      using table
    proof
      assume "(\<exists>p \<in> set (zone_utc z). u < fst p) \<and> (\<exists>p \<in> set (zone_local z). t < fst p)"
      then have "u < fst (last (zone_utc z)) \<and> t < fst (last (zone_local z))"
        using before_last [OF sorted] before_last [OF local_sorted] by blast
      then show ?thesis using ts(1) ne by simp
    qed simp
    with assms(1,2) sorted ts(1) ne show ?thesis
      by (intro zone_mapping_inverts_aux [of z e x ts]) (simp_all add: zone_spaced_def)
  qed
qed

text \<open>C19. On a well-formed zone whose transitions are in order and far enough apart,
  \<open>mapping_for_local\<close> inverts \<open>offset_for_instant\<close>: an instant has a given local time exactly
  when the mapping allows the offset between them. Without a POSIX rule this holds everywhere; with
  one, if the instant and the local time both lie before the last transition, or both after it
  in a year (2 to 9998) whose two changes are twice the shift apart, the same year for both.\<close>

theorem zone_mapping_inverts_offset:
  assumes "zone_ok z" and "zone_spaced z" and "covered z u t"
  shows "\<exists>m y. zone_mapping_for_local z t = Done m \<and> zone_offset_for_instant z u = Done y
    \<and> (epoch_get u + offset_get y = ls_get t
       \<longleftrightarrow> (\<exists>o' \<in> mapping_offsets m. epoch_get u + offset_get o' = ls_get t))"
  using assms by (rule zone_mapping_covered)

lemma zone_v2_spaced: "zone_spaced zone_v2"
  by code_simp

theorem zone_mapping_inverts_offset_witness:
  "(\<exists>m y. zone_mapping_for_local zone_v2 (LocalSeconds (EpochSecs 1729996200)) = Done m
    \<and> zone_offset_for_instant zone_v2 (EpochSecs 1729989000) = Done y
    \<and> (epoch_get (EpochSecs 1729989000) + offset_get y = ls_get (LocalSeconds (EpochSecs 1729996200))
       \<longleftrightarrow> (\<exists>o' \<in> mapping_offsets m. epoch_get (EpochSecs 1729989000) + offset_get o'
             = ls_get (LocalSeconds (EpochSecs 1729996200)))))
   \<and> (\<exists>m y. zone_mapping_for_local zone_v2 (LocalSeconds (EpochSecs 2224895400)) = Done m
    \<and> zone_offset_for_instant zone_v2 (EpochSecs 2224888200) = Done y
    \<and> (epoch_get (EpochSecs 2224888200) + offset_get y = ls_get (LocalSeconds (EpochSecs 2224895400))
       \<longleftrightarrow> (\<exists>o' \<in> mapping_offsets m. epoch_get (EpochSecs 2224888200) + offset_get o'
             = ls_get (LocalSeconds (EpochSecs 2224895400)))))"
proof -
  have "covered zone_v2 (EpochSecs 1729989000) (LocalSeconds (EpochSecs 1729996200))"
    "covered zone_v2 (EpochSecs 2224888200) (LocalSeconds (EpochSecs 2224895400))" by code_simp+
  from zone_mapping_inverts_offset [OF zone_v2_ok zone_v2_spaced this(1)]
    zone_mapping_inverts_offset [OF zone_v2_ok zone_v2_spaced this(2)]
  show ?thesis by (rule conjI)
qed

end
