(* ===== verification/Store_Facts.thy ===== *)
theory Store_Facts
  imports Store Tzif_Facts
begin

section \<open>What the store of time zones guarantees\<close>

text \<open>
  The LRU list is the history of accesses cut to eight entries; in every reachable state, however
  the threads interleave, the list and the lookup table agree; a hit returns the very object that
  is alive; no key leads out of the search directories.
\<close>

subsection \<open>The LRU list\<close>

text \<open>The accessed entries, the most recent first, each at its last access.\<close>

fun recent :: "'a list \<Rightarrow> 'a list" where
  "recent [] = []"
| "recent (a # history) = a # filter (\<lambda>b. b \<noteq> a) (recent history)"

lemma position_None: "position P xs = None \<longleftrightarrow> (\<forall>x \<in> set xs. \<not> P x)"
  by (induction xs) auto

lemma position_Some: "position P xs = Some i \<Longrightarrow> i < length xs \<and> P (xs ! i) \<and> (\<forall>x \<in> set (take i xs). \<not> P x)"
  by (induction xs arbitrary: i) (auto split: if_splits)

lemma filter_neq_id: "a \<notin> set xs \<Longrightarrow> filter (\<lambda>b. b \<noteq> a) xs = xs"
  by (induction xs) auto

lemma promote_lru_filter:
  assumes "distinct lru" and "length lru \<le> lru_capacity"
  shows "promote_lru a lru = (if a \<in> set lru then a # filter (\<lambda>b. b \<noteq> a) lru else a # take (lru_capacity - 1) lru)"
proof (cases "position (\<lambda>p. p = a) lru")
  case None
  then have "a \<notin> set lru" by (auto simp: position_None)
  moreover have "(if length lru = lru_capacity then butlast lru else lru) = take (lru_capacity - 1) lru"
    using assms(2) by (auto simp: butlast_conv_take)
  ultimately show ?thesis using None by (simp add: promote_lru_def new_to_lru_def)
next
  case (Some i)
  then have i: "i < length lru" "lru ! i = a" using position_Some [OF Some] by simp_all
  have split: "lru = take i lru @ a # drop (Suc i) lru" using id_take_nth_drop [OF i(1)] i(2) by simp
  then have "a \<notin> set (take i lru @ drop (Suc i) lru)"
    using assms(1) by (metis distinct_append distinct.simps(2) Un_iff disjoint_iff list.set_intros(1) set_append)
  moreover have "filter (\<lambda>b. b \<noteq> a) lru = filter (\<lambda>b. b \<noteq> a) (take i lru @ drop (Suc i) lru)"
    by (subst split) simp
  ultimately have f: "filter (\<lambda>b. b \<noteq> a) lru = take i lru @ drop (Suc i) lru"
    using filter_neq_id by metis
  have "promote_lru a lru = a # (take i lru @ drop (Suc i) lru)"
    using Some i by (cases i; cases lru) (auto simp: promote_lru_def)
  moreover have "a \<in> set lru" using i nth_mem by blast
  ultimately show ?thesis using f by simp
qed

lemma distinct_recent: "distinct (recent history)"
  by (induction history) auto

lemma take_filter_member:
  "distinct xs \<Longrightarrow> a \<in> set (take n xs) \<Longrightarrow> filter (\<lambda>b. b \<noteq> a) (take n xs) = take (n - 1) (filter (\<lambda>b. b \<noteq> a) xs)"
proof (induction xs arbitrary: n)
  case (Cons x xs)
  then obtain m where n: "n = Suc m" by (cases n) auto
  show ?case
  proof (cases "x = a")
    case True
    then have "a \<notin> set xs" using Cons.prems(1) by simp
    moreover from this have "a \<notin> set (take m xs)" using set_take_subset by fastforce
    ultimately show ?thesis using True n by (simp add: filter_neq_id)
  next
    case False
    then have "a \<in> set (take m xs)" using Cons.prems(2) n by simp
    moreover from this obtain k where "m = Suc k" by (cases m) auto
    ultimately show ?thesis using Cons False n by simp
  qed
qed simp

lemma take_filter_absent:
  "a \<notin> set (take n xs) \<Longrightarrow> k \<le> n \<Longrightarrow> take k (filter (\<lambda>b. b \<noteq> a) xs) = take k xs"
proof (induction xs arbitrary: n k)
  case (Cons x xs)
  then show ?case by (cases n; cases k) auto
qed simp

lemma promote_is_recent:
  "fold promote_lru history [] = take lru_capacity (recent (rev history))"
proof (induction history rule: rev_induct)
  case (snoc a history)
  let ?r = "recent (rev history)"
  have "fold promote_lru (history @ [a]) [] = promote_lru a (take lru_capacity ?r)" by (simp add: snoc)
  also have "\<dots> = a # take (lru_capacity - 1) (filter (\<lambda>b. b \<noteq> a) ?r)"
    using promote_lru_filter [of "take lru_capacity ?r" a] distinct_recent [of "rev history"]
      take_filter_member [of ?r a lru_capacity] take_filter_absent [of a lru_capacity ?r "lru_capacity - 1"]
    by (auto simp: min_def)
  also have "\<dots> = take lru_capacity (recent (rev (history @ [a])))" by (simp add: lru_capacity_def)
  finally show ?case .
qed simp

text \<open>C24. The LRU list refines the history of accesses: after any sequence of accesses it holds the
  eight most recently used zones, each once, in the order of their last use.\<close>

theorem lru_is_recent_history:
  "fold promote_lru history [] = take 8 (recent (rev history))"
  using promote_is_recent [of history] by (simp add: lru_capacity_def)

subsection \<open>Steps of the store and its invariant\<close>

text \<open>Any thread may take the next step: find a key, load a zone, store a loaded zone under its key,
  clear the cache, release a reference, or make a zone that it holds the system zone.\<close>

inductive store_step :: "store \<Rightarrow> store \<Rightarrow> bool" where
  find: "cache_find key s = (r, t) \<Longrightarrow> store_step s t"
| load: "arc_new z s = (a, t) \<Longrightarrow> store_step s t"
| insert: "a \<in> set (st_held s) \<Longrightarrow> st_heap s a = Some z \<Longrightarrow> zone_key z = Some key
    \<Longrightarrow> cache_store key a s = (b, t) \<Longrightarrow> store_step s t"
| clear: "store_step s (clear_all s)"
| clear_keys: "store_step s (clear_only keys s)"
| release: "store_step s (arc_drop a s)"
| set_system: "a \<in> set (st_held s) \<Longrightarrow> store_step s (s\<lparr>st_system := Some a\<rparr>)"

inductive_cases store_stepE: "store_step s t"

inductive store_reachable :: "store \<Rightarrow> bool" where
  start: "store_reachable store_new"
| step: "store_reachable s \<Longrightarrow> store_step s t \<Longrightarrow> store_reachable t"

definition key_of :: "store \<Rightarrow> nat \<Rightarrow> bytes option" where
  "key_of s a = (case st_heap s a of Some z \<Rightarrow> zone_key z | None \<Rightarrow> None)"

definition store_inv :: "store \<Rightarrow> bool" where
  "store_inv s \<longleftrightarrow>
     length (st_lru s) \<le> 8 \<and> distinct (st_lru s)
     \<and> (\<forall>a \<in> set (st_lru s). \<exists>k. key_of s a = Some k \<and> st_lookup s k = Some a)
     \<and> (\<forall>k a. st_lookup s k = Some a \<longrightarrow> key_of s a = Some k)
     \<and> (\<forall>a. alive s a \<longrightarrow> st_heap s a \<noteq> None)
     \<and> (\<forall>a. st_heap s a \<noteq> None \<longrightarrow> a < st_next s)"

lemma set_promote:
  assumes "distinct lru" and "length lru \<le> 8"
  shows "set (promote_lru a lru) \<subseteq> insert a (set lru)" and "a \<in> set (promote_lru a lru)"
    and "distinct (promote_lru a lru)" and "length (promote_lru a lru) \<le> 8"
proof -
  have p: "promote_lru a lru = (if a \<in> set lru then a # filter (\<lambda>b. b \<noteq> a) lru else a # take 7 lru)"
    using promote_lru_filter [OF assms(1)] assms(2) by (simp add: lru_capacity_def)
  show "a \<in> set (promote_lru a lru)" by (simp add: p)
  show "set (promote_lru a lru) \<subseteq> insert a (set lru)" using set_take_subset [of 7 lru] by (auto simp: p)
  have "a \<notin> set (take 7 lru)" if "a \<notin> set lru" using that set_take_subset [of 7 lru] by blast
  then show "distinct (promote_lru a lru)" using assms(1) by (simp add: p)
  have "length (filter (\<lambda>b. b \<noteq> a) lru) < length lru" if "a \<in> set lru"
    using that by (auto intro: length_filter_less)
  then show "length (promote_lru a lru) \<le> 8" using assms(2) by (fastforce simp: p)
qed

lemma new_to_lru_promote:
  assumes "a \<notin> set lru"
  shows "new_to_lru a lru = promote_lru a lru"
proof -
  have "position (\<lambda>p. p = a) lru = None" using assms by (auto simp: position_None)
  then show ?thesis by (simp add: promote_lru_def)
qed

lemma key_of_simps [simp]:
  "key_of (arc_clone a s) = key_of s" "key_of (arc_drop a s) = key_of s"
  "key_of (s\<lparr>st_lru := l\<rparr>) = key_of s" "key_of (s\<lparr>st_lookup := m\<rparr>) = key_of s"
  "key_of (s\<lparr>st_system := q\<rparr>) = key_of s" "key_of (s\<lparr>st_held := h\<rparr>) = key_of s"
  by (simp_all add: key_of_def fun_eq_iff arc_clone_def arc_drop_def)

lemma inv_promote:
  assumes "store_inv s" and "st_lookup s k = Some a" and "alive s a"
  shows "store_inv (arc_clone a (s\<lparr>st_lru := promote_lru a (st_lru s)\<rparr>))"
  using assms set_promote [of "st_lru s" a]
  unfolding store_inv_def by (auto simp: alive_def arc_clone_def key_of_def)

lemma inv_drop: "store_inv s \<Longrightarrow> store_inv (arc_drop a s)"
  unfolding store_inv_def by (auto simp: alive_def arc_drop_def key_of_def dest: notin_set_remove1)

lemma inv_find:
  assumes "store_inv s" and "cache_find key s = (r, t)"
  shows "store_inv t"
proof (cases "st_lookup s key \<bind> upgrade s")
  case (Some a)
  then have "st_lookup s key = Some a" "alive s a" by (auto simp: bind_Some_iff upgrade_def split: if_splits)
  from inv_promote [OF assms(1) this] Some assms(2) show ?thesis by (auto simp: cache_find_def)
qed (use assms in \<open>auto simp: cache_find_def\<close>)

lemma inv_store:
  assumes "store_inv s" and "a \<in> set (st_held s)" and "key_of s a = Some key" and "cache_store key a s = (b, t)"
  shows "store_inv t"
proof (cases "st_lookup s key \<bind> upgrade s")
  case (Some c)
  then have "st_lookup s key = Some c" "alive s c" by (auto simp: bind_Some_iff upgrade_def split: if_splits)
  from inv_drop [OF inv_promote [OF assms(1) this], of a] Some assms(4) show ?thesis by (auto simp: cache_store_def)
next
  case None
  have dead: "c \<notin> set (st_lru s)" if "st_lookup s key = Some c" for c
    using None that by (auto simp: upgrade_def alive_def split: if_splits)
  have "key_of s c \<noteq> Some key" if "c \<in> set (st_lru s)" for c
    using assms(1) that dead unfolding store_inv_def by fastforce
  then have new: "a \<notin> set (st_lru s)" using assms(3) by blast
  have keep: "st_lookup s k = Some c \<Longrightarrow> c \<in> set (st_lru s) \<Longrightarrow> k \<noteq> key" for k c using dead by blast
  have t: "t = s\<lparr>st_lookup := (st_lookup s)(key \<mapsto> a), st_lru := promote_lru a (st_lru s)\<rparr>"
    using None assms(4) new_to_lru_promote [OF new] by (auto simp: cache_store_def)
  note p = set_promote [of "st_lru s" a]
  show ?thesis
    unfolding store_inv_def
  proof (intro conjI)
    show "\<forall>c \<in> set (st_lru t). \<exists>k. key_of t c = Some k \<and> st_lookup t k = Some c"
    proof
      fix c assume "c \<in> set (st_lru t)"
      then have "c = a \<or> c \<in> set (st_lru s)" using p assms(1) by (auto simp: t store_inv_def)
      then show "\<exists>k. key_of t c = Some k \<and> st_lookup t k = Some c"
      proof
        assume c: "c \<in> set (st_lru s)"
        then obtain k where "key_of s c = Some k" "st_lookup s k = Some c" using assms(1) by (auto simp: store_inv_def)
        with keep [OF this(2) c] show ?thesis by (simp add: t key_of_def)
      qed (use assms(3) in \<open>simp add: t key_of_def\<close>)
    qed
  qed (use assms p in \<open>auto simp: t store_inv_def alive_def key_of_def\<close>)
qed

lemma inv_clear_key: "store_inv s \<Longrightarrow> store_inv (clear_key k s)"
  unfolding store_inv_def
  by (auto simp: clear_key_def alive_def key_of_def intro: order.trans [OF length_filter_le])

lemma inv_new:
  assumes "store_inv s" and "arc_new z s = (a, t)"
  shows "store_inv t"
proof -
  have t: "t = s\<lparr>st_heap := (st_heap s)(st_next s \<mapsto> z), st_next := st_next s + 1, st_held := st_next s # st_held s\<rparr>"
    using assms(2) by (auto simp: arc_new_def)
  have fresh: "st_heap s (st_next s) = None" using assms(1) unfolding store_inv_def by blast
  have key: "key_of t c = Some k" if "key_of s c = Some k" for c k
    using that fresh by (auto simp: t key_of_def split: option.splits)
  have alive: "alive t c \<longleftrightarrow> c = st_next s \<or> alive s c" for c by (auto simp: t alive_def)
  show ?thesis
    unfolding store_inv_def
  proof (intro conjI)
    show "\<forall>c \<in> set (st_lru t). \<exists>k. key_of t c = Some k \<and> st_lookup t k = Some c"
      using assms(1) key by (fastforce simp: t store_inv_def)
    show "\<forall>k c. st_lookup t k = Some c \<longrightarrow> key_of t c = Some k"
      using assms(1) key by (simp add: t store_inv_def)
    show "\<forall>c. alive t c \<longrightarrow> st_heap t c \<noteq> None"
      using assms(1) unfolding alive by (auto simp: t store_inv_def)
    show "\<forall>c. st_heap t c \<noteq> None \<longrightarrow> c < st_next t"
      using assms(1) by (auto simp: t store_inv_def less_SucI)
  qed (use assms(1) in \<open>simp_all add: t store_inv_def\<close>)
qed

lemma store_step_inv:
  assumes "store_step s t" and "store_inv s"
  shows "store_inv t"
  using assms
proof cases
  case (insert a z key b)
  then show ?thesis using inv_store [OF assms(2)] by (simp add: key_of_def)
next
  case (clear_keys keys)
  have "store_inv (fold clear_key keys s)"
    using assms(2) by (induction keys arbitrary: s) (simp_all add: inv_clear_key)
  then show ?thesis by (simp add: clear_keys clear_only_def)
next
  case clear
  then show ?thesis using assms(2) by (auto simp: clear_all_def store_inv_def alive_def key_of_def)
next
  case (set_system a)
  then show ?thesis using assms(2) unfolding store_inv_def by (auto simp: alive_def key_of_def)
qed (use assms(2) in \<open>auto intro: inv_find inv_new inv_drop\<close>)

lemma reachable_inv: "store_reachable s \<Longrightarrow> store_inv s"
proof (induction rule: store_reachable.induct)
  case start
  show ?case by (simp add: store_inv_def store_new_def alive_def)
qed (rule store_step_inv)

text \<open>C25. In every reachable state of the store, however the threads interleave, the LRU list holds at
  most eight zones with distinct keys, each of them the zone that the lookup table has for its key,
  and every strong reference leads to an allocated zone.\<close>

theorem store_invariant:
  assumes "store_reachable s"
  shows "length (st_lru s) \<le> 8 \<and> distinct (map (key_of s) (st_lru s))
    \<and> (\<forall>a \<in> set (st_lru s). \<exists>k. key_of s a = Some k \<and> st_lookup s k = Some a)
    \<and> (\<forall>a. alive s a \<longrightarrow> st_heap s a \<noteq> None)"
proof -
  have inv: "store_inv s" using assms by (rule reachable_inv)
  have "inj_on (key_of s) (set (st_lru s))"
  proof (rule inj_onI)
    fix a b
    assume "a \<in> set (st_lru s)" "b \<in> set (st_lru s)" "key_of s a = key_of s b"
    moreover have "\<exists>k. key_of s c = Some k \<and> st_lookup s k = Some c" if "c \<in> set (st_lru s)" for c
      using inv that by (simp add: store_inv_def)
    ultimately show "a = b" by (metis option.inject)
  qed
  then show ?thesis using inv by (simp add: store_inv_def distinct_map)
qed

subsection \<open>Getting a zone\<close>

lemma parse_content_key: "parse_content h s key = Done (Inr z) \<Longrightarrow> zone_key z = key"
  by (auto simp: parse_content_def Let_def ok_or_Inr split: if_splits)

lemma parse_tzif_key: "parse_tzif s key = Done (Inr z) \<Longrightarrow> zone_key z = key"
  by (auto simp: parse_tzif_def ok_or_Inr dest: parse_content_key)

lemma read_tzif_key:
  assumes "read_tzif_at_path fs path key = Done (Some z)"
  shows "zone_key z = key \<and> zone_ok z"
proof -
  obtain d r where "parse_tzif d key = Done r" "(case r of Inl _ \<Rightarrow> None | Inr z \<Rightarrow> Some z) = Some z"
    using assms by (auto simp: read_tzif_at_path_def run_bind_Done split: option.splits)
  then have "parse_tzif d key = Done (Inr z)" by (cases r) simp_all
  then show ?thesis using parse_tzif_key parse_tzif_ok by blast
qed

lemma load_tzpath_key: "load_tzif_from_tzpath fs paths key = Done (Some z) \<Longrightarrow> zone_key z = Some key \<and> zone_ok z"
  by (induction paths) (auto simp: run_bind_Done dest: read_tzif_key split: option.splits)

lemma load_tzif_key:
  "load_tzif fs paths tzdata key = Done (Some z) \<Longrightarrow> zone_key z = Some key \<and> zone_ok z"
  by (auto simp: load_tzif_def benign_key_def load_tzif_from_tzdata_def run_bind_Done
      dest: load_tzpath_key read_tzif_key split: option.splits if_splits)

lemma find_hit:
  assumes "store_inv s" and "cache_find key s = (Some a, t)"
  shows "st_lookup s key = Some a \<and> alive s a \<and> st_lookup t key = Some a \<and> alive t a \<and> key_of t a = Some key"
  using assms
  by (auto simp: cache_find_def upgrade_def alive_def arc_clone_def store_inv_def key_of_def
      split: option.splits if_splits bind_splits)

lemma get_cases:
  assumes "store_inv s" and "get_or_insert_with key load s = Done (r, t)"
  obtains (hit) a where "r = Some a" "cache_find key s = (Some a, t)"
  | (none) "r = None" "t = s" "load = Done None"
  | (loaded) z s' where "r = Some (st_next s)" "load = Done (Some z)" "arc_new z s = (st_next s, s')"
      "cache_store key (st_next s) s' = (st_next s, t)" "st_lookup t key = Some (st_next s)"
      "\<forall>b. st_lookup s key = Some b \<longrightarrow> \<not> alive s b"
proof (cases "st_lookup s key \<bind> upgrade s")
  case (Some a)
  then have "cache_find key s = (Some a, arc_clone a (s\<lparr>st_lru := promote_lru a (st_lru s)\<rparr>))"
    unfolding cache_find_def Some by simp
  with assms(2) show ?thesis by (intro hit) (auto simp: get_or_insert_with_def)
next
  case None
  then have find: "cache_find key s = (None, s)" unfolding cache_find_def None by simp
  have dead: "\<not> alive s b" if "st_lookup s key = Some b" for b
    using None that by (auto simp: upgrade_def split: if_splits)
  from assms(2) find obtain l where l: "load = Done l" by (cases load) (auto simp: get_or_insert_with_def)
  show ?thesis
  proof (cases l)
    case None
    with assms(2) find l show ?thesis by (intro none) (auto simp: get_or_insert_with_def)
  next
    case (Some z)
    obtain s' where s': "arc_new z s = (st_next s, s')" by (simp add: arc_new_def)
    have "\<not> alive s' b" if "st_lookup s' key = Some b" for b
    proof -
      have "st_lookup s key = Some b" using that s' by (auto simp: arc_new_def)
      moreover from this have "b \<noteq> st_next s"
        using assms(1) unfolding store_inv_def by (force simp: key_of_def split: option.splits)
      ultimately show ?thesis using dead s' by (auto simp: arc_new_def alive_def)
    qed
    then have "st_lookup s' key \<bind> upgrade s' = None"
      by (cases "st_lookup s' key") (simp_all add: upgrade_def)
    then have st: "cache_store key (st_next s) s' = (st_next s, s'\<lparr>st_lookup := (st_lookup s')(key \<mapsto> st_next s),
        st_lru := new_to_lru (st_next s) (st_lru s')\<rparr>)"
      by (simp add: cache_store_def)
    with assms(2) find l Some s' dead show ?thesis by (intro loaded) (auto simp: get_or_insert_with_def)
  qed
qed

text \<open>C26. Getting a key from a reachable store returns a zone with that key, which is
  now alive and in the lookup table, and the store stays reachable. While the zone that the table has
  for the key is alive, it is that very object (a clear forgets it). Errors leave the store as it
  was.\<close>

theorem store_get_spec:
  assumes "store_reachable s" and "store_get fs paths tzdata key s = Done (r, t)"
  shows "store_reachable t \<and> (case r of
      Inl e \<Rightarrow> e = TzNotFound \<and> t = s
    | Inr a \<Rightarrow> key_of t a = Some key \<and> st_lookup t key = Some a \<and> alive t a
        \<and> (\<forall>b. st_lookup s key = Some b \<and> alive s b \<longrightarrow> a = b))"
proof -
  have inv: "store_inv s" using assms(1) by (rule reachable_inv)
  obtain q where q: "get_or_insert_with key (load_tzif fs paths tzdata key) s = Done (q, t)"
    and r: "r = (case q of Some a \<Rightarrow> Inr a | None \<Rightarrow> Inl TzNotFound)"
    using assms(2) by (auto simp: store_get_def run_bind_Done)
  from inv q show ?thesis
  proof (cases rule: get_cases)
    case (hit a)
    then have "store_reachable t" using store_reachable.step [OF assms(1) store_step.find] by blast
    with find_hit [OF inv hit(2)] hit(1) show ?thesis by (simp add: r)
  next
    case none
    with assms(1) show ?thesis by (simp add: r)
  next
    case (loaded z s')
    have z: "zone_key z = Some key" using load_tzif_key [OF loaded(2)] by simp
    have s': "store_reachable s'" using store_reachable.step [OF assms(1) store_step.load [OF loaded(3)]] .
    have held: "st_next s \<in> set (st_held s')" "st_heap s' (st_next s) = Some z"
      using loaded(3) by (auto simp: arc_new_def)
    have t: "store_reachable t" using store_reachable.step [OF s' store_step.insert [OF held z loaded(4)]] .
    have "key_of t (st_next s) = Some key"
      using reachable_inv [OF t] loaded(5) by (simp add: store_inv_def)
    moreover have "alive t (st_next s)"
      using loaded(4) held(1) by (auto simp: cache_store_def alive_def new_to_lru_def arc_drop_def arc_clone_def
          split: option.splits)
    ultimately show ?thesis using t loaded(1,5,6) by (auto simp: r)
  qed
qed

theorem store_get_spec_witness:
  "\<exists>a t. store_get (\<lambda>p. if p = ''/tz/CET'' then Some file_v2 else None) [''/tz''] None ''CET'' store_new
      = Done (Inr a, t)
    \<and> store_reachable t \<and> key_of t a = Some ''CET'' \<and> st_lookup t ''CET'' = Some a \<and> alive t a"
proof -
  let ?get = "store_get (\<lambda>p. if p = ''/tz/CET'' then Some file_v2 else None) [''/tz''] None ''CET'' store_new"
  have "case ?get of Done (Inr a, t) \<Rightarrow> True | _ \<Rightarrow> False" by code_simp
  then obtain a t where "?get = Done (Inr a, t)" by (auto split: run.splits sum.splits prod.splits)
  with store_get_spec [OF store_reachable.start this] show ?thesis by auto
qed

text \<open>Two threads that load the same key before either of them stores it, and then another key.\<close>

theorem store_invariant_witness:
  "let s1 = snd (arc_new (zone_v2\<lparr>zone_key := Some ''CET''\<rparr>) store_new);
       s2 = snd (arc_new (zone_v2\<lparr>zone_key := Some ''CET''\<rparr>) s1);
       s3 = snd (cache_store ''CET'' 1 s2);
       s4 = snd (cache_store ''CET'' 0 s3);
       s5 = snd (arc_new (zone_v2\<lparr>zone_key := Some ''MET''\<rparr>) s4);
       s6 = snd (cache_store ''MET'' 2 s5)
   in st_lru s6 = [2, 1] \<and> length (st_lru s6) \<le> 8 \<and> distinct (map (key_of s6) (st_lru s6))
      \<and> (\<forall>a \<in> set (st_lru s6). \<exists>k. key_of s6 a = Some k \<and> st_lookup s6 k = Some a)"
proof -
  define cet met where "cet = zone_v2\<lparr>zone_key := Some ''CET''\<rparr>" and "met = zone_v2\<lparr>zone_key := Some ''MET''\<rparr>"
  have k: "zone_key cet = Some ''CET''" "zone_key met = Some ''MET''" by (simp_all add: cet_def met_def)
  define s1 s2 s3 s4 s5 s6 where
    "s1 = snd (arc_new cet store_new)" and "s2 = snd (arc_new cet s1)" and "s3 = snd (cache_store ''CET'' 1 s2)"
    and "s4 = snd (cache_store ''CET'' 0 s3)" and "s5 = snd (arc_new met s4)" and "s6 = snd (cache_store ''MET'' 2 s5)"
  note defs = s1_def s2_def s3_def s4_def s5_def s6_def
  note run = arc_new_def cache_store_def store_new_def upgrade_def alive_def arc_drop_def arc_clone_def new_to_lru_def
    promote_lru_def lru_capacity_def
  have s2: "st_held s2 = [1, 0]" "st_heap s2 1 = Some cet" by (simp_all add: defs run)
  have s3: "st_held s3 = [1, 0]" "st_heap s3 0 = Some cet" by (simp_all add: defs run)
  have s5: "2 \<in> set (st_held s5)" "st_heap s5 2 = Some met" by (simp_all add: defs run)
  have "store_reachable s1" unfolding s1_def
    by (rule store_reachable.step [OF store_reachable.start store_step.load [OF prod.collapse [symmetric]]])
  then have "store_reachable s2" unfolding s2_def
    by (rule store_reachable.step [OF _ store_step.load [OF prod.collapse [symmetric]]])
  then have "store_reachable s3" unfolding s3_def
    by (rule store_reachable.step [OF _ store_step.insert [OF _ s2(2) k(1) prod.collapse [symmetric]]]) (simp add: s2)
  then have "store_reachable s4" unfolding s4_def
    by (rule store_reachable.step [OF _ store_step.insert [OF _ s3(2) k(1) prod.collapse [symmetric]]]) (simp add: s3)
  then have "store_reachable s5" unfolding s5_def
    by (rule store_reachable.step [OF _ store_step.load [OF prod.collapse [symmetric]]])
  then have "store_reachable s6" unfolding s6_def
    by (rule store_reachable.step [OF _ store_step.insert [OF s5 k(2) prod.collapse [symmetric]]])
  note store_invariant [OF this]
  moreover have "st_lru s6 = [2, 1]" by (simp add: defs run)
  ultimately show ?thesis unfolding Let_def defs cet_def met_def by blast
qed

subsection \<open>Keys and paths\<close>

text \<open>The components of a path.\<close>

fun path_components :: "bytes \<Rightarrow> bytes list" where
  "path_components [] = [[]]"
| "path_components (c # s) =
     (if c = CHR ''/'' then [] # path_components s
      else (case path_components s of x # xs \<Rightarrow> (c # x) # xs | [] \<Rightarrow> [[c]]))"

lemma starts_with_iff: "str_starts_with p s \<longleftrightarrow> (\<exists>v. s = p @ v)"
  by (induction p s rule: str_starts_with.induct) auto

lemma contains_iff: "str_contains p s \<longleftrightarrow> (\<exists>u v. s = u @ p @ v)"
proof (induction p s rule: str_contains.induct)
  case (2 p c s)
  have "(\<exists>u v. c # s = u @ p @ v) \<longleftrightarrow> (\<exists>v. c # s = p @ v) \<or> (\<exists>u v. s = u @ p @ v)"
    by (metis Cons_eq_append_conv append_Cons append_Nil)
  with 2 show ?case by (simp only: str_contains.simps starts_with_iff)
qed simp

lemma components_ne [simp]: "path_components s \<noteq> []"
  by (cases s) (auto split: list.split)

lemma first_component: "\<exists>v. s = hd (path_components s) @ v"
proof (induction s)
  case (Cons c s)
  then show ?case by (cases "path_components s") auto
qed simp

lemma component_in: "x \<in> set (path_components s) \<Longrightarrow> \<exists>u v. s = u @ x @ v"
proof (induction s)
  case (Cons c s)
  obtain y ys where y: "path_components s = y # ys" by (cases "path_components s") auto
  obtain v where v: "s = y @ v" using first_component [of s] y by auto
  have "x = [] \<or> x = c # y \<or> x \<in> set (path_components s)" using Cons.prems y by (auto split: if_splits)
  then show ?case
  proof (elim disjE)
    assume "x \<in> set (path_components s)"
    then obtain u w where "s = u @ x @ w" using Cons.IH by blast
    then have "c # s = (c # u) @ x @ w" by simp
    then show ?thesis by blast
  next
    assume "x = c # y"
    then have "c # s = [] @ x @ v" by (simp add: v)
    then show ?thesis by blast
  next
    assume "x = []"
    then have "c # s = [] @ x @ (c # s)" by simp
    then show ?thesis by blast
  qed
qed simp

lemma hd_component: "hd (path_components s) = [] \<longleftrightarrow> s = [] \<or> hd s = CHR ''/''"
  by (cases s) (auto split: list.split)

lemma later_component:
  "[] \<in> set (tl (path_components s)) \<Longrightarrow> last s = CHR ''/'' \<or> (\<exists>u v. s = u @ ''//'' @ v)"
proof (induction s)
  case (Cons c s)
  obtain y ys where y: "path_components s = y # ys" by (cases "path_components s") auto
  have grow: "\<exists>u v. c # s = u @ ''//'' @ v" if s: "s = u @ ''//'' @ v" for u v
  proof -
    have "c # s = (c # u) @ ''//'' @ v" by (simp add: s)
    then show ?thesis by blast
  qed
  show ?case
  proof (cases "c = CHR ''/'' \<and> y = []")
    case True
    then consider "s = []" | r where "s = CHR ''/'' # r"
      using hd_component [of s] y by (cases s) auto
    then show ?thesis
    proof cases
      case 1
      then show ?thesis using True by simp
    next
      case (2 r)
      then have "c # s = [] @ ''//'' @ r" using True by simp
      then show ?thesis by blast
    qed
  next
    case False
    then have e: "[] \<in> set (tl (path_components s))" using Cons.prems y by (auto split: if_splits)
    then have "s \<noteq> []" by auto
    then show ?thesis using Cons.IH [OF e] grow by auto
  qed
qed simp

text \<open>What a key of the database looks like as a path: relative, without empty or parent
  components.\<close>

definition stays_below :: "bytes \<Rightarrow> bool" where
  "stays_below p \<longleftrightarrow> (\<forall>c \<in> set (path_components p). c \<noteq> [] \<and> c \<noteq> ''..'')"

lemma valid_key_stays_below:
  assumes "is_valid_key key"
  shows "stays_below key"
proof -
  have k: "\<not> str_contains ''..'' key" "\<not> str_contains ''//'' key" "key \<noteq> []" "hd key \<noteq> CHR ''/''" "last key \<noteq> CHR ''/''"
    using assms by (auto simp: is_valid_key_def)
  have "''..'' \<notin> set (path_components key)" using component_in [of "''..''" key] k(1) contains_iff by blast
  moreover have "[] \<notin> set (path_components key)"
  proof
    assume "[] \<in> set (path_components key)"
    then have "hd (path_components key) = [] \<or> [] \<in> set (tl (path_components key))"
      by (cases "path_components key") auto
    then show False using hd_component [of key] later_component [of key] k contains_iff [of "''//''" key] by auto
  qed
  ultimately show ?thesis unfolding stays_below_def by metis
qed

lemma load_tzpath_cong:
  assumes "\<forall>base \<in> set paths. fs (path_join base key) = fs' (path_join base key)"
  shows "load_tzif_from_tzpath fs paths key = load_tzif_from_tzpath fs' paths key"
  using assms by (induction paths) (simp_all add: read_tzif_at_path_def)

lemma valid_key_join: "is_valid_key key \<Longrightarrow>
    path_join base key = base @ (if base = [] \<or> last base = CHR ''/'' then [] else ''/'') @ key"
  by (simp add: is_valid_key_def path_join_def)

text \<open>C27. Loading a key, however malicious, looks only at files below the search directories: two
  file systems that agree on the paths that lead from a search directory down (no empty and no
  parent component) give the same result.\<close>

theorem load_stays_below_search_path:
  assumes agree: "\<And>base rel. base \<in> set paths \<or> tzdata = Some base \<Longrightarrow> stays_below rel \<Longrightarrow>
    fs (base @ (if base = [] \<or> last base = CHR ''/'' then [] else ''/'') @ rel)
      = fs' (base @ (if base = [] \<or> last base = CHR ''/'' then [] else ''/'') @ rel)"
  shows "load_tzif fs paths tzdata key = load_tzif fs' paths tzdata key"
proof (cases "is_valid_key key")
  case True
  have same: "fs (path_join base key) = fs' (path_join base key)" if "base \<in> set paths \<or> tzdata = Some base" for base
    unfolding valid_key_join [OF True] using that valid_key_stays_below [OF True] by (rule agree)
  then have "load_tzif_from_tzpath fs paths key = load_tzif_from_tzpath fs' paths key"
    by (intro load_tzpath_cong) simp
  moreover have "load_tzif_from_tzdata fs tzdata key = load_tzif_from_tzdata fs' tzdata key"
    using same by (simp add: load_tzif_from_tzdata_def read_tzif_at_path_def split: option.split)
  ultimately show ?thesis by (simp add: load_tzif_def benign_key_def True)
qed (simp add: load_tzif_def benign_key_def)

theorem load_stays_below_search_path_witness:
  "load_tzif (\<lambda>p. if p = ''/etc/passwd'' then Some file_v2 else None) [''/tz''] None ''../etc/passwd''
    = load_tzif (\<lambda>p. None) [''/tz''] None ''../etc/passwd''"
proof (rule load_stays_below_search_path)
  fix base rel :: bytes
  assume "base \<in> set [''/tz''] \<or> None = Some base"
  then have "base = ''/tz''" by simp
  then show "(if base @ (if base = [] \<or> last base = CHR ''/'' then [] else ''/'') @ rel = ''/etc/passwd'' then Some file_v2 else None)
      = None"
    by simp
qed

end
