(* ===== verification/Pickle.thy ===== *)
theory Pickle
  imports Moments Iso_Text
begin

section \<open>Pickle payloads (\<open>src/src/common/pickle.rs\<close>)\<close>

text \<open>
  The fixed-length little-endian payloads that values are pickled to. \<open>to_le_bytes\<close> and
  \<open>from_le_bytes\<close> of the integer types are \<open>le_bytes\<close> and \<open>le_value\<close>, the signed
  ones read in two's complement. A slice of the wrong length fails the \<open>try_into\<close>. What the
  codecs satisfy is in \<open>Pickle_Facts\<close>.
\<close>

fun le_bytes :: "nat \<Rightarrow> int \<Rightarrow> bytes" where
  "le_bytes 0 x = []"
| "le_bytes (Suc n) x = char_of (x mod 256) # le_bytes n (x div 256)"

fun le_value :: "bytes \<Rightarrow> int" where
  "le_value [] = 0"
| "le_value (c # cs) = byte c + 256 * le_value cs"

definition i64_from_le :: "bytes \<Rightarrow> int" where
  "i64_from_le b = as_i64 (le_value b)"

definition i32_from_le :: "bytes \<Rightarrow> int" where
  "i32_from_le b = as_i32 (le_value b)"

definition date_len :: nat where "date_len = 4"
definition time_len :: nat where "time_len = 7"
definition plain_datetime_len :: nat where "plain_datetime_len = date_len + time_len"
definition instant_len :: nat where "instant_len = 12"
definition time_delta_len :: nat where "time_delta_len = 12"
definition offset_datetime_len :: nat where "offset_datetime_len = plain_datetime_len + 4"

definition encode_date :: "date \<Rightarrow> bytes" where
  "encode_date v =
     le_bytes 2 (year_get (d_year v)) @ [char_of (month_get (d_month v)), char_of (d_day v)]"

definition decode_date :: "bytes \<Rightarrow> date option" where
  "decode_date b =
     (if length b \<noteq> date_len then None
      else do { y \<leftarrow> year_new (le_value (take 2 b));
                m \<leftarrow> month_new (byte (b ! 2));
                date_new y m (byte (b ! 3)) })"

definition encode_time :: "time \<Rightarrow> bytes" where
  "encode_time v =
     [char_of (t_hour v), char_of (t_minute v), char_of (t_second v)]
     @ le_bytes 4 (as_u32 (subsec_get (t_subsec v)))"

definition subsec_from_u32 :: "int \<Rightarrow> subsec_nanos option" where
  "subsec_from_u32 nanos = do { n \<leftarrow> checked i32_ok nanos; subsec_new n }"

definition decode_subsec :: "bytes \<Rightarrow> subsec_nanos option" where
  "decode_subsec b = (if length b \<noteq> 4 then None else subsec_from_u32 (le_value b))"

definition decode_time :: "bytes \<Rightarrow> time option" where
  "decode_time b =
     (if length b \<noteq> time_len then None
      else do { subsec \<leftarrow> subsec_from_u32 (le_value (drop 3 b));
                time_new (byte (b ! 0)) (byte (b ! 1)) (byte (b ! 2)) subsec })"

definition encode_plain :: "plain_datetime \<Rightarrow> bytes" where
  "encode_plain v = encode_date (pdt_date v) @ encode_time (pdt_time v)"

definition decode_plain :: "bytes \<Rightarrow> plain_datetime option" where
  "decode_plain b =
     (if length b \<noteq> plain_datetime_len then None
      else do { d \<leftarrow> decode_date (take date_len b);
                t \<leftarrow> decode_time (drop date_len b);
                Some \<lparr>pdt_date = d, pdt_time = t\<rparr> })"

definition encode_instant :: "instant \<Rightarrow> bytes" where
  "encode_instant v =
     le_bytes 8 (epoch_get (i_epoch v)) @ le_bytes 4 (as_u32 (subsec_get (i_subsec v)))"

definition decode_instant :: "bytes \<Rightarrow> instant option" where
  "decode_instant b =
     (if length b \<noteq> instant_len then None
      else do { e \<leftarrow> epoch_new (i64_from_le (take 8 b));
                s \<leftarrow> decode_subsec (drop 8 b);
                Some \<lparr>i_epoch = e, i_subsec = s\<rparr> })"

definition decode_pre_0_8_instant :: "bytes \<Rightarrow> instant option" where
  "decode_pre_0_8_instant b =
     (if length b \<noteq> instant_len then None
      else do { secs \<leftarrow> checked i64_ok (i64_from_le (take 8 b) + (epoch_min - 86400));
                e \<leftarrow> epoch_new secs;
                s \<leftarrow> decode_subsec (drop 8 b);
                Some \<lparr>i_epoch = e, i_subsec = s\<rparr> })"

definition encode_time_delta :: "time_delta \<Rightarrow> bytes" where
  "encode_time_delta v =
     le_bytes 8 (delta_seconds_get (td_secs v)) @ le_bytes 4 (as_u32 (subsec_get (td_subsec v)))"

definition decode_time_delta :: "bytes \<Rightarrow> time_delta option" where
  "decode_time_delta b =
     (if length b \<noteq> time_delta_len then None
      else (let secs = i64_from_le (take 8 b)
            in do { s \<leftarrow> decode_subsec (drop 8 b);
                    td_from_nanos (secs * 1000000000 + subsec_get s) }))"

definition encode_offset :: "offset_datetime \<Rightarrow> bytes" where
  "encode_offset v = encode_plain (odt_to_plain v) @ le_bytes 4 (offset_get (odt_offset v))"

definition decode_offset :: "bytes \<Rightarrow> offset_datetime option" where
  "decode_offset b =
     (if length b \<noteq> offset_datetime_len then None
      else do { p \<leftarrow> decode_plain (take plain_datetime_len b);
                x \<leftarrow> offset_new (i32_from_le (drop plain_datetime_len b));
                pdt_assume_offset p x })"

end
