(* ===== verification/Pickle_Facts.thy ===== *)
theory Pickle_Facts
  imports Pickle Iso_Facts Delta_Facts
begin

section \<open>The pickle codecs are bijections\<close>

text \<open>
  Every codec of \<open>Pickle\<close> maps the valid values one to one to the payloads that its decoder
  accepts: decoding what was encoded gives the value back, and a payload that is accepted is the
  only one of its value. The contract is the locale \<open>codec\<close>, interpreted on each of the six
  codecs.
\<close>

locale codec =
  fixes valid :: "'a \<Rightarrow> bool"
    and enc :: "'a \<Rightarrow> bytes"
    and dec :: "bytes \<Rightarrow> 'a option"
    and len :: nat
  assumes enc_length: "valid v \<Longrightarrow> length (enc v) = len"
    and dec_enc: "valid v \<Longrightarrow> dec (enc v) = Some v"
    and dec_valid: "dec b = Some v \<Longrightarrow> valid v"
    and enc_dec: "dec b = Some v \<Longrightarrow> enc v = b"
begin

lemma dec_Some_iff: "dec b = Some v \<longleftrightarrow> valid v \<and> b = enc v"
  using dec_enc dec_valid enc_dec by blast

lemma enc_inject: "valid v \<Longrightarrow> valid w \<Longrightarrow> enc v = enc w \<longleftrightarrow> v = w"
  by (metis dec_enc option.inject)

lemma accepted_payloads: "dec b \<noteq> None \<longleftrightarrow> (\<exists>v. valid v \<and> enc v = b)"
proof (cases "dec b")
  case None
  then show ?thesis using dec_enc by auto
next
  case (Some v)
  then show ?thesis using dec_valid enc_dec by blast
qed

lemma dec_length:
  assumes "dec b = Some v"
  shows "length b = len"
  using enc_length [OF dec_valid [OF assms]] enc_dec [OF assms] by simp

end

subsection \<open>Little-endian integers\<close>

lemma length_le_bytes [simp]: "length (le_bytes n x) = n"
  by (induction n arbitrary: x) simp_all

lemma byte_char_of [simp]: "byte (char_of x) = x mod 256" for x :: int
  by (simp add: byte_def of_char_of)

lemma le_value_bytes: "le_value (le_bytes n x) = x mod 256 ^ n"
proof (induction n arbitrary: x)
  case (Suc n)
  have "x mod (256 * 256 ^ n) = 256 * (x div 256 mod 256 ^ n) + x mod 256" by (rule zmod_zmult2_eq) simp
  then show ?case by (simp add: Suc)
qed simp

lemma le_bytes_value: "le_bytes (length b) (le_value b) = b"
proof (induction b)
  case (Cons c b)
  have "char_of (byte c) = c" by (simp add: byte_def)
  moreover have "(byte c + 256 * le_value b) mod 256 = byte c" by (simp add: mod_add_left_eq)
  moreover have "(byte c + 256 * le_value b) div 256 = le_value b" by simp
  ultimately show ?case using Cons by (simp del: of_char_of)
qed simp

lemma le_value_range: "0 \<le> le_value b" "le_value b < 256 ^ length b"
proof -
  show "0 \<le> le_value b" by (induction b) simp_all
  show "le_value b < 256 ^ length b"
    using le_value_bytes [of "length b" "le_value b"] by (simp add: le_bytes_value) (metis pos_mod_bound zero_less_numeral zero_less_power)
qed

lemma le_bytes_eq_iff: "le_bytes n x = le_bytes n y \<longleftrightarrow> x mod 256 ^ n = y mod 256 ^ n"
proof
  assume "x mod 256 ^ n = y mod 256 ^ n"
  then have "le_value (le_bytes n x) = le_value (le_bytes n y)" by (simp add: le_value_bytes)
  then show "le_bytes n x = le_bytes n y" using le_bytes_value [of "le_bytes n x"] le_bytes_value [of "le_bytes n y"] by simp
qed (metis le_value_bytes)

lemma i64_le_roundtrip:
  "-9223372036854775808 \<le> x \<Longrightarrow> x < 9223372036854775808 \<Longrightarrow> i64_from_le (le_bytes 8 x) = x"
  "length b = 8 \<Longrightarrow> le_bytes 8 (i64_from_le b) = b"
proof -
  show "i64_from_le (le_bytes 8 x) = x" if "-9223372036854775808 \<le> x" "x < 9223372036854775808"
    using that by (simp add: i64_from_le_def le_value_bytes as_i64_def mod_add_left_eq)
  show "le_bytes 8 (i64_from_le b) = b" if "length b = 8"
  proof -
    have "le_bytes 8 (i64_from_le b) = le_bytes 8 (le_value b)"
      unfolding le_bytes_eq_iff by (simp add: i64_from_le_def as_i64_def mod_diff_left_eq)
    then show ?thesis using le_bytes_value [of b] that by simp
  qed
qed

lemma i32_le_roundtrip:
  "-2147483648 \<le> x \<Longrightarrow> x < 2147483648 \<Longrightarrow> i32_from_le (le_bytes 4 x) = x"
  "length b = 4 \<Longrightarrow> le_bytes 4 (i32_from_le b) = b"
proof -
  show "i32_from_le (le_bytes 4 x) = x" if "-2147483648 \<le> x" "x < 2147483648"
    using that by (simp add: i32_from_le_def le_value_bytes as_i32_def mod_add_left_eq)
  show "le_bytes 4 (i32_from_le b) = b" if "length b = 4"
  proof -
    have "le_bytes 4 (i32_from_le b) = le_bytes 4 (le_value b)"
      unfolding le_bytes_eq_iff by (simp add: i32_from_le_def as_i32_def mod_diff_left_eq)
    then show ?thesis using le_bytes_value [of b] that by simp
  qed
qed

lemma i64_range: "-9223372036854775808 \<le> i64_from_le b \<and> i64_from_le b < 9223372036854775808"
  by (simp add: i64_from_le_def as_i64_def)

subsection \<open>The codecs\<close>

lemma subsec_from_u32_Some:
  "subsec_from_u32 n = Some s \<longleftrightarrow> subsec_ok s \<and> subsec_get s = n"
  by (auto simp: subsec_from_u32_def bind_Some_iff subsec_nt.new_Some_iff i32_ok_def subsec_ok_def bound_defs)

lemma subsec_u32 [simp]: "subsec_ok s \<Longrightarrow> as_u32 (subsec_get s) = subsec_get s"
  by (simp add: subsec_ok_def bound_defs)

lemma subsec_range: "subsec_ok s \<Longrightarrow> 0 \<le> subsec_get s \<and> subsec_get s < 1000000000"
  by (auto simp: subsec_ok_def bound_defs)

interpretation subsec_codec: codec subsec_ok "\<lambda>s. le_bytes 4 (as_u32 (subsec_get s))" decode_subsec 4
proof
  fix s :: subsec_nanos and b
  show "subsec_ok s \<Longrightarrow> length (le_bytes 4 (as_u32 (subsec_get s))) = 4" by simp
  show "subsec_ok s \<Longrightarrow> decode_subsec (le_bytes 4 (as_u32 (subsec_get s))) = Some s"
    using subsec_range [of s] by (simp add: decode_subsec_def subsec_from_u32_Some le_value_bytes)
  show "decode_subsec b = Some s \<Longrightarrow> subsec_ok s"
    by (auto simp: decode_subsec_def subsec_from_u32_Some split: if_splits)
  show "decode_subsec b = Some s \<Longrightarrow> le_bytes 4 (as_u32 (subsec_get s)) = b"
  proof -
    assume "decode_subsec b = Some s"
    then have s: "subsec_ok s" "subsec_get s = le_value b" "length b = 4"
      by (auto simp: decode_subsec_def subsec_from_u32_Some split: if_splits)
    from subsec_u32 [OF s(1)] have "as_u32 (subsec_get s) = le_value b" by (simp only: s(2))
    then show ?thesis using le_bytes_value [of b] s(3) by (simp only:)
  qed
qed

lemma year_new_Some: "0 \<le> n \<Longrightarrow> year_new n = Some y \<longleftrightarrow> year_ok y \<and> year_get y = n"
  by (cases y) (auto simp: year_new_def year_ok_def)

lemma le_bytes_2: "le_bytes 2 x = [char_of (x mod 256), char_of (x div 256 mod 256)]"
  by (simp add: numeral_2_eq_2)

lemma char_of_byte [simp]: "char_of (byte c) = c"
  by (simp add: byte_def)

interpretation date_codec: codec date_ok encode_date decode_date date_len
proof
  fix d :: date and b
  show "date_ok d \<Longrightarrow> length (encode_date d) = date_len" by (simp add: encode_date_def date_len_def)
  show "decode_date (encode_date d) = Some d" if "date_ok d"
  proof -
    have "year_ok (d_year d)" "0 \<le> d_day d" "d_day d < 256"
      using that days_in_month_range [of "d_year d" "d_month d"] by (simp_all add: date_ok_def)
    moreover have "year_get (d_year d) div 256 \<le> 9999 div 256"
      using calculation(1) by (intro zdiv_mono1) (simp_all add: year_ok_def)
    then have "year_get (d_year d) div 256 mod 256 = year_get (d_year d) div 256"
      using calculation(1) by (intro mod_pos_pos_trivial) (simp_all add: year_ok_def pos_imp_zdiv_nonneg_iff)
    moreover have "month_get (d_month d) mod 256 = month_get (d_month d)" by (cases "d_month d") simp_all
    ultimately show ?thesis
      using date_new_fields [OF that] year_new_Some [of "year_get (d_year d)" "d_year d"]
      by (simp add: decode_date_def encode_date_def date_len_def le_bytes_2 month_new_get year_ok_def)
  qed
  assume dec: "decode_date b = Some d"
  then obtain c1 c2 c3 c4 where b: "b = [c1, c2, c3, c4]"
    by (auto simp: decode_date_def date_len_def numeral_eq_Suc length_Suc_conv split: if_splits)
  obtain y m where y: "year_new (byte c1 + 256 * byte c2) = Some y" and m: "month_new (byte c3) = Some m"
    and d: "date_new y m (byte c4) = Some d"
    using dec by (auto simp: b decode_date_def date_len_def bind_Some_iff)
  have yg: "year_ok y" "year_get y = byte c1 + 256 * byte c2" using y year_new_Some by simp_all
  show "date_ok d" using date_new_ok [OF yg(1) d] .
  have low: "(byte c1 + 256 * byte c2) mod 256 = byte c1" by (simp add: mod_add_left_eq)
  have "char_of (byte c1 + 256 * byte c2) = (char_of ((byte c1 + 256 * byte c2) mod 256) :: char)"
    by (rule char_of_mod_256 [symmetric])
  also have "\<dots> = c1" unfolding low by simp
  finally have "char_of (byte c1 + 256 * byte c2) = c1" .
  moreover have "(byte c1 + 256 * byte c2) div 256 = byte c2" by simp
  ultimately show "encode_date d = b" using d m yg
    by (auto simp: encode_date_def le_bytes_2 b date_new_def month_new_Some_iff split: if_splits)
qed

interpretation time_codec: codec time_ok encode_time decode_time time_len
proof
  fix t :: time and b
  show "time_ok t \<Longrightarrow> length (encode_time t) = time_len" by (simp add: encode_time_def time_len_def)
  show "decode_time (encode_time t) = Some t" if "time_ok t"
  proof -
    have s: "subsec_ok (t_subsec t)" using that by (simp add: time_ok_def)
    then have "subsec_from_u32 (subsec_get (t_subsec t)) = Some (t_subsec t)" by (simp add: subsec_from_u32_Some)
    then show ?thesis
      using that subsec_range [OF s]
      by (simp add: decode_time_def encode_time_def time_len_def time_ok_def time_new_def le_value_bytes)
  qed
  assume dec: "decode_time b = Some t"
  then obtain c1 c2 c3 r where b: "b = c1 # c2 # c3 # r" and r: "length r = 4"
    by (auto simp: decode_time_def time_len_def numeral_eq_Suc length_Suc_conv split: if_splits)
  then obtain s where s: "subsec_ok s" "subsec_get s = le_value r" and t: "time_new (byte c1) (byte c2) (byte c3) s = Some t"
    using dec by (auto simp: decode_time_def time_len_def bind_Some_iff subsec_from_u32_Some)
  then show "time_ok t" by (auto simp: time_new_def time_ok_def split: if_splits)
  show "encode_time t = b"
    using t s le_bytes_value [of r] r by (auto simp: encode_time_def time_new_def b split: if_splits) (metis subsec_u32)
qed

interpretation plain_codec: codec pdt_ok encode_plain decode_plain plain_datetime_len
proof
  fix p :: plain_datetime and b
  show "pdt_ok p \<Longrightarrow> length (encode_plain p) = plain_datetime_len"
    by (simp add: pdt_ok_def encode_plain_def plain_datetime_len_def date_codec.enc_length time_codec.enc_length)
  show "pdt_ok p \<Longrightarrow> decode_plain (encode_plain p) = Some p"
    by (simp add: pdt_ok_def encode_plain_def decode_plain_def plain_datetime_len_def date_codec.enc_length
        time_codec.enc_length date_codec.dec_enc time_codec.dec_enc)
  assume "decode_plain b = Some p"
  then show "pdt_ok p" and "encode_plain p = b"
    by (auto simp: decode_plain_def pdt_ok_def encode_plain_def bind_Some_iff date_codec.dec_valid time_codec.dec_valid
        date_codec.enc_dec time_codec.enc_dec split: if_splits)
qed

interpretation instant_codec: codec instant_ok encode_instant decode_instant instant_len
proof
  fix i :: instant and b
  show "instant_ok i \<Longrightarrow> length (encode_instant i) = instant_len" by (simp add: encode_instant_def instant_len_def)
  show "decode_instant (encode_instant i) = Some i" if "instant_ok i"
  proof -
    have e: "epoch_ok (i_epoch i)" "subsec_ok (i_subsec i)" using that by (simp_all add: instant_ok_def)
    then have "i64_from_le (le_bytes 8 (epoch_get (i_epoch i))) = epoch_get (i_epoch i)"
      by (intro i64_le_roundtrip) (simp_all add: epoch_ok_iff)
    then show ?thesis using e
      by (simp add: decode_instant_def encode_instant_def instant_len_def epoch_nt.new_get subsec_codec.dec_enc del: subsec_u32)
  qed
  assume "decode_instant b = Some i"
  then have b: "length b = 12" "epoch_new (i64_from_le (take 8 b)) = Some (i_epoch i)" "decode_subsec (drop 8 b) = Some (i_subsec i)"
    by (auto simp: decode_instant_def instant_len_def bind_Some_iff split: if_splits)
  then show "instant_ok i" by (simp add: instant_ok_def epoch_nt.new_Some_iff subsec_codec.dec_valid)
  have "epoch_get (i_epoch i) = i64_from_le (take 8 b)" using b(2) by (simp add: epoch_nt.new_Some_iff)
  then show "encode_instant i = b"
    using b i64_le_roundtrip(2) [of "take 8 b"] subsec_codec.enc_dec [OF b(3)] by (simp add: encode_instant_def)
qed

lemma seconds_split:
  fixes a b m n :: int
  assumes "a * 1000000000 + m = b * 1000000000 + n"
    and "0 \<le> m" "m < 1000000000" "0 \<le> n" "n < 1000000000"
  shows "a = b \<and> m = n"
proof -
  have "(a * 1000000000 + m) div 1000000000 = a" "(b * 1000000000 + n) div 1000000000 = b"
    using assms(2-5) by simp_all
  with assms(1) have "a = b" by simp
  with assms(1) show ?thesis by simp
qed

interpretation time_delta_codec: codec td_ok encode_time_delta decode_time_delta time_delta_len
proof
  fix d :: time_delta and b
  show "td_ok d \<Longrightarrow> length (encode_time_delta d) = time_delta_len" by (simp add: encode_time_delta_def time_delta_len_def)
  show "decode_time_delta (encode_time_delta d) = Some d" if "td_ok d"
  proof -
    have d: "delta_seconds_ok (td_secs d)" "subsec_ok (td_subsec d)" using that by (simp_all add: td_ok_def)
    then have "i64_from_le (le_bytes 8 (delta_seconds_get (td_secs d))) = delta_seconds_get (td_secs d)"
      by (intro i64_le_roundtrip) (auto simp: delta_seconds_ok_def bound_defs)
    then show ?thesis using d that
      by (simp add: decode_time_delta_def encode_time_delta_def time_delta_len_def subsec_codec.dec_enc
          td_from_nanos_Some td_total_nanos_def ns_per_sec_def del: subsec_u32)
  qed
  assume "decode_time_delta b = Some d"
  then obtain s where b: "length b = 12" "decode_subsec (drop 8 b) = Some s"
    and n: "td_from_nanos (i64_from_le (take 8 b) * 1000000000 + subsec_get s) = Some d"
    by (auto simp: decode_time_delta_def time_delta_len_def bind_Some_iff Let_def split: if_splits)
  then show "td_ok d" by (simp add: td_from_nanos_Some)
  have s: "subsec_ok s" "subsec_ok (td_subsec d)"
    using subsec_codec.dec_valid [OF b(2)] n by (simp_all add: td_from_nanos_Some td_ok_def)
  have eq: "delta_seconds_get (td_secs d) * 1000000000 + subsec_get (td_subsec d) = i64_from_le (take 8 b) * 1000000000 + subsec_get s"
    using n by (simp add: td_from_nanos_Some td_total_nanos_def ns_per_sec_def)
  have "delta_seconds_get (td_secs d) = i64_from_le (take 8 b)" "subsec_get (td_subsec d) = subsec_get s"
  proof -
    show "delta_seconds_get (td_secs d) = i64_from_le (take 8 b)"
      and "subsec_get (td_subsec d) = subsec_get s"
      using seconds_split [OF eq] subsec_range [OF s(1)] subsec_range [OF s(2)] by simp_all
  qed
  then show "encode_time_delta d = b"
    using b(1) i64_le_roundtrip(2) [of "take 8 b"] subsec_codec.enc_dec [OF b(2)] by (simp add: encode_time_delta_def)
qed

interpretation offset_codec: codec odt_ok encode_offset decode_offset offset_datetime_len
proof
  fix x :: offset_datetime and b
  show "odt_ok x \<Longrightarrow> length (encode_offset x) = offset_datetime_len"
    by (simp add: odt_ok_def encode_offset_def offset_datetime_len_def odt_to_plain_def date_at_def pdt_ok_def
        plain_codec.enc_length)
  show "decode_offset (encode_offset x) = Some x" if "odt_ok x"
  proof -
    have p: "pdt_ok (odt_to_plain x)" and o': "offset_ok (odt_offset x)" using that by (simp_all add: odt_ok_def odt_to_plain_def date_at_def pdt_ok_def)
    have "i32_from_le (le_bytes 4 (offset_get (odt_offset x))) = offset_get (odt_offset x)"
      by (rule i32_le_roundtrip) (use o' in \<open>auto simp: offset_ok_def bound_defs\<close>)
    then show ?thesis using p o' that
      by (simp add: decode_offset_def encode_offset_def offset_datetime_len_def plain_codec.enc_length plain_codec.dec_enc
          offset_nt.new_get pdt_assume_offset_def odt_new_Some odt_to_plain_def date_at_def odt_ok_def)
  qed
  assume "decode_offset b = Some x"
  then obtain p o' where b: "length b = offset_datetime_len" "decode_plain (take plain_datetime_len b) = Some p"
    and o': "offset_new (i32_from_le (drop plain_datetime_len b)) = Some o'" and x: "pdt_assume_offset p o' = Some x"
    by (auto simp: decode_offset_def bind_Some_iff split: if_splits)
  then have x': "x = \<lparr>odt_date = pdt_date p, odt_time = pdt_time p, odt_offset = o'\<rparr>"
    by (simp add: pdt_assume_offset_def odt_new_Some)
  have og: "offset_ok o'" "offset_get o' = i32_from_le (drop plain_datetime_len b)"
    using o' by (simp_all add: offset_nt.new_Some_iff)
  show "odt_ok x" using plain_codec.dec_valid [OF b(2)] og x
    by (simp add: odt_ok_def x' pdt_ok_def odt_to_plain_def pdt_assume_offset_def odt_new_Some)
  have "le_bytes 4 (offset_get o') = drop plain_datetime_len b"
    unfolding og by (rule i32_le_roundtrip) (use b(1) in \<open>simp add: offset_datetime_len_def\<close>)
  then show "encode_offset x = b"
    using plain_codec.enc_dec [OF b(2)]
    by (cases p) (simp add: encode_offset_def x' odt_to_plain_def date_at_def)
qed

text \<open>C23. The decoders are strict: a payload is accepted only if it is the encoding of a valid value,
  so a tampered payload cannot produce a value that breaks an invariant, and two payloads never
  decode to the same value.\<close>

theorem pickle_accepts_only_encodings:
  "(decode_date b = Some d \<longleftrightarrow> date_ok d \<and> b = encode_date d)
    \<and> (decode_time b = Some t \<longleftrightarrow> time_ok t \<and> b = encode_time t)
    \<and> (decode_plain b = Some p \<longleftrightarrow> pdt_ok p \<and> b = encode_plain p)
    \<and> (decode_instant b = Some i \<longleftrightarrow> instant_ok i \<and> b = encode_instant i)
    \<and> (decode_time_delta b = Some e \<longleftrightarrow> td_ok e \<and> b = encode_time_delta e)
    \<and> (decode_offset b = Some x \<longleftrightarrow> odt_ok x \<and> b = encode_offset x)"
  by (intro conjI date_codec.dec_Some_iff time_codec.dec_Some_iff plain_codec.dec_Some_iff
      instant_codec.dec_Some_iff time_delta_codec.dec_Some_iff offset_codec.dec_Some_iff)

text \<open>The payloads of versions before 0.8 count the seconds from the day before the first one.\<close>

lemma decode_pre_0_8:
  assumes "instant_ok i"
  shows "decode_pre_0_8_instant
    (le_bytes 8 (epoch_get (i_epoch i) - epoch_min + 86400) @ le_bytes 4 (subsec_get (i_subsec i))) = Some i"
proof -
  have e: "epoch_ok (i_epoch i)" "subsec_ok (i_subsec i)" using assms by (simp_all add: instant_ok_def)
  then have "i64_from_le (le_bytes 8 (epoch_get (i_epoch i) - epoch_min + 86400)) = epoch_get (i_epoch i) - epoch_min + 86400"
    by (intro i64_le_roundtrip) (auto simp: epoch_ok_def epoch_bounds)
  moreover have "i64_ok (epoch_get (i_epoch i))" using e(1) by (simp add: i64_ok_def epoch_ok_iff)
  ultimately show ?thesis
    using e subsec_codec.dec_enc [OF e(2)]
    by (simp add: decode_pre_0_8_instant_def instant_len_def epoch_nt.new_get)
qed

end
