(* ===== verification/Difference.thy ===== *)
theory Difference
  imports Moments
begin

unbundle bit_operations_syntax

section \<open>Differences in calendar and clock units (\<open>difference.rs\<close>, \<open>itemized_*.rs\<close>)\<close>

text \<open>
  How many years, months, weeks and days lie between two dates, and how a duration is split
  into clock units, both with an increment and a rounding mode. \<open>TimeDelta::in_exact_units\<close>
  of \<open>time_delta.rs\<close> is here because its result is an \<open>ItemizedDelta\<close>.
\<close>

subsection \<open>Itemized deltas\<close>

text \<open>\<open>DeltaField<T>\<close>: a number, or the sentinel \<open>T::MIN\<close> for an unset field.\<close>

definition i32_sentinel :: int where "i32_sentinel = -2147483648"
definition i64_sentinel :: int where "i64_sentinel = -9223372036854775808"

datatype delta_field = DeltaField (df_raw: int)

definition df_is_set :: "int \<Rightarrow> delta_field \<Rightarrow> bool" where
  "df_is_set sentinel f \<longleftrightarrow> df_raw f \<noteq> sentinel"

definition df_as_option :: "int \<Rightarrow> delta_field \<Rightarrow> int option" where
  "df_as_option sentinel f = (if df_is_set sentinel f then Some (df_raw f) else None)"

definition df_get_or :: "int \<Rightarrow> delta_field \<Rightarrow> int \<Rightarrow> int" where
  "df_get_or sentinel f dflt = (if df_is_set sentinel f then df_raw f else dflt)"

definition df_i32_from_i64 :: "int \<Rightarrow> int option" where
  "df_i32_from_i64 v = do { x \<leftarrow> checked i32_ok v; if x \<noteq> i32_sentinel then Some x else None }"

definition df_i64_from_i64 :: "int \<Rightarrow> int option" where
  "df_i64_from_i64 v = (if v \<noteq> i64_sentinel then Some v else None)"

record itemized_date_delta =
  idd_years :: delta_field
  idd_months :: delta_field
  idd_weeks :: delta_field
  idd_days :: delta_field

definition idd_unset :: itemized_date_delta where
  "idd_unset = \<lparr>idd_years = DeltaField i32_sentinel, idd_months = DeltaField i32_sentinel,
     idd_weeks = DeltaField i32_sentinel, idd_days = DeltaField i32_sentinel\<rparr>"

definition idd_to_calendar_shift :: "itemized_date_delta \<Rightarrow> calendar_shift option" where
  "idd_to_calendar_shift d =
     do { y \<leftarrow> checked i32_ok (df_get_or i32_sentinel (idd_years d) 0 * 12);
          ym \<leftarrow> checked i32_ok (y + df_get_or i32_sentinel (idd_months d) 0);
          months \<leftarrow> delta_months_new ym;
          w \<leftarrow> checked i32_ok (df_get_or i32_sentinel (idd_weeks d) 0 * 7);
          wd \<leftarrow> checked i32_ok (w + df_get_or i32_sentinel (idd_days d) 0);
          days \<leftarrow> delta_days_new wd;
          Some \<lparr>cs_months = months, cs_days = days\<rparr> }"

record itemized_delta =
  id_years :: delta_field
  id_months :: delta_field
  id_weeks :: delta_field
  id_days :: delta_field
  id_hours :: delta_field
  id_minutes :: delta_field
  id_seconds :: delta_field
  id_nanos :: delta_field

definition id_unset :: itemized_delta where
  "id_unset = \<lparr>id_years = DeltaField i32_sentinel, id_months = DeltaField i32_sentinel,
     id_weeks = DeltaField i32_sentinel, id_days = DeltaField i32_sentinel,
     id_hours = DeltaField i32_sentinel, id_minutes = DeltaField i64_sentinel,
     id_seconds = DeltaField i64_sentinel, id_nanos = DeltaField i32_sentinel\<rparr>"

definition id_fill_calendar_units :: "itemized_delta \<Rightarrow> itemized_date_delta \<Rightarrow> itemized_delta" where
  "id_fill_calendar_units d data =
     d\<lparr>id_years := idd_years data, id_months := idd_months data,
       id_weeks := idd_weeks data, id_days := idd_days data\<rparr>"

definition id_to_shift :: "itemized_delta \<Rightarrow> datetime_shift option" where
  "id_to_shift d =
     do { calendar \<leftarrow> idd_to_calendar_shift \<lparr>idd_years = id_years d, idd_months = id_months d,
            idd_weeks = id_weeks d, idd_days = id_days d\<rparr>;
          let nanos = df_get_or i32_sentinel (id_hours d) 0 * ns_per_hour
                + df_get_or i64_sentinel (id_minutes d) 0 * ns_per_minute
                + df_get_or i64_sentinel (id_seconds d) 0 * ns_per_sec
                + df_get_or i32_sentinel (id_nanos d) 0
          in do { t \<leftarrow> td_from_nanos nanos; Some \<lparr>ds_calendar = calendar, ds_time = t\<rparr> } }"

subsection \<open>Increments\<close>

datatype calendar_increment = CalendarIncrement (ci_get: int)

definition ci_min :: calendar_increment where "ci_min = CalendarIncrement 1"

definition ci_new :: "int \<Rightarrow> calendar_increment option" where
  "ci_new inc = (if inc \<le> 0 \<or> inc > delta_days_max then None else Some (CalendarIncrement inc))"

definition ci_from_i64 :: "int \<Rightarrow> calendar_increment option" where
  "ci_from_i64 inc =
     (if inc \<le> 0 \<or> inc > delta_days_max then None else Some (CalendarIncrement (as_i32 inc)))"

definition ci_truncate :: "calendar_increment \<Rightarrow> int \<Rightarrow> int" where
  "ci_truncate inc v = v - v smod ci_get inc"

definition ci_signed :: "calendar_increment \<Rightarrow> bool \<Rightarrow> int" where
  "ci_signed inc neg = negate_if uminus (ci_get inc) neg"

datatype difference_increment = DifferenceIncrement (dinc_get: int)

definition dinc_new :: "int \<Rightarrow> difference_increment option" where
  "dinc_new inc = do { n \<leftarrow> checked u128_ok inc; if n \<noteq> 0 then Some (DifferenceIncrement n) else None }"

definition dinc_as_i128 :: "difference_increment \<Rightarrow> int" where
  "dinc_as_i128 inc = as_i128 (dinc_get inc)"

definition dinc_to_calendar :: "difference_increment \<Rightarrow> calendar_increment option" where
  "dinc_to_calendar inc = do { n \<leftarrow> checked i32_ok (dinc_get inc); ci_new n }"

subsection \<open>Differences of dates\<close>

text \<open>A date whose day may lie beyond the end of its month, until it is resolved.\<close>

record interim_date =
  im_year :: year
  im_month :: month
  im_day :: int

definition im_resolve :: "interim_date \<Rightarrow> date" where
  "im_resolve d = date_new_clamp_days (im_year d) (im_month d) (im_day d)"

definition im_replace_year :: "interim_date \<Rightarrow> year \<Rightarrow> interim_date" where
  "im_replace_year d y = \<lparr>im_year = y, im_month = im_month d, im_day = im_day d\<rparr>"

definition im_shift_months :: "interim_date \<Rightarrow> int \<Rightarrow> date option" where
  "im_shift_months d diff =
     do { dm \<leftarrow> delta_months_new diff;
          (y, m) \<leftarrow> month_shift (im_month d) (im_year d) dm;
          Some (date_new_clamp_days y m (im_day d)) }"

definition im_of_date :: "date \<Rightarrow> interim_date" where
  "im_of_date d = \<lparr>im_year = d_year d, im_month = d_month d, im_day = d_day d\<rparr>"

type_synonym calendar_diff = "int \<times> interim_date \<times> interim_date"

definition years_diff :: "date \<Rightarrow> interim_date \<Rightarrow> calendar_increment \<Rightarrow> bool \<Rightarrow> calendar_diff option" where
  "years_diff a b increment neg =
     (let diff = ci_truncate increment (year_get (d_year a) - year_get (im_year b))
      in do { y \<leftarrow> year_add_i32 (im_year b) diff;
              let shift = im_replace_year b y;
                  overshot = (if diff > 0 then im_resolve shift > a
                              else if diff < 0 then im_resolve shift < a else False)
              in if overshot then
                   (let adj = diff - ci_signed increment neg
                    in do { adj_year \<leftarrow> year_add_i32 (im_year b) adj;
                            Some (adj, im_replace_year b adj_year, shift) })
                 else do { exp_year \<leftarrow> year_add_i32 (im_year b) (diff + ci_signed increment neg);
                           Some (diff, shift, im_replace_year b exp_year) } })"

definition months_diff :: "date \<Rightarrow> interim_date \<Rightarrow> calendar_increment \<Rightarrow> bool \<Rightarrow> calendar_diff option" where
  "months_diff a b increment neg =
     (let diff = ci_truncate increment
            ((year_get (d_year a) - year_get (im_year b)) * 12
             + (month_get (d_month a) - month_get (im_month b)))
      in do { shift \<leftarrow> im_shift_months b diff;
              let overshot = (if diff > 0 then shift > a else if diff < 0 then shift < a else False)
              in if overshot then
                   (let adj = diff - ci_signed increment neg
                    in do { t \<leftarrow> im_shift_months b adj;
                            Some (adj, im_of_date t, im_of_date shift) })
                 else do { e \<leftarrow> im_shift_months b (diff + ci_signed increment neg);
                           Some (diff, im_of_date shift, im_of_date e) } })"

definition days_diff :: "date \<Rightarrow> interim_date \<Rightarrow> calendar_increment \<Rightarrow> bool \<Rightarrow> calendar_diff option" where
  "days_diff a b increment neg =
     (let b_resolved = im_resolve b;
          delta = unix_days_diff (date_unix_days a) (date_unix_days b_resolved);
          trunc_value = DeltaDays (ci_truncate increment (delta_days_get delta))
      in do { trunc_date \<leftarrow> date_shift_days b_resolved trunc_value;
              step \<leftarrow> delta_days_new (ci_signed increment neg);
              expand_date \<leftarrow> date_shift_days trunc_date step;
              Some (delta_days_get trunc_value, im_of_date trunc_date, im_of_date expand_date) })"

definition weeks_diff :: "date \<Rightarrow> interim_date \<Rightarrow> calendar_increment \<Rightarrow> bool \<Rightarrow> calendar_diff option" where
  "weeks_diff a b increment neg =
     do { inc \<leftarrow> ci_new (ci_get increment * 7);
          (days, trunc, expand) \<leftarrow> days_diff a b inc neg;
          Some (days sdiv 7, trunc, expand) }"

subsection \<open>Sets of units\<close>

datatype calendar_unit = Years | Months | Weeks | Days

fun calendar_unit_index :: "calendar_unit \<Rightarrow> nat" where
  "calendar_unit_index Years = 0"
| "calendar_unit_index Months = 1"
| "calendar_unit_index Weeks = 2"
| "calendar_unit_index Days = 3"

text \<open>\<open>from_index_unchecked\<close> panics beyond 3. The sets built by \<open>cus_insert\<close> and
  \<open>dus_calendar_only\<close> have no such bit (\<open>calendar_sets_low\<close> in \<open>Difference_Facts\<close>).\<close>

definition calendar_unit_from_index :: "nat \<Rightarrow> calendar_unit" where
  "calendar_unit_from_index i =
     (if i = 0 then Years else if i = 1 then Months else if i = 2 then Weeks else Days)"

type_synonym unit_mask = "8 word"

definition um_empty :: unit_mask where "um_empty = 0"

definition um_insert :: "unit_mask \<Rightarrow> nat \<Rightarrow> unit_mask" where
  "um_insert m index = m OR push_bit index 1"

definition um_contains :: "unit_mask \<Rightarrow> nat \<Rightarrow> bool" where
  "um_contains m index \<longleftrightarrow> m AND push_bit index 1 \<noteq> 0"

definition um_is_empty :: "unit_mask \<Rightarrow> bool" where
  "um_is_empty m \<longleftrightarrow> m = 0"

definition um_intersects :: "unit_mask \<Rightarrow> unit_mask \<Rightarrow> bool" where
  "um_intersects m bits \<longleftrightarrow> m AND bits \<noteq> 0"

definition um_intersection :: "unit_mask \<Rightarrow> unit_mask \<Rightarrow> unit_mask" where
  "um_intersection m bits = m AND bits"

text \<open>\<open>leading_zeros\<close> and \<open>trailing_zeros\<close> of a byte.\<close>

definition leading_zeros :: "unit_mask \<Rightarrow> nat" where
  "leading_zeros m = length (takeWhile (\<lambda>i. \<not> bit m i) [7, 6, 5, 4, 3, 2, 1, 0])"

definition trailing_zeros :: "unit_mask \<Rightarrow> nat" where
  "trailing_zeros m = length (takeWhile (\<lambda>i. \<not> bit m i) [0, 1, 2, 3, 4, 5, 6, 7])"

definition um_smallest_index :: "unit_mask \<Rightarrow> nat" where
  "um_smallest_index m = 7 - leading_zeros m"

definition cus_insert :: "unit_mask \<Rightarrow> calendar_unit \<Rightarrow> unit_mask" where
  "cus_insert s u = um_insert s (calendar_unit_index u)"

definition cus_smallest :: "unit_mask \<Rightarrow> calendar_unit" where
  "cus_smallest s = calendar_unit_from_index (um_smallest_index s)"

definition cus_next :: "unit_mask \<Rightarrow> (calendar_unit \<times> unit_mask) option" where
  "cus_next s =
     (if s = 0 then None
      else Some (calendar_unit_from_index (trailing_zeros s), s AND (s - 1)))"

datatype difference_unit =
  DYears | DMonths | DWeeks | DDays | DHours | DMinutes | DSeconds | DNanoseconds

datatype exact_unit =
  EWeeks | EDays | EHours | EMinutes | ESeconds | EMilliseconds | EMicroseconds | ENanoseconds

fun difference_unit_index :: "difference_unit \<Rightarrow> nat" where
  "difference_unit_index DYears = 0"
| "difference_unit_index DMonths = 1"
| "difference_unit_index DWeeks = 2"
| "difference_unit_index DDays = 3"
| "difference_unit_index DHours = 4"
| "difference_unit_index DMinutes = 5"
| "difference_unit_index DSeconds = 6"
| "difference_unit_index DNanoseconds = 7"

text \<open>\<open>from_index\<close> is unreachable beyond 7, the last bit of the mask.\<close>

definition difference_unit_from_index :: "nat \<Rightarrow> difference_unit" where
  "difference_unit_from_index i =
     (if i = 0 then DYears else if i = 1 then DMonths else if i = 2 then DWeeks else if i = 3 then DDays
      else if i = 4 then DHours else if i = 5 then DMinutes else if i = 6 then DSeconds else DNanoseconds)"

fun du_to_exact_with_days :: "difference_unit \<Rightarrow> bool \<Rightarrow> calendar_unit + exact_unit" where
  "du_to_exact_with_days DWeeks True = Inr EWeeks"
| "du_to_exact_with_days DDays True = Inr EDays"
| "du_to_exact_with_days DHours days_are_24h = Inr EHours"
| "du_to_exact_with_days DMinutes days_are_24h = Inr EMinutes"
| "du_to_exact_with_days DSeconds days_are_24h = Inr ESeconds"
| "du_to_exact_with_days DNanoseconds days_are_24h = Inr ENanoseconds"
| "du_to_exact_with_days DYears days_are_24h = Inl Years"
| "du_to_exact_with_days DMonths days_are_24h = Inl Months"
| "du_to_exact_with_days DWeeks False = Inl Weeks"
| "du_to_exact_with_days DDays False = Inl Days"

fun exact_unit_index :: "exact_unit \<Rightarrow> nat" where
  "exact_unit_index EWeeks = 0"
| "exact_unit_index EDays = 1"
| "exact_unit_index EHours = 2"
| "exact_unit_index EMinutes = 3"
| "exact_unit_index ESeconds = 4"
| "exact_unit_index EMilliseconds = 5"
| "exact_unit_index EMicroseconds = 6"
| "exact_unit_index ENanoseconds = 7"

definition exact_unit_from_index :: "nat \<Rightarrow> exact_unit" where
  "exact_unit_from_index i =
     (if i = 0 then EWeeks else if i = 1 then EDays else if i = 2 then EHours else if i = 3 then EMinutes
      else if i = 4 then ESeconds else if i = 5 then EMilliseconds else if i = 6 then EMicroseconds
      else ENanoseconds)"

fun exact_unit_in_nanos :: "exact_unit \<Rightarrow> int" where
  "exact_unit_in_nanos EHours = ns_per_hour"
| "exact_unit_in_nanos EMinutes = ns_per_minute"
| "exact_unit_in_nanos ESeconds = ns_per_sec"
| "exact_unit_in_nanos ENanoseconds = 1"
| "exact_unit_in_nanos EMilliseconds = 1000000"
| "exact_unit_in_nanos EMicroseconds = 1000"
| "exact_unit_in_nanos EWeeks = ns_per_week"
| "exact_unit_in_nanos EDays = ns_per_day"

definition eus_insert :: "unit_mask \<Rightarrow> exact_unit \<Rightarrow> unit_mask" where
  "eus_insert s u = um_insert s (exact_unit_index u)"

definition eus_contains :: "unit_mask \<Rightarrow> exact_unit \<Rightarrow> bool" where
  "eus_contains s u = um_contains s (exact_unit_index u)"

definition eus_smallest :: "unit_mask \<Rightarrow> exact_unit" where
  "eus_smallest s = exact_unit_from_index (um_smallest_index s)"

definition dus_insert :: "unit_mask \<Rightarrow> difference_unit \<Rightarrow> unit_mask" where
  "dus_insert s u = um_insert s (difference_unit_index u)"

definition dus_contains :: "unit_mask \<Rightarrow> difference_unit \<Rightarrow> bool" where
  "dus_contains s u = um_contains s (difference_unit_index u)"

definition dus_has_days_or_weeks :: "unit_mask \<Rightarrow> bool" where
  "dus_has_days_or_weeks s = um_intersects s (push_bit 3 1 OR push_bit 2 1)"

definition dus_has_calendar :: "unit_mask \<Rightarrow> bool" where
  "dus_has_calendar s = um_intersects s 0x0F"

definition dus_has_exact :: "unit_mask \<Rightarrow> bool" where
  "dus_has_exact s = um_intersects s 0xF0"

definition dus_calendar_only :: "unit_mask \<Rightarrow> unit_mask" where
  "dus_calendar_only s = um_intersection s 0x0F"

definition dus_exact_only :: "unit_mask \<Rightarrow> unit_mask" where
  "dus_exact_only s =
     (let e1 = (if dus_contains s DHours then eus_insert um_empty EHours else um_empty);
          e2 = (if dus_contains s DMinutes then eus_insert e1 EMinutes else e1);
          e3 = (if dus_contains s DSeconds then eus_insert e2 ESeconds else e2)
      in if dus_contains s DNanoseconds then eus_insert e3 ENanoseconds else e3)"

definition dus_to_exact_assuming_24h_days :: "unit_mask \<Rightarrow> unit_mask option" where
  "dus_to_exact_assuming_24h_days s =
     (if dus_contains s DYears \<or> dus_contains s DMonths then None
      else (let e = dus_exact_only s;
                e1 = (if dus_contains s DWeeks then eus_insert e EWeeks else e)
            in Some (if dus_contains s DDays then eus_insert e1 EDays else e1)))"

definition dus_smallest :: "unit_mask \<Rightarrow> difference_unit" where
  "dus_smallest s = difference_unit_from_index (um_smallest_index s)"

definition dus_split_calendar_exact :: "unit_mask \<Rightarrow> unit_mask \<times> unit_mask" where
  "dus_split_calendar_exact s = (dus_calendar_only s, dus_exact_only s)"

subsection \<open>Several units\<close>

definition calendar_unit_diff ::
    "calendar_unit \<Rightarrow> date \<Rightarrow> interim_date \<Rightarrow> calendar_increment \<Rightarrow> bool \<Rightarrow> calendar_diff option" where
  "calendar_unit_diff u a b inc neg =
     (case u of Years \<Rightarrow> years_diff a b inc neg | Months \<Rightarrow> months_diff a b inc neg
      | Weeks \<Rightarrow> weeks_diff a b inc neg | Days \<Rightarrow> days_diff a b inc neg)"

definition idd_field :: "itemized_date_delta \<Rightarrow> calendar_unit \<Rightarrow> delta_field" where
  "idd_field d u = (case u of Years \<Rightarrow> idd_years d | Months \<Rightarrow> idd_months d
     | Weeks \<Rightarrow> idd_weeks d | Days \<Rightarrow> idd_days d)"

definition idd_set_field :: "itemized_date_delta \<Rightarrow> calendar_unit \<Rightarrow> delta_field \<Rightarrow> itemized_date_delta" where
  "idd_set_field d u f = (case u of Years \<Rightarrow> d\<lparr>idd_years := f\<rparr> | Months \<Rightarrow> d\<lparr>idd_months := f\<rparr>
     | Weeks \<Rightarrow> d\<lparr>idd_weeks := f\<rparr> | Days \<Rightarrow> d\<lparr>idd_days := f\<rparr>)"

definition diff_into :: "calendar_unit \<Rightarrow> date \<Rightarrow> interim_date \<Rightarrow> calendar_increment \<Rightarrow> bool
    \<Rightarrow> itemized_date_delta \<Rightarrow> (itemized_date_delta \<times> interim_date \<times> interim_date) option" where
  "diff_into u a trunc inc neg result =
     do { (v, t, e) \<leftarrow> calendar_unit_diff u a trunc inc neg;
          Some (idd_set_field result u (DeltaField v), t, e) }"

lemma clear_lowest_less: "s \<noteq> 0 \<Longrightarrow> unat ((s :: unit_mask) AND (s - 1)) < unat s"
proof -
  assume "s \<noteq> 0"
  then have "unat s \<noteq> 0" and "unat (s - 1) = unat s - 1" by (simp_all add: unat_eq_0 unat_minus_one)
  then have "s - 1 < s" by (simp add: word_less_nat_alt)
  moreover have "s AND (s - 1) \<le> s - 1" by (rule word_and_le1)
  ultimately show ?thesis by (simp add: word_less_nat_alt word_le_nat_alt)
qed

text \<open>The loop of \<open>date_diff\<close> over the units of a set, from years to days.\<close>

function date_diff_loop :: "date \<Rightarrow> calendar_increment \<Rightarrow> calendar_unit \<Rightarrow> bool \<Rightarrow> unit_mask
    \<Rightarrow> itemized_date_delta \<times> interim_date \<times> interim_date
    \<Rightarrow> (itemized_date_delta \<times> interim_date \<times> interim_date) option" where
  "date_diff_loop a round_increment smallest neg units (result, trunc, expand) =
     (case cus_next units of
        None \<Rightarrow> Some (result, trunc, expand)
      | Some (u, units') \<Rightarrow>
          (case diff_into u a trunc (if u = smallest then round_increment else ci_min) neg result of
             None \<Rightarrow> None
           | Some st \<Rightarrow> date_diff_loop a round_increment smallest neg units' st))"
  by pat_completeness auto
termination
  by (relation "measure (\<lambda>(a, i, s, n, units, st). unat units)")
    (auto simp: cus_next_def clear_lowest_less split: if_splits)

declare date_diff_loop.simps [simp del]

definition date_diff :: "date \<Rightarrow> date \<Rightarrow> calendar_increment \<Rightarrow> unit_mask \<Rightarrow> bool
    \<Rightarrow> (itemized_date_delta \<times> interim_date \<times> interim_date) option" where
  "date_diff a b round_increment units neg =
     date_diff_loop a round_increment (cus_smallest units) neg units
       (idd_unset, im_of_date b, im_of_date a)"

definition date_diff_single_unit :: "date \<Rightarrow> date \<Rightarrow> calendar_increment \<Rightarrow> calendar_unit \<Rightarrow> bool
    \<Rightarrow> calendar_diff option" where
  "date_diff_single_unit a b round_increment u neg =
     (case u of
        Years \<Rightarrow> years_diff a (im_of_date b) round_increment neg
      | Months \<Rightarrow> months_diff a (im_of_date b) round_increment neg
      | Weeks \<Rightarrow> weeks_diff a (im_of_date b) round_increment neg
      | Days \<Rightarrow> days_diff a (im_of_date b) round_increment neg)"

subsection \<open>Rounding the last unit\<close>

text \<open>\<open>Trunc\<close> is \<open>unreachable!()\<close> in the source: the two callers handle it.\<close>

definition diff_round :: "int \<Rightarrow> bool \<Rightarrow> ordering \<Rightarrow> abs_mode \<Rightarrow> calendar_increment \<Rightarrow> bool \<Rightarrow> int" where
  "diff_round trunc_value has_remainder half_cmp m increment negate =
     (let do_expand = (case m of
            AbsTrunc \<Rightarrow> False
          | AbsExpand \<Rightarrow> has_remainder
          | AbsHalfEven \<Rightarrow> half_cmp = Greater
              \<or> half_cmp = Equal \<and> \<not> \<bar>trunc_value sdiv ci_get increment\<bar> mod 2 = 0
          | AbsHalfTrunc \<Rightarrow> half_cmp = Greater
          | AbsHalfExpand \<Rightarrow> half_cmp \<noteq> Less)
      in trunc_value + (if do_expand then ci_signed increment negate else 0))"

definition round_by_days :: "int \<Rightarrow> date \<Rightarrow> date \<Rightarrow> date \<Rightarrow> abs_mode \<Rightarrow> calendar_increment \<Rightarrow> bool \<Rightarrow> int" where
  "round_by_days value target trunc expand m increment neg =
     (if m = AbsTrunc then value
      else (let trunc_date = date_unix_days trunc;
                r = delta_days_get (delta_days_abs (unix_days_diff (date_unix_days target) trunc_date));
                e = delta_days_get (delta_days_abs (unix_days_diff (date_unix_days expand) trunc_date))
            in diff_round value (r > 0) (cmp r (e - r)) m increment neg))"

text \<open>The derived order of \<open>TimeDelta\<close>: seconds, then nanoseconds.\<close>

definition td_cmp :: "time_delta \<Rightarrow> time_delta \<Rightarrow> ordering" where
  "td_cmp a b = cmp (td_secs a, td_subsec a) (td_secs b, td_subsec b)"

text \<open>The source unwraps \<open>e.add(-r)\<close>.\<close>

definition round_by_time :: "int \<Rightarrow> instant \<Rightarrow> instant \<Rightarrow> instant \<Rightarrow> abs_mode \<Rightarrow> calendar_increment
    \<Rightarrow> bool \<Rightarrow> int" where
  "round_by_time value target trunc expand m increment neg =
     (if m = AbsTrunc then value
      else (let r = td_abs (instant_diff target trunc);
                e = td_abs (instant_diff expand trunc);
                half_cmp = td_cmp r (the (td_add e (td_neg r)))
            in diff_round value (\<not> td_is_zero r) half_cmp m increment neg))"

text \<open>Both unwrap the field, which \<open>date_diff\<close> has set.\<close>

definition idd_round_by_days :: "itemized_date_delta \<Rightarrow> calendar_unit \<Rightarrow> date \<Rightarrow> date \<Rightarrow> date \<Rightarrow> abs_mode
    \<Rightarrow> calendar_increment \<Rightarrow> bool \<Rightarrow> itemized_date_delta" where
  "idd_round_by_days d u target trunc expand m increment neg =
     idd_set_field d u (DeltaField (round_by_days (the (df_as_option i32_sentinel (idd_field d u)))
       target trunc expand m increment neg))"

definition idd_round_by_time :: "itemized_date_delta \<Rightarrow> calendar_unit \<Rightarrow> instant \<Rightarrow> instant \<Rightarrow> instant
    \<Rightarrow> abs_mode \<Rightarrow> calendar_increment \<Rightarrow> bool \<Rightarrow> itemized_date_delta" where
  "idd_round_by_time d u target trunc expand m increment neg =
     idd_set_field d u (DeltaField (round_by_time (the (df_as_option i32_sentinel (idd_field d u)))
       target trunc expand m increment neg))"

subsection \<open>Exact units\<close>

definition id_set_exact :: "itemized_delta \<Rightarrow> exact_unit \<Rightarrow> int \<Rightarrow> itemized_delta option" where
  "id_set_exact d u v =
     (case u of
        EWeeks \<Rightarrow> do { x \<leftarrow> checked i32_ok v; Some (d\<lparr>id_weeks := DeltaField x\<rparr>) }
      | EDays \<Rightarrow> do { x \<leftarrow> checked i32_ok v; Some (d\<lparr>id_days := DeltaField x\<rparr>) }
      | EHours \<Rightarrow> do { x \<leftarrow> checked i32_ok v; Some (d\<lparr>id_hours := DeltaField x\<rparr>) }
      | EMinutes \<Rightarrow> do { x \<leftarrow> checked i64_ok v; Some (d\<lparr>id_minutes := DeltaField x\<rparr>) }
      | ESeconds \<Rightarrow> do { x \<leftarrow> checked i64_ok v; Some (d\<lparr>id_seconds := DeltaField x\<rparr>) }
      | _ \<Rightarrow> Some d)"

text \<open>The loop over the table of fields.\<close>

fun split_units :: "unit_mask \<Rightarrow> exact_unit list \<Rightarrow> int \<Rightarrow> itemized_delta \<Rightarrow> (int \<times> itemized_delta) option" where
  "split_units units [] remaining target = Some (remaining, target)"
| "split_units units (u # us) remaining target =
     (if eus_contains units u then
        (let per = exact_unit_in_nanos u
         in do { target' \<leftarrow> id_set_exact target u (remaining sdiv per);
                 split_units units us (remaining smod per) target' })
      else split_units units us remaining target)"

definition td_in_exact_units :: "time_delta \<Rightarrow> unit_mask \<Rightarrow> difference_increment \<Rightarrow> abs_mode
    \<Rightarrow> itemized_delta option" where
  "td_in_exact_units d units round_increment round_mode =
     do { n \<leftarrow> checked u128_ok (exact_unit_in_nanos (eus_smallest units) * dinc_get round_increment);
          increment \<leftarrow> di_from_nanos n;
          rounded \<leftarrow> td_round d increment round_mode;
          (remaining, target) \<leftarrow> split_units units [EWeeks, EDays, EHours, EMinutes, ESeconds]
            (td_total_nanos rounded) id_unset;
          if eus_contains units ENanoseconds
          then do { x \<leftarrow> checked i32_ok remaining; Some (target\<lparr>id_nanos := DeltaField x\<rparr>) }
          else Some target }"

end
