(* ===== verification/Difference_Facts.thy ===== *)
theory Difference_Facts
  imports Difference Moments_Facts
begin

section \<open>What the differences mean\<close>

text \<open>
  A difference of dates is the largest number of steps that does not pass the target: in every unit
  of the set, the date reached does not pass it and the date one step (of the increment) further
  does, for every single unit and for the loop over several units; and shifting by the difference
  leads to the truncated date. Splitting a duration into clock units is greedy in the same way, and
  loses nothing.
\<close>

subsection \<open>Steps of a unit\<close>

definition brackets :: "bool \<Rightarrow> date \<Rightarrow> date \<Rightarrow> date \<Rightarrow> bool" where
  "brackets neg a t e \<longleftrightarrow> (if neg then e < a \<and> a \<le> t else t \<le> a \<and> a < e)"

definition not_past :: "bool \<Rightarrow> date \<Rightarrow> date \<Rightarrow> bool" where
  "not_past neg a t \<longleftrightarrow> (if neg then a \<le> t else t \<le> a)"

definition forward :: "bool \<Rightarrow> int \<Rightarrow> bool" where
  "forward neg v \<longleftrightarrow> (if neg then v \<le> 0 else 0 \<le> v)"

lemma ci_truncate_pos:
  assumes "1 \<le> inc" and "0 \<le> v"
  shows "inc dvd ci_truncate (CalendarIncrement inc) v" "0 \<le> ci_truncate (CalendarIncrement inc) v"
    "ci_truncate (CalendarIncrement inc) v \<le> v" "v < ci_truncate (CalendarIncrement inc) v + inc"
proof -
  have t: "ci_truncate (CalendarIncrement inc) v = inc * (v div inc)"
    using assms by (simp add: ci_truncate_def minus_mod_eq_mult_div)
  show "inc dvd ci_truncate (CalendarIncrement inc) v" by (simp add: t)
  show "0 \<le> ci_truncate (CalendarIncrement inc) v" using assms by (simp add: t pos_imp_zdiv_nonneg_iff)
  have "inc * (v div inc) + v mod inc = v" "0 \<le> v mod inc" "v mod inc < inc" using assms by simp_all
  then show "ci_truncate (CalendarIncrement inc) v \<le> v" "v < ci_truncate (CalendarIncrement inc) v + inc"
    unfolding t by linarith+
qed

lemma ci_truncate_neg:
  assumes "1 \<le> inc" and "v \<le> 0"
  shows "ci_truncate (CalendarIncrement inc) v = - ci_truncate (CalendarIncrement inc) (- v)"
  using assms by (simp add: ci_truncate_def signed_modulo_int_def)

text \<open>The choice that \<open>years_diff\<close> and \<open>months_diff\<close> make, for any line of dates
  \<open>at\<close> along positions.\<close>

lemma step_back:
  fixes at :: "int \<Rightarrow> date"
  assumes below: "\<And>k. pb + k < pa \<Longrightarrow> at k < a" and above: "\<And>k. pa < pb + k \<Longrightarrow> a < at k"
    and start: "not_past neg a (at 0)" and inc: "1 \<le> inc"
    and diff: "diff = ci_truncate (CalendarIncrement inc) (pa - pb)"
    and s: "s = ci_signed (CalendarIncrement inc) neg"
    and over: "over \<longleftrightarrow> (if diff > 0 then at diff > a else if diff < 0 then at diff < a else False)"
  shows "brackets neg a (at (if over then diff - s else diff)) (at (if over then diff else diff + s))
    \<and> forward neg (if over then diff - s else diff) \<and> inc dvd (if over then diff - s else diff)"
proof (cases neg)
  case False
  have "pb \<le> pa" using above [of 0] start False by (force simp: not_past_def)
  then have d: "inc dvd diff" "0 \<le> diff" "diff \<le> pa - pb" "pa - pb < diff + inc"
    using ci_truncate_pos [OF inc, of "pa - pb"] by (simp_all add: diff)
  have s': "s = inc" using False by (simp add: s ci_signed_def negate_if_def)
  show ?thesis
  proof (cases over)
    case True
    then have "diff > 0" "a < at diff" using over d by (auto split: if_splits)
    moreover from this have "inc \<le> diff" using d(1) zdvd_imp_le by blast
    moreover have "at (diff - inc) < a" using below d(3) inc by simp
    ultimately show ?thesis using True False d(1) s' by (simp add: brackets_def forward_def)
  next
    case nover: False
    have "a < at (diff + inc)" using above d(4) by simp
    moreover have "at diff \<le> a"
      using nover over start False d(2) by (cases "diff = 0") (auto simp: not_past_def)
    ultimately show ?thesis using nover False d s' by (simp add: brackets_def forward_def)
  qed
next
  case True
  have "pa \<le> pb" using below [of 0] start True by (force simp: not_past_def)
  then have d: "inc dvd diff" "diff \<le> 0" "pa - pb \<le> diff" "diff - inc < pa - pb"
    using ci_truncate_pos [OF inc, of "pb - pa"] ci_truncate_neg [OF inc, of "pa - pb"] by (simp_all add: diff)
  have s': "s = - inc" using True by (simp add: s ci_signed_def negate_if_def)
  show ?thesis
  proof (cases over)
    case ov: True
    then have "diff < 0" "at diff < a" using over d by (auto split: if_splits)
    moreover from this have "inc \<le> - diff" using d(1) zdvd_imp_le [of inc "- diff"] by simp
    moreover have "a < at (diff + inc)" using above d(3) inc by simp
    ultimately show ?thesis using ov True d(1) s' by (simp add: brackets_def forward_def)
  next
    case nover: False
    have "at (diff - inc) < a" using below d(4) by simp
    moreover have "a \<le> at diff"
      using nover over start True d(2) by (cases "diff = 0") (auto simp: not_past_def)
    ultimately show ?thesis using nover True d s' by (simp add: brackets_def forward_def)
  qed
qed

subsection \<open>One unit\<close>

definition im_ok :: "interim_date \<Rightarrow> bool" where
  "im_ok m \<longleftrightarrow> year_ok (im_year m) \<and> 1 \<le> im_day m"

abbreviation im_index :: "interim_date \<Rightarrow> int" where
  "im_index m \<equiv> year_get (im_year m) * 12 + month_get (im_month m) - 1"

lemma im_resolve_ok: "im_ok m \<Longrightarrow> date_ok (im_resolve m)"
  using days_in_month_range(1) [of "im_year m" "im_month m"]
  by (simp add: im_ok_def im_resolve_def date_new_clamp_days_def date_ok_def)

lemma im_of_date_ok [simp]: "date_ok d \<Longrightarrow> im_ok (im_of_date d)"
  and im_resolve_of_date [simp]: "date_ok d \<Longrightarrow> im_resolve (im_of_date d) = d"
  by (simp_all add: im_ok_def im_of_date_def im_resolve_def date_new_clamp_days_def date_ok_def min_def)

text \<open>The dates that lie a number of months away.\<close>

definition months_on :: "interim_date \<Rightarrow> int \<Rightarrow> date" where
  "months_on b k =
     (let i = im_index b + k in date_new_clamp_days (Year (i div 12)) (month_new_unchecked (i mod 12 + 1)) (im_day b))"

lemma index_less:
  assumes "month_index x < month_index y"
  shows "x < (y :: date)"
proof -
  have "0 \<le> month_get (d_month x) - 1 \<and> month_get (d_month x) - 1 < 12"
    "0 \<le> month_get (d_month y) - 1 \<and> month_get (d_month y) - 1 < 12"
    by (cases "d_month x"; simp) (cases "d_month y"; simp)
  with assms have "year_get (d_year x) < year_get (d_year y)
      \<or> year_get (d_year x) = year_get (d_year y) \<and> month_get (d_month x) < month_get (d_month y)"
    by linarith
  then show ?thesis by (auto simp: date_less_iff less_year_def less_month_def year.expand)
qed

lemma months_on_index: "month_index (months_on b k) = im_index b + k"
proof -
  have m: "0 \<le> (im_index b + k) mod 12" "(im_index b + k) mod 12 < 12" by simp_all
  then have "month_get (month_new_unchecked ((im_index b + k) mod 12 + 1)) = (im_index b + k) mod 12 + 1" by simp
  then show ?thesis by (simp add: months_on_def Let_def date_new_clamp_days_def)
qed

lemma months_on_0: "months_on b 0 = im_resolve b"
proof -
  have m: "0 \<le> month_get (im_month b) - 1" "month_get (im_month b) - 1 < 12" by (cases "im_month b"; simp)+
  have "im_index b = 12 * year_get (im_year b) + (month_get (im_month b) - 1)" by simp
  from div_mod_unique [OF this m] show ?thesis
    by (simp add: months_on_def im_resolve_def)
qed

lemma im_shift_months_Some:
  assumes "im_ok b" and "im_shift_months b k = Some x"
  shows "x = months_on b k" and "date_ok x"
proof -
  obtain dm where dm: "delta_months_new k = Some dm" "dm = DeltaMonths k"
    using assms(2) by (auto simp: im_shift_months_def delta_months_new_def split: if_splits)
  define i where "i = im_index b + k"
  have y: "year_ok (im_year b)" using assms(1) by (simp add: im_ok_def)
  have i: "12 \<le> i" "i < 120000" and x: "x = date_new_clamp_days (Year (i div 12)) (month_new_unchecked (i mod 12 + 1)) (im_day b)"
    using assms(2) dm month_shift_eq [OF y, of "im_month b" k]
    by (auto simp: im_shift_months_def i_def Let_def split: if_splits)
  show "x = months_on b k" by (simp add: x months_on_def i_def Let_def)
  have "1 \<le> i div 12" "i div 12 \<le> 9999" using i by linarith+
  moreover have "1 \<le> year_days_in_month y m" for y m using days_in_month_range(1) [of y m] by simp
  ultimately show "date_ok x"
    using assms(1) by (simp add: x date_ok_def date_new_clamp_days_def year_ok_def im_ok_def)
qed

lemma im_shift_monthsD: "im_ok b \<Longrightarrow> im_shift_months b k = Some x \<Longrightarrow> x = months_on b k \<and> date_ok x"
  using im_shift_months_Some by blast

lemma year_add_Some: "year_add_i32 y n = Some z \<Longrightarrow> z = Year (year_get y + n) \<and> year_ok z"
  by (auto simp: year_add_i32_def year_from_i32_eq year_ok_def bind_Some_iff split: if_splits)

lemma years_diff_sound:
  assumes "im_ok b" and "not_past neg a (im_resolve b)" and "1 \<le> inc"
    and "years_diff a b (CalendarIncrement inc) neg = Some (v, t, e)"
  shows "brackets neg a (im_resolve t) (im_resolve e) \<and> forward neg v \<and> inc dvd v \<and> im_ok t
    \<and> t = \<lparr>im_year = Year (year_get (im_year b) + v), im_month = im_month b, im_day = im_day b\<rparr>
    \<and> im_ok e \<and> e = \<lparr>im_year = Year (year_get (im_year b) + (v + ci_signed (CalendarIncrement inc) neg)),
        im_month = im_month b, im_day = im_day b\<rparr>"
proof -
  define at where "at k = im_resolve (im_replace_year b (Year (year_get (im_year b) + k)))" for k
  define diff where "diff = ci_truncate (CalendarIncrement inc) (year_get (d_year a) - year_get (im_year b))"
  define s where "s = ci_signed (CalendarIncrement inc) neg"
  define over where "over \<longleftrightarrow> (if diff > 0 then at diff > a else if diff < 0 then at diff < a else False)"
  have year: "d_year (at k) = Year (year_get (im_year b) + k)" for k
    by (simp add: at_def im_resolve_def im_replace_year_def date_new_clamp_days_def)
  have "at k < a" if "year_get (im_year b) + k < year_get (d_year a)" for k
    using that year [of k] by (simp add: date_less_iff less_year_def)
  moreover have "a < at k" if "year_get (d_year a) < year_get (im_year b) + k" for k
    using that year [of k] by (simp add: date_less_iff less_year_def)
  moreover have "not_past neg a (at 0)"
    using assms(2) by (simp add: at_def im_replace_year_def im_resolve_def)
  ultimately have core: "brackets neg a (at (if over then diff - s else diff)) (at (if over then diff else diff + s))
      \<and> forward neg (if over then diff - s else diff) \<and> inc dvd (if over then diff - s else diff)"
    by (rule step_back [where at = at and pb = "year_get (im_year b)" and pa = "year_get (d_year a)", OF _ _ _ assms(3) diff_def s_def over_def])
  have "v = (if over then diff - s else diff) \<and> im_resolve e = at (if over then diff else diff + s)
      \<and> year_ok (im_year t) \<and> t = im_replace_year b (Year (year_get (im_year b) + v))
      \<and> year_ok (im_year e) \<and> e = im_replace_year b (Year (year_get (im_year b) + (v + s)))"
    using assms(4)
    by (auto simp: years_diff_def Let_def bind_Some_iff diff_def [symmetric] s_def [symmetric] over_def at_def im_replace_year_def
        dest!: year_add_Some split: if_splits)
  then show ?thesis using core assms(1)
    by (cases over) (auto simp: at_def im_replace_year_def im_ok_def s_def [symmetric])
qed

lemma months_diff_sound:
  assumes "im_ok b" and "not_past neg a (im_resolve b)" and "1 \<le> inc"
    and "months_diff a b (CalendarIncrement inc) neg = Some (v, t, e)"
  shows "brackets neg a (im_resolve t) (im_resolve e) \<and> forward neg v \<and> inc dvd v
    \<and> date_ok (months_on b v) \<and> t = im_of_date (months_on b v)
    \<and> date_ok (im_resolve e) \<and> im_resolve e = months_on b (v + ci_signed (CalendarIncrement inc) neg)"
proof -
  define diff where "diff = ci_truncate (CalendarIncrement inc) (month_index a - im_index b)"
  define s where "s = ci_signed (CalendarIncrement inc) neg"
  define over where "over \<longleftrightarrow> (if diff > 0 then months_on b diff > a else if diff < 0 then months_on b diff < a else False)"
  have "months_on b k < a" if "im_index b + k < month_index a" for k
    using that months_on_index [of b k] by (intro index_less) simp
  moreover have "a < months_on b k" if "month_index a < im_index b + k" for k
    using that months_on_index [of b k] by (intro index_less) simp
  moreover have "not_past neg a (months_on b 0)" using assms(2) by (simp add: months_on_0)
  ultimately have core: "brackets neg a (months_on b (if over then diff - s else diff))
        (months_on b (if over then diff else diff + s))
      \<and> forward neg (if over then diff - s else diff) \<and> inc dvd (if over then diff - s else diff)"
    by (rule step_back [where at = "months_on b" and pb = "im_index b" and pa = "month_index a", OF _ _ _ assms(3) diff_def s_def over_def])
  have d: "diff = ci_truncate (CalendarIncrement inc)
      ((year_get (d_year a) - year_get (im_year b)) * 12 + (month_get (d_month a) - month_get (im_month b)))"
    by (simp add: diff_def algebra_simps)
  obtain shift where shift: "im_shift_months b diff = Some shift"
    using assms(4) unfolding months_diff_def d [symmetric] Let_def by (auto simp: bind_Some_iff)
  note sh = im_shift_months_Some [OF assms(1) shift]
  have "\<exists>x y. v = (if over then diff - s else diff) \<and> t = im_of_date x \<and> x = months_on b v \<and> date_ok x
      \<and> e = im_of_date y \<and> y = months_on b (if over then diff else diff + s) \<and> y = months_on b (v + s) \<and> date_ok y"
    using assms(4) sh shift unfolding months_diff_def d [symmetric] s_def [symmetric] Let_def
    by (auto simp: bind_Some_iff over_def
        dest!: im_shift_monthsD [OF assms(1)] split: if_splits)
  then show ?thesis using core by (auto simp: s_def)
qed

lemma days_diff_sound:
  assumes "date_ok a" and "im_ok b" and "not_past neg a (im_resolve b)" and "1 \<le> inc"
    and "days_diff a b (CalendarIncrement inc) neg = Some (v, t, e)"
  shows "brackets neg a (im_resolve t) (im_resolve e) \<and> forward neg v \<and> inc dvd v
    \<and> (inc = 1 \<longrightarrow> im_resolve t = a)
    \<and> (\<exists>x. date_ok x \<and> t = im_of_date x \<and> date_shift_days (im_resolve b) (DeltaDays v) = Some x)
    \<and> date_ok (im_resolve e)
    \<and> day_number (im_resolve e) = day_number (im_resolve b) + (v + ci_signed (CalendarIncrement inc) neg)"
proof -
  let ?r = "im_resolve b"
  have r: "date_ok ?r" using assms(2) by (rule im_resolve_ok)
  define D where "D = day_number a - day_number ?r"
  define s where "s = ci_signed (CalendarIncrement inc) neg"
  define tr where "tr = ci_truncate (CalendarIncrement inc) D"
  obtain x y where x: "date_shift_days ?r (DeltaDays tr) = Some x" and y: "date_shift_days x (DeltaDays s) = Some y"
    and v: "v = tr" and t: "t = im_of_date x" and e: "e = im_of_date y"
    using assms(5)
    by (auto simp: days_diff_def Let_def bind_Some_iff unix_days_diff_def D_def [symmetric] s_def [symmetric]
        tr_def [symmetric] delta_days_nt.new_Some_iff delta_days_new_def split: if_splits)
  have nx: "date_ok x" "day_number x = day_number ?r + tr" using date_days.shift_sound [OF r x] by simp_all
  have ny: "date_ok y" "day_number y = day_number x + s" using date_days.shift_sound [OF nx(1) y] by simp_all
  have less: "c < d \<longleftrightarrow> day_number c < day_number d" if "date_ok c" "date_ok d" for c d
    using date_unix_days_le [OF that(2,1)] by (simp add: not_le [symmetric])
  note order = date_unix_days_le [OF assms(1) nx(1), symmetric] date_unix_days_le [OF nx(1) assms(1), symmetric]
    less [OF assms(1) ny(1)] less [OF ny(1) assms(1)]
    date_unix_days_le [OF assms(1) r, symmetric] date_unix_days_le [OF r assms(1), symmetric]
  have a: "day_number a = day_number ?r + D" by (simp add: D_def)
  have "brackets neg a x y \<and> forward neg tr \<and> inc dvd tr"
  proof (cases neg)
    case False
    then have "0 \<le> D" using assms(3) unfolding not_past_def order by (simp add: D_def)
    from ci_truncate_pos [OF assms(4) this]
    have "inc dvd tr" "0 \<le> tr" "tr \<le> D" "D < tr + inc" by (simp_all add: tr_def)
    moreover have "s = inc" using False by (simp add: s_def ci_signed_def negate_if_def)
    ultimately show ?thesis using False unfolding brackets_def forward_def order nx(2) ny(2) a by simp
  next
    case True
    then have D: "D \<le> 0" using assms(3) unfolding not_past_def order by (simp add: D_def)
    have "inc dvd tr" "tr \<le> 0" "D \<le> tr" "tr - inc < D"
      using ci_truncate_pos [OF assms(4), of "- D"] ci_truncate_neg [OF assms(4) D] D by (simp_all add: tr_def)
    moreover have "s = - inc" using True by (simp add: s_def ci_signed_def negate_if_def)
    ultimately show ?thesis using True unfolding brackets_def forward_def order nx(2) ny(2) a by simp
  qed
  moreover have "x = a" if "inc = 1"
  proof -
    have "tr = D" by (simp add: tr_def ci_truncate_def that signed_modulo_int_def)
    then show ?thesis using dates.num_inject [OF nx(1) assms(1)] nx(2) by (simp add: D_def)
  qed
  ultimately show ?thesis using nx ny x by (auto simp: v t e s_def)
qed

lemma sdiv_7: "(7 * m) sdiv 7 = m" for m :: int
  by (cases "0 \<le> m") (simp_all add: signed_divide_int_def abs_if sgn_if)

lemma weeks_diff_sound:
  assumes "date_ok a" and "im_ok b" and "not_past neg a (im_resolve b)" and "1 \<le> inc"
    and "weeks_diff a b (CalendarIncrement inc) neg = Some (v, t, e)"
  shows "brackets neg a (im_resolve t) (im_resolve e) \<and> forward neg v \<and> inc dvd v
    \<and> (\<exists>x. date_ok x \<and> t = im_of_date x \<and> date_shift_days (im_resolve b) (DeltaDays (7 * v)) = Some x)
    \<and> date_ok (im_resolve e)
    \<and> day_number (im_resolve e) = day_number (im_resolve b) + 7 * (v + ci_signed (CalendarIncrement inc) neg)"
proof -
  obtain days where d: "days_diff a b (CalendarIncrement (inc * 7)) neg = Some (days, t, e)" and v: "v = days sdiv 7"
    using assms(5) by (auto simp: weeks_diff_def bind_Some_iff ci_new_def split: if_splits)
  have "1 \<le> inc * 7" using assms(4) by simp
  from days_diff_sound [OF assms(1-3) this d]
  have s: "brackets neg a (im_resolve t) (im_resolve e)" "forward neg days" "inc * 7 dvd days"
    "\<exists>x. date_ok x \<and> t = im_of_date x \<and> date_shift_days (im_resolve b) (DeltaDays days) = Some x"
    "date_ok (im_resolve e)"
    "day_number (im_resolve e) = day_number (im_resolve b) + (days + ci_signed (CalendarIncrement (inc * 7)) neg)" by blast+
  then obtain k where k: "days = inc * 7 * k" by (auto elim: dvdE)
  then have "days = 7 * (inc * k)" by simp
  moreover from this have "v = inc * k" using v sdiv_7 by simp
  moreover have "ci_signed (CalendarIncrement (inc * 7)) neg = 7 * ci_signed (CalendarIncrement inc) neg"
    by (simp add: ci_signed_def negate_if_def)
  ultimately show ?thesis using s assms(4)
    by (auto simp: forward_def mult_le_0_iff zero_le_mult_iff split: if_splits)
qed

subsection \<open>Several units\<close>

text \<open>The units of a set, from years to days, and the loop as a recursion over them.\<close>

definition unit_list :: "unit_mask \<Rightarrow> calendar_unit list" where
  "unit_list s = filter (\<lambda>u. bit s (calendar_unit_index u)) [Years, Months, Weeks, Days]"

fun diff_list :: "date \<Rightarrow> calendar_increment \<Rightarrow> calendar_unit \<Rightarrow> bool \<Rightarrow> calendar_unit list
    \<Rightarrow> itemized_date_delta \<times> interim_date \<times> interim_date
    \<Rightarrow> (itemized_date_delta \<times> interim_date \<times> interim_date) option" where
  "diff_list a inc smallest neg [] st = Some st"
| "diff_list a inc smallest neg (u # us) (res, t, e) =
     (case diff_into u a t (if u = smallest then inc else ci_min) neg res of
        None \<Rightarrow> None | Some st \<Rightarrow> diff_list a inc smallest neg us st)"

lemma low_masks:
  "list_all (\<lambda>s. cus_next s = (case unit_list s of [] \<Rightarrow> None | u # us \<Rightarrow> Some (u, s AND (s - 1)))
      \<and> unit_list (s AND (s - 1)) = tl (unit_list s) \<and> s AND (s - 1) < 16
      \<and> (s = 0 \<or> unit_list s \<noteq> [] \<and> cus_smallest s = last (unit_list s)))
    (map (\<lambda>n. word_of_nat n :: unit_mask) [0..<16])"
  by code_simp

lemma low_mask:
  assumes "(s :: unit_mask) < 16"
  shows "cus_next s = (case unit_list s of [] \<Rightarrow> None | u # us \<Rightarrow> Some (u, s AND (s - 1)))"
    and "unit_list (s AND (s - 1)) = tl (unit_list s)" and "s AND (s - 1) < 16"
    and "s = 0 \<or> unit_list s \<noteq> [] \<and> cus_smallest s = last (unit_list s)"
proof -
  have "unat s < 16" using assms by (simp add: word_less_nat_alt)
  then have "s \<in> set (map (\<lambda>n. word_of_nat n :: unit_mask) [0..<16])"
    by (auto intro!: image_eqI [of _ _ "unat s"])
  with low_masks show "cus_next s = (case unit_list s of [] \<Rightarrow> None | u # us \<Rightarrow> Some (u, s AND (s - 1)))"
    and "unit_list (s AND (s - 1)) = tl (unit_list s)" and "s AND (s - 1) < 16"
    and "s = 0 \<or> unit_list s \<noteq> [] \<and> cus_smallest s = last (unit_list s)"
    unfolding list_all_iff by blast+
qed

lemma loop_is_list:
  assumes "units < 16"
  shows "date_diff_loop a inc smallest neg units st = diff_list a inc smallest neg (unit_list units) st"
  using assms
proof (induction "unit_list units" arbitrary: units st)
  case Nil
  then have "cus_next units = None" using low_mask(1) [OF Nil(2)] by (simp add: Nil(1) [symmetric])
  then show ?case using Nil(1) by (cases st) (simp add: date_diff_loop.simps)
next
  case (Cons u us)
  obtain res t e where st: "st = (res, t, e)" by (cases st) auto
  have head: "cus_next units = Some (u, units AND (units - 1))"
    using low_mask(1) [OF Cons.prems] by (simp add: Cons(2) [symmetric])
  have us: "us = unit_list (units AND (units - 1))"
    using low_mask(2) [OF Cons.prems] by (simp add: Cons(2) [symmetric])
  note ih = Cons(1) [OF us low_mask(3) [OF Cons.prems]]
  show ?case
    unfolding st date_diff_loop.simps [of a inc smallest neg units res t e]
    using ih us by (simp add: head Cons(2) [symmetric] split: option.split)
qed

text \<open>The value of a field, zero when it is not set.\<close>

definition field_value :: "itemized_date_delta \<Rightarrow> calendar_unit \<Rightarrow> int" where
  "field_value d u = df_get_or i32_sentinel (idd_field d u) 0"

abbreviation unset :: "itemized_date_delta \<Rightarrow> calendar_unit \<Rightarrow> bool" where
  "unset d u \<equiv> idd_field d u = DeltaField i32_sentinel"

lemma unset_value: "unset d u \<Longrightarrow> field_value d u = 0"
  by (simp add: field_value_def df_get_or_def df_is_set_def)

lemma set_field_other: "u \<noteq> w \<Longrightarrow> idd_field (idd_set_field d u f) w = idd_field d w"
  by (cases u; cases w) (simp_all add: idd_field_def idd_set_field_def)

lemma set_field_same: "idd_field (idd_set_field d u f) u = f"
  by (cases u) (simp_all add: idd_field_def idd_set_field_def)

lemma field_value_set:
  "v \<noteq> i32_sentinel \<Longrightarrow> field_value (idd_set_field d u (DeltaField v)) w = (if w = u then v else field_value d w)"
  by (simp add: field_value_def set_field_same set_field_other df_get_or_def df_is_set_def)

text \<open>The months and the days that the fields stand for, and what holds between two units.\<close>

definition months_of :: "itemized_date_delta \<Rightarrow> int" where
  "months_of d = 12 * field_value d Years + field_value d Months"

definition days_of :: "itemized_date_delta \<Rightarrow> int" where
  "days_of d = 7 * field_value d Weeks + field_value d Days"

definition diff_inv :: "date \<Rightarrow> date \<Rightarrow> bool \<Rightarrow> calendar_unit list \<Rightarrow> itemized_date_delta \<Rightarrow> interim_date \<Rightarrow> bool" where
  "diff_inv a b neg us d t \<longleftrightarrow>
     im_ok t \<and> not_past neg a (im_resolve t) \<and> (\<forall>u. forward neg (field_value d u))
     \<and> (\<forall>u \<in> set us. \<forall>w. calendar_unit_index u \<le> calendar_unit_index w \<longrightarrow> unset d w)
     \<and> (Years \<in> set us \<or> Months \<in> set us \<longrightarrow>
          t = \<lparr>im_year = Year (year_get (d_year b) + field_value d Years), im_month = d_month b, im_day = d_day b\<rparr>)
     \<and> date_ok (months_on (im_of_date b) (months_of d))
     \<and> day_number (im_resolve t) = day_number (months_on (im_of_date b) (months_of d)) + days_of d"

lemma months_on_years:
  "months_on \<lparr>im_year = Year (year_get (d_year b) + y), im_month = d_month b, im_day = d_day b\<rparr> k
    = months_on (im_of_date b) (12 * y + k)"
  by (simp add: months_on_def Let_def im_of_date_def algebra_simps)

lemma month_value_small:
  assumes "date_ok (months_on b k)" and "im_ok b"
  shows "-120000 \<le> k" and "k \<le> 120000"
proof -
  have "month_get m - 1 \<in> {0..<12}" for m by (cases m; simp)
  then have "0 \<le> month_get (im_month b) - 1" "month_get (im_month b) - 1 < 12"
    "0 \<le> month_get (d_month (months_on b k)) - 1" "month_get (d_month (months_on b k)) - 1 < 12" by auto
  with months_on_index [of b k] assms show "-120000 \<le> k" and "k \<le> 120000"
    by (auto simp: date_ok_def im_ok_def year_ok_def)
qed

lemma day_value_small:
  assumes "date_ok x" and "date_ok y" and "day_number y = day_number x + v"
  shows "-4000000 \<le> v" and "v \<le> 4000000"
  using dates.num_bounds [OF assms(1)] dates.num_bounds [OF assms(2)] assms(3) by (simp_all add: bound_defs)

lemma date_shift_months_on:
  assumes "date_ok b" and "date_ok (months_on (im_of_date b) k)"
  shows "date_shift_months b (DeltaMonths k) = Some (months_on (im_of_date b) k)"
proof -
  define i where "i = month_index b + k"
  have m: "0 \<le> i mod 12" "i mod 12 < 12" by simp_all
  have "year_ok (Year (i div 12))"
    using assms(2) by (simp add: months_on_def Let_def date_ok_def date_new_clamp_days_def im_of_date_def i_def)
  then have "1 \<le> i div 12" "i div 12 \<le> 9999" by (simp_all add: year_ok_def)
  then have "12 \<le> i" "i < 120000" by linarith+
  then show ?thesis
    using month_shift_eq [of "d_year b" "d_month b" k] assms(1)
    by (simp add: date_shift_months_def date_ok_def i_def Let_def months_on_def im_of_date_def)
qed

text \<open>The date that \<open>Date::shift\<close> makes of the numbers of years, months, weeks and days, and the
  numbers of a difference in the units down to a given one.\<close>

definition shift_by :: "date \<Rightarrow> (calendar_unit \<Rightarrow> int) \<Rightarrow> date option" where
  "shift_by b n = date_shift b (DeltaMonths (12 * n Years + n Months)) (DeltaDays (7 * n Weeks + n Days))"

definition down_to :: "itemized_date_delta \<Rightarrow> calendar_unit \<Rightarrow> calendar_unit \<Rightarrow> int" where
  "down_to d u w = (if calendar_unit_index w \<le> calendar_unit_index u then field_value d w else 0)"

lemma shift_by_on:
  assumes "date_ok b" and "date_ok (months_on (im_of_date b) k)" and "k = 12 * n Years + n Months" and "date_ok x"
    and "day_number x = day_number (months_on (im_of_date b) k) + (7 * n Weeks + n Days)"
  shows "shift_by b n = Some x"
  using date_shift_months_on [OF assms(1,2)] date_days.shift_between [OF assms(2,4)] assms(3,5)
  by (simp add: shift_by_def date_shift_def)

lemma diff_into_Some:
  "diff_into u a t inc neg d = Some (d', t', e) \<longleftrightarrow>
    (\<exists>v. calendar_unit_diff u a t inc neg = Some (v, t', e) \<and> d' = idd_set_field d u (DeltaField v))"
  by (auto simp: diff_into_def bind_Some_iff)

text \<open>The next unit is larger in the order of \<open>calendar_unit_index\<close>, so that it does not occur again.\<close>

definition descending :: "calendar_unit list \<Rightarrow> bool" where
  "descending us \<longleftrightarrow> sorted_wrt (\<lambda>u w. calendar_unit_index u < calendar_unit_index w) us"

lemma descending_Cons:
  "descending (u # us) \<longleftrightarrow> (\<forall>w \<in> set us. calendar_unit_index u < calendar_unit_index w) \<and> descending us"
  by (auto simp: descending_def)

lemma later_unset:
  assumes "\<forall>w. calendar_unit_index u \<le> calendar_unit_index w \<longrightarrow> unset d w" and "descending (u # us)"
  shows "\<forall>w \<in> set us. \<forall>w'. calendar_unit_index w \<le> calendar_unit_index w' \<longrightarrow> unset (idd_set_field d u f) w'"
proof (intro ballI allI impI)
  fix w w'
  assume "w \<in> set us" "calendar_unit_index w \<le> calendar_unit_index w'"
  then have "calendar_unit_index u < calendar_unit_index w'" using assms(2) by (fastforce simp: descending_Cons)
  then show "unset (idd_set_field d u f) w'" using assms(1) by (cases "u = w'") (simp_all add: set_field_other)
qed

lemma month_step:
  assumes "date_ok b" and "diff_inv a b neg (u # us) d t" and "u = Years \<or> u = Months" and "descending (u # us)"
    and "1 \<le> inc" and "calendar_unit_diff u a t (CalendarIncrement inc) neg = Some (v, t', e)"
  shows "diff_inv a b neg us (idd_set_field d u (DeltaField v)) t'
    \<and> brackets neg a (im_resolve t') (im_resolve e) \<and> inc dvd v \<and> v \<noteq> i32_sentinel
    \<and> shift_by b ((field_value (idd_set_field d u (DeltaField v)))(u := v + ci_signed (CalendarIncrement inc) neg))
        = Some (im_resolve e)"
proof -
  let ?d = "idd_set_field d u (DeltaField v)"
  define s where "s = ci_signed (CalendarIncrement inc) neg"
  define f where "f = (field_value ?d)(u := v + s)"
  let ?b = "im_of_date b"
  have inv: "im_ok t" "not_past neg a (im_resolve t)" "\<forall>w. forward neg (field_value d w)"
    "\<forall>w. calendar_unit_index u \<le> calendar_unit_index w \<longrightarrow> unset d w"
    and t: "t = \<lparr>im_year = Year (year_get (d_year b) + field_value d Years), im_month = d_month b, im_day = d_day b\<rparr>"
    using assms(2,3) by (auto simp: diff_inv_def)
  have wd: "unset d Months" "unset d Weeks" "unset d Days" using inv(4) assms(3) by auto
  have zero: "field_value d Months = 0" "field_value d Weeks = 0" "field_value d Days = 0"
    using wd unset_value by blast+
  have "\<exists>x. date_ok x \<and> im_resolve t' = x \<and> im_ok t' \<and> brackets neg a x (im_resolve e) \<and> forward neg v
      \<and> v \<noteq> i32_sentinel \<and> x = months_on ?b (months_of ?d)
      \<and> (Months \<in> set us \<longrightarrow>
          t' = \<lparr>im_year = Year (year_get (d_year b) + field_value ?d Years), im_month = d_month b, im_day = d_day b\<rparr>)
      \<and> inc dvd v \<and> date_ok (im_resolve e) \<and> im_resolve e = months_on ?b (12 * f Years + f Months)"
    using assms(3)
  proof
    assume u: "u = Years"
    have y0: "field_value d Years = 0" using inv(4) u unset_value by simp
    have "years_diff a t (CalendarIncrement inc) neg = Some (v, t', e)"
      using assms(6) by (simp add: u calendar_unit_diff_def)
    note sound = years_diff_sound [OF inv(1,2) assms(5) this]
    have "t' = \<lparr>im_year = Year (year_get (im_year t) + v), im_month = im_month t, im_day = im_day t\<rparr>"
      using sound by blast
    then have s: "brackets neg a (im_resolve t') (im_resolve e)" "forward neg v" "im_ok t'"
      "t' = \<lparr>im_year = Year (year_get (d_year b) + v), im_month = d_month b, im_day = d_day b\<rparr>"
      using sound by (blast, blast, blast, simp add: t y0)
    have e: "im_ok e" "e = \<lparr>im_year = Year (year_get (d_year b) + (v + s)), im_month = d_month b, im_day = d_day b\<rparr>"
      using sound by (blast, simp add: t y0 s_def)
    have dv: "inc dvd v" using sound by blast
    have small: "v \<noteq> i32_sentinel"
      using s(3) assms(1) by (auto simp: s(4) im_ok_def year_ok_def date_ok_def i32_sentinel_def)
    have "months_of ?d = 12 * v" using zero small by (simp add: months_of_def field_value_set u)
    then have "im_resolve t' = months_on ?b (months_of ?d)"
      using months_on_years [of b v 0] months_on_0 [of t'] by (simp add: s(4))
    moreover have "f Years = v + s" "f Months = 0" using zero small by (simp_all add: f_def u field_value_set)
    moreover from this have "im_resolve e = months_on ?b (12 * f Years + f Months)"
      using months_on_years [of b "v + s" 0] months_on_0 [of e] by (simp add: e(2))
    ultimately show ?thesis using s im_resolve_ok [OF s(3)] im_resolve_ok [OF e(1)] dv small by (simp add: field_value_set u)
  next
    assume u: "u = Months"
    have s: "brackets neg a (im_resolve t') (im_resolve e)" "forward neg v" "date_ok (months_on t v)"
      "t' = im_of_date (months_on t v)"
      and e: "inc dvd v" "date_ok (im_resolve e)" "im_resolve e = months_on t (v + s)"
    proof -
      have "months_diff a t (CalendarIncrement inc) neg = Some (v, t', e)"
        using assms(6) by (simp add: u calendar_unit_diff_def)
      note months_diff_sound [OF inv(1,2) assms(5) this]
      then show "brackets neg a (im_resolve t') (im_resolve e)" "forward neg v" "date_ok (months_on t v)"
        "t' = im_of_date (months_on t v)" "inc dvd v" "date_ok (im_resolve e)" "im_resolve e = months_on t (v + s)"
        unfolding s_def by blast+
    qed
    have small: "v \<noteq> i32_sentinel" using month_value_small [OF s(3) inv(1)] by (auto simp: i32_sentinel_def)
    have "months_on t v = months_on ?b (months_of ?d)"
      using months_on_years [of b "field_value d Years" v] small t by (simp add: months_of_def field_value_set u)
    moreover have "Months \<notin> set us" using assms(4) by (auto simp: descending_Cons u)
    moreover have "months_on t (v + s) = months_on ?b (12 * f Years + f Months)"
      using months_on_years [of b "field_value d Years" "v + s"] small t by (simp add: f_def u field_value_set)
    ultimately show ?thesis using s e small by simp
  qed
  then obtain x where x: "date_ok x" "im_resolve t' = x" "im_ok t'" "brackets neg a x (im_resolve e)" "forward neg v"
    "v \<noteq> i32_sentinel" "x = months_on ?b (months_of ?d)"
    and y: "Months \<in> set us \<longrightarrow>
      t' = \<lparr>im_year = Year (year_get (d_year b) + field_value ?d Years), im_month = d_month b, im_day = d_day b\<rparr>"
    and e: "inc dvd v" "date_ok (im_resolve e)" "im_resolve e = months_on ?b (12 * f Years + f Months)" by blast
  have "f Weeks = 0" "f Days = 0" using zero assms(3) x(6) by (auto simp: f_def field_value_set)
  then have sh: "shift_by b f = Some (im_resolve e)"
    using shift_by_on [OF assms(1) _ refl, of f "im_resolve e"] e by simp
  have "\<forall>w \<in> set us. \<forall>w'. calendar_unit_index w \<le> calendar_unit_index w' \<longrightarrow> unset ?d w'"
    using later_unset [OF inv(4) assms(4)] by blast
  moreover have "Years \<notin> set us" using assms(4) by (cases u) (auto simp: descending_Cons)
  moreover have "days_of ?d = 0" using zero assms(3) x(6) by (auto simp: days_of_def field_value_set)
  moreover have "not_past neg a (im_resolve t')" using x(2,4) by (simp add: brackets_def not_past_def split: if_splits)
  ultimately show ?thesis
    using x y e(1) inv(3) sh [unfolded f_def s_def] by (auto simp: diff_inv_def field_value_set)
qed

lemma day_step:
  assumes "date_ok a" and "diff_inv a b neg (u # us) d t" and "u = Weeks \<or> u = Days" and "descending (u # us)"
    and "1 \<le> inc" and "calendar_unit_diff u a t (CalendarIncrement inc) neg = Some (v, t', e)"
    and "date_ok b"
  shows "diff_inv a b neg us (idd_set_field d u (DeltaField v)) t'
    \<and> brackets neg a (im_resolve t') (im_resolve e) \<and> (u = Days \<and> inc = 1 \<longrightarrow> im_resolve t' = a)
    \<and> inc dvd v \<and> v \<noteq> i32_sentinel
    \<and> shift_by b ((field_value (idd_set_field d u (DeltaField v)))(u := v + ci_signed (CalendarIncrement inc) neg))
        = Some (im_resolve e)"
proof -
  let ?d = "idd_set_field d u (DeltaField v)"
  have inv: "im_ok t" "not_past neg a (im_resolve t)" "\<forall>w. forward neg (field_value d w)"
    "\<forall>w. calendar_unit_index u \<le> calendar_unit_index w \<longrightarrow> unset d w"
    "date_ok (months_on (im_of_date b) (months_of d))"
    "day_number (im_resolve t) = day_number (months_on (im_of_date b) (months_of d)) + days_of d"
    using assms(2) by (auto simp: diff_inv_def)
  define c :: int where "c = (if u = Weeks then 7 else 1)"
  define k where "k = c * v"
  define s where "s = ci_signed (CalendarIncrement inc) neg"
  define f where "f = (field_value ?d)(u := v + s)"
  have "brackets neg a (im_resolve t') (im_resolve e) \<and> forward neg v \<and> (u = Days \<and> inc = 1 \<longrightarrow> im_resolve t' = a)
    \<and> (\<exists>x. date_ok x \<and> t' = im_of_date x \<and> date_shift_days (im_resolve t) (DeltaDays k) = Some x)
    \<and> inc dvd v \<and> date_ok (im_resolve e) \<and> day_number (im_resolve e) = day_number (im_resolve t) + c * (v + s)"
    using assms(3)
  proof
    assume "u = Weeks"
    then show ?thesis
      using weeks_diff_sound [OF assms(1) inv(1,2) assms(5), of v t' e] assms(6) by (simp add: calendar_unit_diff_def k_def c_def s_def)
  next
    assume "u = Days"
    then show ?thesis
      using days_diff_sound [OF assms(1) inv(1,2) assms(5), of v t' e] assms(6) by (simp add: calendar_unit_diff_def k_def c_def s_def)
  qed
  then obtain x where br: "brackets neg a (im_resolve t') (im_resolve e)" "forward neg v"
    "u = Days \<and> inc = 1 \<longrightarrow> im_resolve t' = a"
    and x: "date_ok x" "t' = im_of_date x" "date_shift_days (im_resolve t) (DeltaDays k) = Some x"
    and e: "inc dvd v" "date_ok (im_resolve e)" "day_number (im_resolve e) = day_number (im_resolve t) + c * (v + s)" by blast
  have day: "day_number x = day_number (im_resolve t) + k"
    using date_days.shift_sound [OF im_resolve_ok [OF inv(1)] x(3)] by simp
  have "-4000000 \<le> k" "k \<le> 4000000" using day_value_small [OF im_resolve_ok [OF inv(1)] x(1) day] by simp_all
  then have small: "v \<noteq> i32_sentinel" by (auto simp: k_def c_def i32_sentinel_def split: if_splits)
  have u0: "field_value d u = 0" using inv(4) unset_value by simp
  have "12 * f Years + f Months = months_of d" "7 * f Weeks + f Days = days_of d + c * (v + s)"
    using assms(3) small u0 by (auto simp: f_def months_of_def days_of_def field_value_set c_def)
  then have sh: "shift_by b f = Some (im_resolve e)"
    using shift_by_on [OF assms(7) inv(5), of f "im_resolve e"] e inv(6) by simp
  have "months_of ?d = months_of d" using assms(3) small by (auto simp: months_of_def field_value_set)
  moreover have "days_of ?d = days_of d + k" using assms(3) small u0 by (auto simp: days_of_def field_value_set k_def c_def)
  moreover have "\<forall>w \<in> set us. \<forall>w'. calendar_unit_index w \<le> calendar_unit_index w' \<longrightarrow> unset ?d w'"
    using later_unset [OF inv(4) assms(4)] by blast
  moreover have "Years \<notin> set us \<and> Months \<notin> set us" using assms(3,4) by (auto simp: descending_Cons)
  moreover have "not_past neg a (im_resolve t')" using br(1) by (simp add: brackets_def not_past_def split: if_splits)
  ultimately show ?thesis
    using br x day inv small e(1) sh [unfolded f_def s_def] by (auto simp: diff_inv_def field_value_set)
qed

lemma inv_shift:
  assumes "diff_inv a b neg us d t" and "date_ok b"
  shows "shift_by b (field_value d) = Some (im_resolve t)"
  using assms shift_by_on [OF assms(2) _ refl, of "field_value d" "im_resolve t"] im_resolve_ok [of t]
  by (simp add: diff_inv_def months_of_def days_of_def)

lemma diff_list_keeps:
  assumes "diff_list a inc smallest neg us (d, t, e) = Some (d', t', e')" and "w \<notin> set us"
  shows "idd_field d' w = idd_field d w"
  using assms
proof (induction us arbitrary: d t e)
  case (Cons u us)
  then obtain d1 t1 e1 where into: "diff_into u a t (if u = smallest then inc else ci_min) neg d = Some (d1, t1, e1)"
    and "diff_list a inc smallest neg us (d1, t1, e1) = Some (d', t', e')"
    by (auto split: option.splits)
  moreover have "idd_field d1 w = idd_field d w"
    using into Cons.prems(2) by (auto simp: diff_into_Some set_field_other)
  ultimately show ?case using Cons.IH Cons.prems(2) by simp
qed simp

lemma down_to_cong:
  assumes "\<And>w. calendar_unit_index w \<le> calendar_unit_index u \<Longrightarrow> idd_field d w = idd_field d' w"
  shows "down_to d u = down_to d' u"
  using assms by (simp add: down_to_def field_value_def fun_eq_iff)

lemma down_to_all:
  assumes "\<And>w. calendar_unit_index u < calendar_unit_index w \<Longrightarrow> unset d w"
  shows "down_to d u = field_value d"
  using assms unset_value by (auto simp: down_to_def fun_eq_iff not_le)

text \<open>What the loop achieves in one unit: the number is a multiple of the step, the date reached by the
  units so far does not pass the target, and the date one step further does.\<close>

definition greatest :: "date \<Rightarrow> date \<Rightarrow> bool \<Rightarrow> int \<Rightarrow> itemized_date_delta \<Rightarrow> calendar_unit \<Rightarrow> date \<Rightarrow> date \<Rightarrow> bool" where
  "greatest a b neg step d u x y \<longleftrightarrow>
     step dvd field_value d u \<and> shift_by b (down_to d u) = Some x
     \<and> shift_by b ((down_to d u)(u := field_value d u + (if neg then - step else step))) = Some y
     \<and> brackets neg a x y"

lemma diff_list_sound:
  assumes "date_ok a" and "date_ok b" and "1 \<le> inc"
    and "diff_inv a b neg us d t" and "descending us"
    and "diff_list a (CalendarIncrement inc) smallest neg us (d, t, e) = Some (d', t', e')"
  shows "diff_inv a b neg [] d' t'
    \<and> (\<forall>u \<in> set us. \<exists>x y. greatest a b neg (if u = smallest then inc else 1) d' u x y
         \<and> (u = last us \<longrightarrow> x = im_resolve t' \<and> y = im_resolve e'))
    \<and> (us \<noteq> [] \<and> last us = Days \<and> inc = 1 \<longrightarrow> im_resolve t' = a)"
  using assms(4-6)
proof (induction us arbitrary: d t e)
  case (Cons u us)
  define i where "i = (if u = smallest then inc else 1)"
  have i: "1 \<le> i" "inc = 1 \<Longrightarrow> i = 1" using assms(3) by (auto simp: i_def)
  have "(if u = smallest then CalendarIncrement inc else ci_min) = CalendarIncrement i" by (simp add: i_def ci_min_def)
  then obtain d1 t1 e1 where into: "diff_into u a t (CalendarIncrement i) neg d = Some (d1, t1, e1)"
    and rest: "diff_list a (CalendarIncrement inc) smallest neg us (d1, t1, e1) = Some (d', t', e')"
    using Cons.prems(3) by (auto split: option.splits)
  then obtain v where v: "calendar_unit_diff u a t (CalendarIncrement i) neg = Some (v, t1, e1)"
    "d1 = idd_set_field d u (DeltaField v)" by (auto simp: diff_into_Some)
  have step: "diff_inv a b neg us d1 t1 \<and> brackets neg a (im_resolve t1) (im_resolve e1)
      \<and> (u = Days \<and> i = 1 \<longrightarrow> im_resolve t1 = a) \<and> i dvd v \<and> v \<noteq> i32_sentinel
      \<and> shift_by b ((field_value d1)(u := v + ci_signed (CalendarIncrement i) neg)) = Some (im_resolve e1)"
  proof (cases "u = Weeks \<or> u = Days")
    case True
    from day_step [OF assms(1) Cons.prems(1) this Cons.prems(2) i(1) v(1) assms(2)] show ?thesis by (simp add: v(2))
  next
    case False
    then have "u = Years \<or> u = Months" by (cases u) auto
    from month_step [OF assms(2) Cons.prems(1) this Cons.prems(2) i(1) v(1)] False show ?thesis by (simp add: v(2))
  qed
  then have inv1: "diff_inv a b neg us d1 t1" by blast
  moreover have desc: "descending us" using Cons.prems(2) by (simp add: descending_Cons)
  ultimately have ih: "diff_inv a b neg [] d' t'
      \<and> (\<forall>u \<in> set us. \<exists>x y. greatest a b neg (if u = smallest then inc else 1) d' u x y
           \<and> (u = last us \<longrightarrow> x = im_resolve t' \<and> y = im_resolve e'))
      \<and> (us \<noteq> [] \<and> last us = Days \<and> inc = 1 \<longrightarrow> im_resolve t' = a)"
    using rest by (rule Cons.IH)
  have later: "w \<notin> set us" if "calendar_unit_index w \<le> calendar_unit_index u" for w
    using Cons.prems(2) that by (auto simp: descending_Cons)
  have d1: "down_to d1 u = field_value d1"
  proof (rule down_to_all)
    fix w assume w: "calendar_unit_index u < calendar_unit_index w"
    then have "unset d w" using Cons.prems(1) by (simp add: diff_inv_def)
    then show "unset d1 w" using w by (cases "u = w") (simp_all add: v(2) set_field_other)
  qed
  have "idd_field d' w = idd_field d1 w" if "calendar_unit_index w \<le> calendar_unit_index u" for w
    using diff_list_keeps [OF rest later [OF that]] .
  from down_to_cong [OF this] have d': "down_to d' u = field_value d1" by (simp add: d1)
  have "field_value d1 u = v" using step by (simp add: v(2) field_value_set)
  moreover have "field_value d' u = field_value d1 u" using fun_cong [OF d', of u] by (simp add: down_to_def)
  moreover have "(if neg then - i else i) = ci_signed (CalendarIncrement i) neg" by (simp add: ci_signed_def negate_if_def)
  ultimately have head: "greatest a b neg i d' u (im_resolve t1) (im_resolve e1)"
    using step inv_shift [OF inv1 assms(2)] by (simp add: greatest_def d')
  show ?case
  proof (cases "us = []")
    case True
    with rest have "t' = t1" "e' = e1" by simp_all
    with step ih True i(2) head show ?thesis by (auto simp: i_def)
  next
    case False
    then have "last us \<noteq> u" using later [of u] by auto
    have "\<exists>x y. greatest a b neg (if w = smallest then inc else 1) d' w x y
        \<and> (w = last us \<longrightarrow> x = im_resolve t' \<and> y = im_resolve e')" if "w \<in> set (u # us)" for w
    proof (cases "w = u")
      case True
      with head \<open>last us \<noteq> u\<close> show ?thesis unfolding i_def by (intro exI conjI) auto
    next
      case False
      with that ih show ?thesis by simp
    qed
    with ih False show ?thesis by simp
  qed
qed simp

lemma descending_unit_list: "descending (unit_list s)"
  unfolding descending_def unit_list_def by (rule sorted_wrt_filter) simp

lemma in_unit_list: "u \<in> set (unit_list s) \<longleftrightarrow> bit s (calendar_unit_index u)"
  by (cases u) (simp_all add: unit_list_def)

lemma calendar_unit_index_inject: "calendar_unit_index u = calendar_unit_index w \<Longrightarrow> u = w"
  by (cases u; cases w) simp_all

lemma calendar_unit_index_le_Days: "calendar_unit_index u \<le> calendar_unit_index Days"
  by (cases u) simp_all

lemma descending_last:
  "descending us \<Longrightarrow> us \<noteq> [] \<Longrightarrow> u \<in> set us \<Longrightarrow> calendar_unit_index u \<le> calendar_unit_index (last us)"
  by (induction us) (auto simp: descending_Cons intro: less_imp_le)

text \<open>The smallest unit of a set, without the bit count of \<open>cus_smallest\<close>.\<close>

definition smallest_of :: "unit_mask \<Rightarrow> calendar_unit \<Rightarrow> bool" where
  "smallest_of s u \<longleftrightarrow> bit s (calendar_unit_index u)
     \<and> (\<forall>w. bit s (calendar_unit_index w) \<longrightarrow> calendar_unit_index w \<le> calendar_unit_index u)"

lemma smallest_of_last:
  assumes "unit_list s \<noteq> []"
  shows "smallest_of s u \<longleftrightarrow> u = last (unit_list s)"
proof -
  have "last (unit_list s) \<in> set (unit_list s)" using assms by simp
  then have "smallest_of s (last (unit_list s))"
    using descending_last [OF descending_unit_list assms] by (simp add: smallest_of_def in_unit_list del: last_in_set)
  moreover have "u = w" if "smallest_of s u" "smallest_of s w" for w
    using that by (intro calendar_unit_index_inject le_antisym) (simp_all add: smallest_of_def)
  ultimately show ?thesis by blast
qed

lemma unset_inv:
  assumes "date_ok b" and "not_past neg a b" and "descending us"
  shows "diff_inv a b neg us idd_unset (im_of_date b)"
proof -
  have u: "unset idd_unset w" for w by (cases w) (simp_all add: idd_field_def idd_unset_def)
  then have z: "field_value idd_unset w = 0" for w by (rule unset_value)
  have m: "months_on (im_of_date b) 0 = b" using months_on_0 [of "im_of_date b"] assms(1) by simp
  have r: "im_resolve (im_of_date b) = b" "im_ok (im_of_date b)" using assms(1) by simp_all
  have b: "im_of_date b = \<lparr>im_year = Year (year_get (d_year b) + 0), im_month = d_month b, im_day = d_day b\<rparr>"
    by (simp add: im_of_date_def)
  show ?thesis
    unfolding diff_inv_def r(1) months_of_def days_of_def z using assms u m r(2) b by (simp add: forward_def)
qed

text \<open>C28. Whenever the difference of two dates in a set of units is computed, it is the greatest in every
  unit of the set, from the largest unit to the smallest: the field is a multiple of the step (the
  increment in the smallest unit, one in the others), the date reached with the units so far does
  not pass the target, and with one step more in this unit it does. The truncated and the
  expanded date are those two dates for the smallest unit. Fields outside the set are
  unset, all fields have the sign of the difference, and with days in the set and increment one the
  truncated date is the target: adding the difference back is exact, whatever the month lengths
  and leap years in between.\<close>

theorem date_diff_spec:
  assumes "date_ok a" and "date_ok b" and "neg \<longleftrightarrow> a < b" and "1 \<le> inc"
    and "units \<noteq> 0" and "units < 16"
    and "date_diff a b (CalendarIncrement inc) units neg = Some (d, t, e)"
  shows "shift_by b (field_value d) = Some (im_resolve t)
    \<and> (\<forall>u. if bit units (calendar_unit_index u)
         then \<exists>x y. greatest a b neg (if smallest_of units u then inc else 1) d u x y
                \<and> (smallest_of units u \<longrightarrow> x = im_resolve t \<and> y = im_resolve e)
         else unset d u)
    \<and> (\<forall>u. forward neg (field_value d u))
    \<and> (inc = 1 \<and> smallest_of units Days \<longrightarrow> shift_by b (field_value d) = Some a)"
proof -
  have ne: "unit_list units \<noteq> []" "cus_smallest units = last (unit_list units)"
    using low_mask(4) [OF assms(6)] assms(5) by simp_all
  note last = smallest_of_last [OF ne(1)]
  have "not_past neg a b" using assms(3) by (auto simp: not_past_def not_less)
  from unset_inv [OF assms(2) this descending_unit_list [of units]]
  have start: "diff_inv a b neg (unit_list units) idd_unset (im_of_date b)" .
  have list: "diff_list a (CalendarIncrement inc) (cus_smallest units) neg (unit_list units) (idd_unset, im_of_date b, im_of_date a)
      = Some (d, t, e)"
    using assms(7) loop_is_list [OF assms(6)] by (simp add: date_diff_def)
  note sound = diff_list_sound [OF assms(1,2,4) start descending_unit_list list]
  then have inv: "diff_inv a b neg [] d t" by blast
  have "if bit units (calendar_unit_index u)
      then \<exists>x y. greatest a b neg (if smallest_of units u then inc else 1) d u x y
        \<and> (smallest_of units u \<longrightarrow> x = im_resolve t \<and> y = im_resolve e)
      else unset d u" for u
  proof (cases "bit units (calendar_unit_index u)")
    case True
    then have "u \<in> set (unit_list units)" by (simp add: in_unit_list)
    with sound True show ?thesis unfolding ne(2) last by simp
  next
    case False
    then have "u \<notin> set (unit_list units)" by (simp add: in_unit_list)
    from diff_list_keeps [OF list this] have "unset d u"
      by (cases u) (simp_all add: idd_field_def idd_unset_def)
    with False show ?thesis by simp
  qed
  moreover have "im_resolve t = a" if "inc = 1" "smallest_of units Days"
    using sound ne(1) that by (simp add: last)
  ultimately show ?thesis using inv_shift [OF inv assms(2)] inv by (simp add: diff_inv_def)
qed

theorem date_diff_spec_witness:
  "\<exists>d t e x y. date_diff \<lparr>d_year = Year 2025, d_month = September, d_day = 15\<rparr>
        \<lparr>d_year = Year 2024, d_month = January, d_day = 31\<rparr> (CalendarIncrement 2) 3 False = Some (d, t, e)
    \<and> field_value d Years = 1 \<and> field_value d Months = 6
    \<and> greatest \<lparr>d_year = Year 2025, d_month = September, d_day = 15\<rparr>
        \<lparr>d_year = Year 2024, d_month = January, d_day = 31\<rparr> False 2 d Months x y
    \<and> x = \<lparr>d_year = Year 2025, d_month = July, d_day = 31\<rparr> \<and> y = \<lparr>d_year = Year 2025, d_month = September, d_day = 30\<rparr>"
proof -
  let ?a = "\<lparr>d_year = Year 2025, d_month = September, d_day = 15\<rparr> :: date"
  let ?b = "\<lparr>d_year = Year 2024, d_month = January, d_day = 31\<rparr> :: date"
  have "case date_diff ?a ?b (CalendarIncrement 2) 3 False of None \<Rightarrow> False
      | Some (d, t, e) \<Rightarrow> field_value d Years = 1 \<and> field_value d Months = 6
          \<and> im_resolve t = \<lparr>d_year = Year 2025, d_month = July, d_day = 31\<rparr>
          \<and> im_resolve e = \<lparr>d_year = Year 2025, d_month = September, d_day = 30\<rparr>" by code_simp
  then obtain d t e where d: "date_diff ?a ?b (CalendarIncrement 2) 3 False = Some (d, t, e)"
    "field_value d Years = 1" "field_value d Months = 6"
    "im_resolve t = \<lparr>d_year = Year 2025, d_month = July, d_day = 31\<rparr>"
    "im_resolve e = \<lparr>d_year = Year 2025, d_month = September, d_day = 30\<rparr>"
    by (auto split: option.splits)
  have "date_ok ?a" "date_ok ?b" "False \<longleftrightarrow> ?a < ?b" "(1 :: int) \<le> 2" "(3 :: unit_mask) \<noteq> 0" "(3 :: unit_mask) < 16"
    by code_simp+
  note main = date_diff_spec [OF this d(1)]
  have m: "bit (3 :: unit_mask) (calendar_unit_index Months)" by code_simp
  have "unit_list 3 \<noteq> []" "Months = last (unit_list 3)" by code_simp+
  then have "smallest_of 3 Months" using smallest_of_last [of 3 Months] by blast
  with m main [THEN conjunct2, THEN conjunct1, THEN spec, of Months]
  have "\<exists>x y. greatest ?a ?b False 2 d Months x y \<and> x = im_resolve t \<and> y = im_resolve e"
    by (simp only: if_True simp_thms)
  with d show ?thesis by blast
qed

subsection \<open>Exact units\<close>

text \<open>The value of a field, zero when it is not set, and the nanoseconds that some fields stand for.\<close>

definition id_exact :: "itemized_delta \<Rightarrow> exact_unit \<Rightarrow> int" where
  "id_exact d u =
     (case u of
        EWeeks \<Rightarrow> df_get_or i32_sentinel (id_weeks d) 0 | EDays \<Rightarrow> df_get_or i32_sentinel (id_days d) 0
      | EHours \<Rightarrow> df_get_or i32_sentinel (id_hours d) 0 | EMinutes \<Rightarrow> df_get_or i64_sentinel (id_minutes d) 0
      | ESeconds \<Rightarrow> df_get_or i64_sentinel (id_seconds d) 0 | ENanoseconds \<Rightarrow> df_get_or i32_sentinel (id_nanos d) 0
      | _ \<Rightarrow> 0)"

definition clock_units :: "exact_unit list" where
  "clock_units = [EWeeks, EDays, EHours, EMinutes, ESeconds, ENanoseconds]"

definition nanos_in :: "itemized_delta \<Rightarrow> exact_unit list \<Rightarrow> int" where
  "nanos_in d us = sum_list (map (\<lambda>u. id_exact d u * exact_unit_in_nanos u) us)"

definition exact_field_unset :: "itemized_delta \<Rightarrow> exact_unit \<Rightarrow> bool" where
  "exact_field_unset d u =
     (case u of
        EWeeks \<Rightarrow> id_weeks d = DeltaField i32_sentinel | EDays \<Rightarrow> id_days d = DeltaField i32_sentinel
      | EHours \<Rightarrow> id_hours d = DeltaField i32_sentinel | EMinutes \<Rightarrow> id_minutes d = DeltaField i64_sentinel
      | ESeconds \<Rightarrow> id_seconds d = DeltaField i64_sentinel | ENanoseconds \<Rightarrow> id_nanos d = DeltaField i32_sentinel
      | _ \<Rightarrow> True)"

lemma df_get_or_simps:
  "df_get_or s (DeltaField s) z = z" "v \<noteq> s \<Longrightarrow> df_get_or s (DeltaField v) z = v"
  by (simp_all add: df_get_or_def df_is_set_def)

lemma unset_exact: "exact_field_unset d u \<Longrightarrow> id_exact d u = 0"
  by (cases u) (simp_all add: exact_field_unset_def id_exact_def df_get_or_simps)

lemma set_exact:
  assumes "id_set_exact d u v = Some d'" and "ns_per_sec \<le> exact_unit_in_nanos u"
    and "ns_per_hour \<le> exact_unit_in_nanos u \<Longrightarrow> v \<noteq> i32_sentinel" and "v \<noteq> i64_sentinel"
  shows "id_exact d' w = (if w = u then v else id_exact d w)"
    and "w \<noteq> u \<Longrightarrow> exact_field_unset d w \<Longrightarrow> exact_field_unset d' w"
    and "id_years d' = id_years d" and "id_months d' = id_months d"
  using assms
  by (cases u; cases w; auto simp: id_set_exact_def id_exact_def exact_field_unset_def df_get_or_simps bind_Some_iff time_units)+

text \<open>A number has the sign of another one.\<close>

definition has_sign :: "int \<Rightarrow> int \<Rightarrow> bool" where
  "has_sign n v \<longleftrightarrow> (0 \<le> n \<longrightarrow> 0 \<le> v) \<and> (n \<le> 0 \<longrightarrow> v \<le> 0)"

lemma has_sign_trans: "has_sign n m \<Longrightarrow> has_sign m v \<Longrightarrow> has_sign n v"
  by (auto simp: has_sign_def)

lemma has_sign_0 [simp]: "has_sign n 0"
  and has_sign_refl [simp]: "has_sign n n"
  by (simp_all add: has_sign_def)

lemma truncated_division:
  fixes n per :: int
  assumes "0 < per"
  shows "n - n sdiv per * per = n smod per" and "\<bar>n smod per\<bar> < per" and "\<bar>n sdiv per\<bar> \<le> \<bar>n\<bar> div per"
    and "has_sign n (n smod per)" and "\<bar>n smod per\<bar> \<le> \<bar>n\<bar>" and "has_sign n (n sdiv per)"
proof -
  show "n - n sdiv per * per = n smod per" using sdiv_mult_smod_eq [of n per] by linarith
  have s: "n smod per = (if 0 \<le> n then n mod per else - (- n mod per))"
    using assms by (auto simp: signed_modulo_int_def sgn_if)
  have m: "0 \<le> k mod per" "k mod per < per" for k using assms by simp_all
  show "\<bar>n smod per\<bar> < per" "has_sign n (n smod per)"
    using m [of n] m [of "- n"] by (auto simp: s has_sign_def)
  have "k mod per \<le> k" if "0 \<le> k" for k using that assms by (simp add: zmod_le_nonneg_dividend)
  then show "\<bar>n smod per\<bar> \<le> \<bar>n\<bar>" using m [of n] m [of "- n"] by (auto simp: s)
  have q: "n sdiv per = (if 0 \<le> n then n div per else - (- n div per))"
    using assms by (auto simp: signed_divide_int_def sgn_if)
  show "\<bar>n sdiv per\<bar> \<le> \<bar>n\<bar> div per"
    using assms by (auto simp: signed_divide_int_def abs_mult sgn_if pos_imp_zdiv_nonneg_iff)
  show "has_sign n (n sdiv per)"
    using assms by (auto simp: q has_sign_def pos_imp_zdiv_nonneg_iff)
qed

lemma unit_nanos_pos: "0 < exact_unit_in_nanos u"
  by (cases u) (simp_all add: time_units)

text \<open>What a greedy split is: in every unit of the set as much as goes into what the larger ones left,
  without passing it, and nothing in the other units.\<close>

fun greedy :: "unit_mask \<Rightarrow> (exact_unit \<Rightarrow> int) \<Rightarrow> exact_unit list \<Rightarrow> int \<Rightarrow> int \<Rightarrow> bool" where
  "greedy units f [] n r \<longleftrightarrow> r = n"
| "greedy units f (u # us) n r \<longleftrightarrow>
     (let rest = n - f u * exact_unit_in_nanos u
      in (if eus_contains units u then \<bar>rest\<bar> < exact_unit_in_nanos u else f u = 0)
         \<and> has_sign n (f u) \<and> has_sign n rest \<and> greedy units f us rest r)"

lemma greedy_cong: "(\<And>u. u \<in> set us \<Longrightarrow> f u = g u) \<Longrightarrow> greedy units f us n r = greedy units g us n r"
  by (induction us arbitrary: n) simp_all

lemma greedy_append:
  "greedy units f (us @ vs) n r \<longleftrightarrow> (\<exists>m. greedy units f us n m \<and> greedy units f vs m r)"
  by (induction us arbitrary: n) (simp_all add: Let_def, blast?)

lemma greedy_sign: "greedy units f us n r \<Longrightarrow> has_sign n r \<and> (\<forall>u \<in> set us. has_sign n (f u))"
  by (induction us arbitrary: n) (auto simp: Let_def intro: has_sign_trans)

lemma greedy_sum:
  "greedy units (id_exact d) us n r \<Longrightarrow> nanos_in d us + r = n"
  by (induction us arbitrary: n) (fastforce simp: Let_def nanos_in_def)+

lemma greedy_prefix:
  assumes "greedy units (id_exact d) (us @ u # vs) n r" and "eus_contains units u"
  shows "\<bar>n - nanos_in d (us @ [u])\<bar> < exact_unit_in_nanos u \<and> has_sign n (n - nanos_in d (us @ [u]))"
proof -
  obtain m where m: "greedy units (id_exact d) us n m" "greedy units (id_exact d) (u # vs) m r"
    using assms(1) by (auto simp: greedy_append)
  have "m - id_exact d u * exact_unit_in_nanos u = n - nanos_in d (us @ [u])"
    using greedy_sum [OF m(1)] by (simp add: nanos_in_def)
  then show ?thesis
    using m(2) assms(2) has_sign_trans [OF greedy_sign [OF m(1), THEN conjunct1]] by (simp add: Let_def)
qed

lemma split_units_greedy:
  assumes "split_units units us n d = Some (r, d')" and "distinct us" and "\<forall>u \<in> set us. exact_field_unset d u"
    and "\<forall>u \<in> set us. ns_per_sec \<le> exact_unit_in_nanos u" and "\<bar>n\<bar> \<le> 2147483647 * ns_per_hour"
  shows "greedy units (id_exact d') us n r \<and> (\<forall>w. w \<notin> set us \<longrightarrow> id_exact d' w = id_exact d w)
    \<and> (\<forall>w. exact_field_unset d w \<and> \<not> (w \<in> set us \<and> eus_contains units w) \<longrightarrow> exact_field_unset d' w)
    \<and> id_years d' = id_years d \<and> id_months d' = id_months d"
  using assms
proof (induction us arbitrary: n d)
  case (Cons u us)
  show ?case
  proof (cases "eus_contains units u")
    case True
    let ?p = "exact_unit_in_nanos u"
    obtain d1 where d1: "id_set_exact d u (n sdiv ?p) = Some d1" and rest: "split_units units us (n smod ?p) d1 = Some (r, d')"
      using Cons.prems(1) True by (auto simp: bind_Some_iff Let_def)
    note div = truncated_division [OF unit_nanos_pos [of u], of n]
    have small: "\<bar>n\<bar> div ?p \<le> (2147483647 * ns_per_hour) div k" if "k \<le> ?p" "0 < k" for k
    proof -
      have "\<bar>n\<bar> div ?p \<le> \<bar>n\<bar> div k" by (rule zdiv_mono2) (use that in simp_all)
      also have "\<dots> \<le> (2147483647 * ns_per_hour) div k" by (rule zdiv_mono1) (use Cons.prems(5) that in simp_all)
      finally show ?thesis .
    qed
    have i32: "n sdiv ?p \<noteq> i32_sentinel" if "ns_per_hour \<le> ?p"
      using div(3) small [OF that] by (auto simp: time_units i32_sentinel_def)
    have i64: "n sdiv ?p \<noteq> i64_sentinel"
      using div(3) small [of ns_per_sec] Cons.prems(4) by (auto simp: time_units i64_sentinel_def)
    have sec: "ns_per_sec \<le> ?p" using Cons.prems(4) by simp
    note set = set_exact [OF d1 sec i32 i64]
    have "\<forall>w \<in> set us. exact_field_unset d1 w"
      using set(2) Cons.prems(2,3) by (metis distinct.simps(2) list.set_intros(2))
    moreover have "\<bar>n smod ?p\<bar> \<le> 2147483647 * ns_per_hour" using div(5) Cons.prems(5) by linarith
    ultimately have ih: "greedy units (id_exact d') us (n smod ?p) r \<and> (\<forall>w. w \<notin> set us \<longrightarrow> id_exact d' w = id_exact d1 w)
        \<and> (\<forall>w. exact_field_unset d1 w \<and> \<not> (w \<in> set us \<and> eus_contains units w) \<longrightarrow> exact_field_unset d' w)
        \<and> id_years d' = id_years d1 \<and> id_months d' = id_months d1"
      using Cons.IH [OF rest] Cons.prems(2,4) by simp
    have "u \<notin> set us" using Cons.prems(2) by simp
    then have "id_exact d' u = n sdiv ?p" using ih set(1) by simp
    then have "greedy units (id_exact d') (u # us) n r" using ih True div by (simp add: Let_def)
    moreover have "id_exact d' w = id_exact d w" if "w \<notin> set (u # us)" for w using ih set(1) that by simp
    moreover have "exact_field_unset d' w" if "exact_field_unset d w" "\<not> (w \<in> set (u # us) \<and> eus_contains units w)" for w
      using ih set(2) [of w] that True by auto
    ultimately show ?thesis using ih set(3,4) by simp
  next
    case False
    with Cons have ih: "greedy units (id_exact d') us n r \<and> (\<forall>w. w \<notin> set us \<longrightarrow> id_exact d' w = id_exact d w)
        \<and> (\<forall>w. exact_field_unset d w \<and> \<not> (w \<in> set us \<and> eus_contains units w) \<longrightarrow> exact_field_unset d' w)
        \<and> id_years d' = id_years d \<and> id_months d' = id_months d" by simp
    moreover have "id_exact d' u = 0" using ih Cons.prems(2,3) unset_exact by simp
    ultimately show ?thesis using False by (auto simp: Let_def)
  qed
qed simp

lemma id_unset_fields:
  "exact_field_unset id_unset u" "id_years id_unset = DeltaField i32_sentinel" "id_months id_unset = DeltaField i32_sentinel"
  by (cases u) (simp_all add: exact_field_unset_def id_unset_def)

lemma td_ok_total_small: "td_ok d \<Longrightarrow> \<bar>td_total_nanos d\<bar> \<le> 2147483647 * ns_per_hour"
  by (auto simp: td_ok_def td_total_nanos_def delta_seconds_ok_def subsec_ok_def bound_defs time_units)

lemma in_exact_units_greedy:
  assumes "di_from_nanos (exact_unit_in_nanos (eus_smallest units) * dinc_get inc) = Some i"
    and "td_round d i m = Some rounded" and "td_ok rounded"
    and "td_in_exact_units d units inc m = Some res"
    and "eus_contains units ENanoseconds \<Longrightarrow> df_is_set i32_sentinel (id_nanos res)"
  obtains r where "greedy units (id_exact res) clock_units (td_total_nanos rounded) r"
    and "eus_contains units ENanoseconds \<Longrightarrow> r = 0"
    and "\<And>u. \<not> eus_contains units u \<Longrightarrow> exact_field_unset res u"
    and "id_years res = DeltaField i32_sentinel" and "id_months res = DeltaField i32_sentinel"
proof -
  define us where "us = [EWeeks, EDays, EHours, EMinutes, ESeconds]"
  let ?n = "td_total_nanos rounded"
  have us: "clock_units = us @ [ENanoseconds]" "ENanoseconds \<notin> set us" "distinct us"
    "\<forall>u \<in> set us. ns_per_sec \<le> exact_unit_in_nanos u"
    by (simp_all add: us_def clock_units_def time_units)
  obtain r t where split: "split_units units us ?n id_unset = Some (r, t)"
    and res: "(if eus_contains units ENanoseconds
          then do { x \<leftarrow> checked i32_ok r; Some (t\<lparr>id_nanos := DeltaField x\<rparr>) } else Some t) = Some res"
    using assms(1,2,4) by (auto simp: td_in_exact_units_def bind_Some_iff us_def)
  from split_units_greedy [OF split us(3) _ us(4) td_ok_total_small [OF assms(3)]]
  have g: "greedy units (id_exact t) us ?n r" "\<forall>u. u \<notin> set us \<longrightarrow> id_exact t u = 0"
    "\<forall>u. \<not> (u \<in> set us \<and> eus_contains units u) \<longrightarrow> exact_field_unset t u"
    "id_years t = DeltaField i32_sentinel" "id_months t = DeltaField i32_sentinel"
    by (simp_all add: id_unset_fields unset_exact)
  have main: "greedy units (id_exact res) clock_units ?n (if eus_contains units ENanoseconds then 0 else r)
      \<and> (\<forall>u. u \<noteq> ENanoseconds \<longrightarrow> id_exact res u = id_exact t u)
      \<and> (\<forall>u. \<not> eus_contains units u \<longrightarrow> exact_field_unset res u)
      \<and> id_years res = id_years t \<and> id_months res = id_months t"
  proof (cases "eus_contains units ENanoseconds")
    case True
    with res have r: "res = t\<lparr>id_nanos := DeltaField r\<rparr>" by (auto simp: bind_Some_iff)
    moreover from this have "r \<noteq> i32_sentinel" using assms(5) True by (simp add: df_is_set_def)
    ultimately have f: "id_exact res u = (if u = ENanoseconds then r else id_exact t u)"
      and f': "u \<noteq> ENanoseconds \<Longrightarrow> exact_field_unset res u = exact_field_unset t u" for u
      by (cases u; simp add: id_exact_def exact_field_unset_def df_get_or_simps)+
    have "greedy units (id_exact res) us ?n r = greedy units (id_exact t) us ?n r"
      by (rule greedy_cong) (use f us(2) in auto)
    then have "greedy units (id_exact res) clock_units ?n 0"
      unfolding us(1) greedy_append using True g(1) by (intro exI [of _ r]) (simp add: f Let_def)
    moreover have "exact_field_unset res u" if "\<not> eus_contains units u" for u
      using f' [of u] g(3) that True by auto
    ultimately show ?thesis using True r f by simp
  next
    case False
    with res have r: "res = t" by simp
    have "greedy units (id_exact res) clock_units ?n r"
      unfolding us(1) greedy_append using g(1,2) us(2) False by (intro exI [of _ r]) (simp add: r Let_def)
    then show ?thesis using False r g(3) by simp
  qed
  show ?thesis
    by (rule that [of "if eus_contains units ENanoseconds then 0 else r"]) (use main g(4,5) in auto)
qed

text \<open>C29. \<open>TimeDelta::in_exact_units\<close> splits the rounded duration greedily: in every clock unit asked for,
  what the fields down to it leave of the duration is smaller than the unit and has the sign of the
  duration, every field has that sign too, and the fields that were not asked for, the years and
  the months are unset. With nanoseconds among the units nothing is left: the fields add up
  to the duration. The field of the nanoseconds has to be set (its value can be the sentinel).\<close>

theorem exact_units_spec:
  assumes "di_from_nanos (exact_unit_in_nanos (eus_smallest units) * dinc_get inc) = Some i"
    and "td_round d i m = Some rounded" and "td_ok rounded"
    and "td_in_exact_units d units inc m = Some res"
    and "eus_contains units ENanoseconds \<Longrightarrow> df_is_set i32_sentinel (id_nanos res)"
  shows "(\<forall>us u vs. clock_units = us @ u # vs \<and> eus_contains units u \<longrightarrow>
        \<bar>td_total_nanos rounded - nanos_in res (us @ [u])\<bar> < exact_unit_in_nanos u
        \<and> has_sign (td_total_nanos rounded) (td_total_nanos rounded - nanos_in res (us @ [u])))
    \<and> (\<forall>u. has_sign (td_total_nanos rounded) (id_exact res u))
    \<and> (\<forall>u. \<not> eus_contains units u \<longrightarrow> exact_field_unset res u)
    \<and> id_years res = DeltaField i32_sentinel \<and> id_months res = DeltaField i32_sentinel
    \<and> (eus_contains units ENanoseconds \<longrightarrow> nanos_in res clock_units = td_total_nanos rounded)"
proof -
  obtain r where g: "greedy units (id_exact res) clock_units (td_total_nanos rounded) r"
    and r: "eus_contains units ENanoseconds \<Longrightarrow> r = 0"
    and unset: "\<And>u. \<not> eus_contains units u \<Longrightarrow> exact_field_unset res u"
      "id_years res = DeltaField i32_sentinel" "id_months res = DeltaField i32_sentinel"
    using in_exact_units_greedy [OF assms] by blast
  have "has_sign (td_total_nanos rounded) (id_exact res u)" for u
  proof (cases "u \<in> set clock_units")
    case False
    then have "id_exact res u = 0" by (cases u) (simp_all add: clock_units_def id_exact_def)
    then show ?thesis by simp
  qed (use greedy_sign [OF g] in blast)
  moreover have "nanos_in res clock_units + r = td_total_nanos rounded" by (rule greedy_sum [OF g])
  ultimately show ?thesis using r unset greedy_prefix g by (metis add.right_neutral)
qed

theorem exact_units_spec_witness:
  "\<exists>res. td_in_exact_units \<lparr>td_secs = DeltaSeconds (-3603), td_subsec = SubSecNanos 999999000\<rparr>
        (eus_insert (eus_insert 0 EHours) ENanoseconds) (DifferenceIncrement 1) AbsTrunc = Some res
    \<and> nanos_in res clock_units = -3602000001000 \<and> id_exact res EHours \<le> 0
    \<and> \<bar>-3602000001000 - nanos_in res [EWeeks, EDays, EHours]\<bar> < ns_per_hour"
proof -
  let ?d = "\<lparr>td_secs = DeltaSeconds (-3603), td_subsec = SubSecNanos 999999000\<rparr>"
  let ?u = "eus_insert (eus_insert 0 EHours) ENanoseconds"
  let ?i = "\<lparr>di_secs = 0, di_subsec = SubSecNanos 1\<rparr>"
  have "case td_in_exact_units ?d ?u (DifferenceIncrement 1) AbsTrunc of
      None \<Rightarrow> False | Some res \<Rightarrow> df_is_set i32_sentinel (id_nanos res)" by code_simp
  then obtain res where res: "td_in_exact_units ?d ?u (DifferenceIncrement 1) AbsTrunc = Some res"
    and set: "df_is_set i32_sentinel (id_nanos res)" by (auto split: option.splits)
  have "di_from_nanos (exact_unit_in_nanos (eus_smallest ?u) * dinc_get (DifferenceIncrement 1)) = Some ?i"
    "td_round ?d ?i AbsTrunc = Some ?d" "td_ok ?d" by code_simp+
  note main = exact_units_spec [OF this res set]
  have u: "eus_contains ?u ENanoseconds" "eus_contains ?u EHours" "td_total_nanos ?d = -3602000001000" by code_simp+
  have "clock_units = [EWeeks, EDays] @ EHours # [EMinutes, ESeconds, ENanoseconds]" by (simp add: clock_units_def)
  with main u(2) have "\<bar>td_total_nanos ?d - nanos_in res ([EWeeks, EDays] @ [EHours])\<bar> < exact_unit_in_nanos EHours" by blast
  moreover have "has_sign (td_total_nanos ?d) (id_exact res EHours)" "nanos_in res clock_units = td_total_nanos ?d"
    using main u(1) by blast+
  ultimately show ?thesis using res unfolding u(3) by (intro exI [of _ res]) (simp add: has_sign_def)
qed

text \<open>The exception is real: minus 2147483648 nanoseconds are stored as the sentinel, so that the
  field comes out unset and the duration as zero.\<close>

lemma exact_nanos_sentinel:
  "map_option (\<lambda>r. nanos_in r clock_units) (td_in_exact_units \<lparr>td_secs = DeltaSeconds (-3), td_subsec = SubSecNanos 852516352\<rparr>
      (eus_insert 0 ENanoseconds) (DifferenceIncrement 1) AbsTrunc) = Some 0"
  "td_total_nanos \<lparr>td_secs = DeltaSeconds (-3), td_subsec = SubSecNanos 852516352\<rparr> = -2147483648"
  by code_simp+

end
