(* ===== verification/Zoned.thy ===== *)
theory Zoned
  imports Tzif Difference
begin

section \<open>Date-times in a time zone (\<open>src/src/domain/zoned_datetime.rs\<close>)\<close>

text \<open>
  A \<open>ZonedDateTime\<close> is a date, a time and the offset that its time zone has then. Resolving
  a local time in a zone, replacing the date, rounding to days and the difference of two such
  date-times are here. The zone's lookup may panic, so these results are of type \<open>run\<close>.
\<close>

record zoned_datetime =
  zdt_date :: date
  zdt_time :: time
  zdt_offset :: offset
  zdt_tz :: time_zone

text \<open>\<open>?\<close> on an optional result of a computation that may panic.\<close>

definition run_try :: "'a option run \<Rightarrow> ('a \<Rightarrow> 'b option run) \<Rightarrow> 'b option run" where
  "run_try m f = run_bind m (\<lambda>r. case r of None \<Rightarrow> Done None | Some x \<Rightarrow> f x)"

text \<open>Equal pointers have equal contents, so \<open>same_tz\<close> compares the contents.\<close>

definition zdt_same_tz :: "zoned_datetime \<Rightarrow> zoned_datetime \<Rightarrow> bool" where
  "zdt_same_tz z other \<longleftrightarrow> zdt_tz z = zdt_tz other"

definition zdt_eq :: "zoned_datetime \<Rightarrow> zoned_datetime \<Rightarrow> bool" where
  "zdt_eq z other \<longleftrightarrow> zdt_date z = zdt_date other \<and> zdt_time z = zdt_time other
     \<and> zdt_offset z = zdt_offset other \<and> zdt_same_tz z other"

definition zdt_to_plain :: "zoned_datetime \<Rightarrow> plain_datetime" where
  "zdt_to_plain z = \<lparr>pdt_date = zdt_date z, pdt_time = zdt_time z\<rparr>"

text \<open>The source unwraps the shift, which \<open>zdt_ok\<close> makes defined: its fields are those of a valid
  offset date-time (\<open>odt_instant_defined\<close>).\<close>

definition zdt_to_instant :: "zoned_datetime \<Rightarrow> instant" where
  "zdt_to_instant z =
     the (instant_shift_by_offset (pdt_assume_utc (zdt_to_plain z)) (offset_neg (zdt_offset z)))"

definition zdt_to_fixed_offset :: "zoned_datetime \<Rightarrow> offset_datetime" where
  "zdt_to_fixed_offset z = pdt_assume_offset_unchecked (zdt_to_plain z) (zdt_offset z)"

subsection \<open>Resolving local times in a zone\<close>

definition pdt_resolve_in :: "plain_datetime \<Rightarrow> time_zone \<Rightarrow> resolve_policy
    \<Rightarrow> (resolve_error + offset_datetime) run" where
  "pdt_resolve_in p tz policy =
     run_bind (zone_mapping_for_local tz (pdt_local_seconds p)) (\<lambda>m. Done (lm_resolve m p policy))"

definition ok_result :: "'e + 'a \<Rightarrow> 'a option" where
  "ok_result r = (case r of Inl _ \<Rightarrow> None | Inr x \<Rightarrow> Some x)"

definition pdt_resolve_compatible :: "plain_datetime \<Rightarrow> time_zone \<Rightarrow> offset_datetime option run" where
  "pdt_resolve_compatible p tz =
     run_bind (pdt_resolve_in p tz (Disambiguate Compatible)) (\<lambda>r. Done (ok_result r))"

definition pdt_resolve_preserving_offset :: "plain_datetime \<Rightarrow> time_zone \<Rightarrow> offset
    \<Rightarrow> offset_datetime option run" where
  "pdt_resolve_preserving_offset p tz x =
     run_bind (pdt_resolve_in p tz (PreserveOffset x)) (\<lambda>r. Done (ok_result r))"

definition odt_with_date_in_tz :: "offset_datetime \<Rightarrow> date \<Rightarrow> time_zone \<Rightarrow> offset_datetime option run" where
  "odt_with_date_in_tz o1 d tz =
     pdt_resolve_preserving_offset \<lparr>pdt_date = d, pdt_time = odt_time o1\<rparr> tz (odt_offset o1)"

definition odt_into_zoned_unchecked :: "offset_datetime \<Rightarrow> time_zone \<Rightarrow> zoned_datetime" where
  "odt_into_zoned_unchecked o1 tz =
     \<lparr>zdt_date = odt_date o1, zdt_time = odt_time o1, zdt_offset = odt_offset o1, zdt_tz = tz\<rparr>"

definition zdt_with_date :: "zoned_datetime \<Rightarrow> date \<Rightarrow> offset_datetime option run" where
  "zdt_with_date z d = odt_with_date_in_tz (zdt_to_fixed_offset z) d (zdt_tz z)"

definition instant_to_offset_in :: "instant \<Rightarrow> time_zone \<Rightarrow> offset_datetime option run" where
  "instant_to_offset_in i tz =
     run_bind (zone_offset_for_instant tz (i_epoch i)) (\<lambda>x. Done (
       do { e \<leftarrow> epoch_shift_by_offset (i_epoch i) x;
            Some (pdt_assume_offset_unchecked (epoch_datetime e (i_subsec i)) x) }))"

definition instant_in_timezone :: "instant \<Rightarrow> time_zone \<Rightarrow> zoned_datetime option run" where
  "instant_in_timezone i tz =
     run_bind (instant_to_offset_in i tz) (\<lambda>r.
       Done (map_option (\<lambda>dt. odt_into_zoned_unchecked dt tz) r))"

subsection \<open>Rounding to days\<close>

definition zdt_day_floor :: "zoned_datetime \<Rightarrow> offset_datetime option run" where
  "zdt_day_floor z = pdt_resolve_compatible (date_at (zdt_date z) time_min) (zdt_tz z)"

definition zdt_day_ceil :: "zoned_datetime \<Rightarrow> offset_datetime option run" where
  "zdt_day_ceil z =
     run_try (Done (date_tomorrow (zdt_date z))) (\<lambda>d.
       pdt_resolve_compatible (date_at d time_min) (zdt_tz z))"

text \<open>The other modes are handled before the threshold is computed.\<close>

fun day_round_threshold :: "mode \<Rightarrow> int \<Rightarrow> int \<Rightarrow> int" where
  "day_round_threshold HalfEven day_ns time_ns =
     day_ns div 2 + (if time_ns mod 2 = 0 then 1 else 0)"
| "day_round_threshold HalfFloor day_ns time_ns = day_ns div 2 + 1"
| "day_round_threshold HalfTrunc day_ns time_ns = day_ns div 2 + 1"
| "day_round_threshold _ day_ns time_ns = day_ns div 2"

definition zdt_round_day :: "zoned_datetime \<Rightarrow> mode \<Rightarrow> offset_datetime option run" where
  "zdt_round_day z m =
     (if m = Ceil \<or> m = Expand then
        (if zdt_time z = time_min then Done (Some (zdt_to_fixed_offset z)) else zdt_day_ceil z)
      else if m = Floor \<or> m = Trunc then zdt_day_floor z
      else run_try (zdt_day_floor z) (\<lambda>floor'.
           run_try (zdt_day_ceil z) (\<lambda>ceil'.
             let time_ns = time_total_nanos (zdt_time z);
                 day_ns = as_u64 (td_total_nanos (instant_diff (odt_to_instant ceil') (odt_to_instant floor')))
             in Done (Some (if time_ns \<ge> day_round_threshold m day_ns time_ns then ceil' else floor')))))"

subsection \<open>Text\<close>

datatype offset_in_iso_string = SomeOffset offset | ZOffset | MissingOffset

definition read_offset_and_tzname :: "(offset_in_iso_string \<times> bytes) scanner" where
  "read_offset_and_tzname s =
     scan_bind
       (if scan_peek s = Some (CHR ''['') then scan_return MissingOffset
        else if scan_peek s = Some (CHR ''Z'') \<or> scan_peek s = Some (CHR ''z'')
        then (\<lambda>s. (Some ZOffset, drop 1 s))
        else scan_bind offset_read_iso (\<lambda>x. scan_return (SomeOffset x)))
       (\<lambda>x tz.
          (if length tz > 2 \<and> tz ! 0 = CHR ''['' \<and> position (\<lambda>c. c = CHR '']'') tz = Some (length tz - 1)
              \<and> is_ascii tz \<and> is_valid_key (slice tz 1 (length tz - 1))
           then Some (x, slice tz 1 (length tz - 1)) else None, tz)) s"

definition tz_format_len :: "time_zone \<Rightarrow> nat" where
  "tz_format_len tz = (case zone_key tz of None \<Rightarrow> 0 | Some key \<Rightarrow> length key + 2)"

definition tz_format_write :: "time_zone \<Rightarrow> bytes" where
  "tz_format_write tz = (case zone_key tz of None \<Rightarrow> [] | Some key \<Rightarrow> ''['' @ key @ '']'')"

subsection \<open>Differences\<close>

text \<open>
  The two loops of \<open>zoned_target\<close>. A loop that does not return is \<open>None\<close>;
  \<open>zoned_target_returns\<close> in \<open>Zoned_Facts\<close> shows that it returns on every valid date.
\<close>

partial_function (option) target_back :: "instant \<Rightarrow> zoned_datetime \<Rightarrow> date \<Rightarrow> date option run option" where
  "target_back a_inst b target_date =
     (case zdt_with_date b target_date of
        Panic \<Rightarrow> Some Panic
      | Done r \<Rightarrow>
          (case r of
             None \<Rightarrow> Some (Done None)
           | Some dt \<Rightarrow>
               if odt_to_instant dt > a_inst then
                 (case date_yesterday target_date of
                    None \<Rightarrow> Some (Done None)
                  | Some d \<Rightarrow> target_back a_inst b d)
               else Some (Done (Some target_date))))"

partial_function (option) target_forward :: "instant \<Rightarrow> zoned_datetime \<Rightarrow> date \<Rightarrow> date option run option" where
  "target_forward a_inst b target_date =
     (case zdt_with_date b target_date of
        Panic \<Rightarrow> Some Panic
      | Done r \<Rightarrow>
          (case r of
             None \<Rightarrow> Some (Done None)
           | Some dt \<Rightarrow>
               if odt_to_instant dt < a_inst then
                 (case date_tomorrow target_date of
                    None \<Rightarrow> Some (Done None)
                  | Some d \<Rightarrow> target_forward a_inst b d)
               else Some (Done (Some target_date))))"

definition zoned_target :: "date \<Rightarrow> instant \<Rightarrow> zoned_datetime \<Rightarrow> bool \<Rightarrow> date option run option" where
  "zoned_target target_date a_inst b negative =
     (if \<not> negative then target_back a_inst b target_date else target_forward a_inst b target_date)"

definition zoned_since_in_units :: "offset_datetime \<Rightarrow> instant \<Rightarrow> zoned_datetime \<Rightarrow> date \<Rightarrow> unit_mask
    \<Rightarrow> mode \<Rightarrow> difference_increment \<Rightarrow> bool \<Rightarrow> itemized_delta option run" where
  "zoned_since_in_units a a_inst b target_date units round_mode round_increment negative =
     (let (calendar_units, exact_units) = dus_split_calendar_exact units
      in run_try (Done (
           if um_is_empty calendar_units then Some (idd_unset, im_of_date (zdt_date b), im_of_date (odt_date a))
           else do { inc \<leftarrow> (if um_is_empty exact_units then dinc_to_calendar round_increment else Some ci_min);
                     date_diff target_date (zdt_date b) inc calendar_units negative }))
         (\<lambda>(ddelta, trunc_date, expand_date).
         run_try (zdt_with_date b (im_resolve trunc_date)) (\<lambda>trunc_dt.
         run_try (zdt_with_date b (im_resolve expand_date)) (\<lambda>expand_dt.
           let trunc = odt_to_instant trunc_dt;
               expand = odt_to_instant expand_dt
           in Done (
             if um_is_empty exact_units then
               do { inc \<leftarrow> dinc_to_calendar round_increment;
                    let ddelta' = idd_round_by_time ddelta (cus_smallest calendar_units) a_inst trunc expand
                          (mode_to_abs_trunc round_mode negative) inc negative
                    in Some (id_fill_calendar_units id_unset ddelta') }
             else
               do { result \<leftarrow> td_in_exact_units (instant_diff a_inst trunc) exact_units round_increment
                      (mode_to_abs_euclid round_mode negative);
                    Some (id_fill_calendar_units result ddelta) })))))"

end
