(* ===== verification/Zoned_Facts.thy ===== *)
theory Zoned_Facts
  imports Zoned Tzif_Facts Calendar_Facts
begin

section \<open>Facts on date-times in a time zone\<close>

text \<open>
  Four facts: the search of \<open>zoned_target\<close> returns and finds the nearest date that does not
  overshoot; an instant put into a zone is read back, and its local time resolves in the zone to
  the same date-time; and rounding to days follows the rounding modes with the length that the
  day really has.
\<close>

subsection \<open>The search for a date that does not overshoot\<close>

text \<open>The instant that \<open>b\<close> has on another date, where the zone resolves it.\<close>

definition instant_on :: "zoned_datetime \<Rightarrow> date \<Rightarrow> instant \<Rightarrow> bool" where
  "instant_on b d i \<longleftrightarrow> (\<exists>dt. zdt_with_date b d = Done (Some dt) \<and> odt_to_instant dt = i)"

lemma target_back_returns:
  assumes "date_ok d"
  shows "\<exists>r. target_back a b d = Some r \<and> (\<forall>t. r = Done (Some t) \<longrightarrow> date_ok t \<and> t \<le> d
    \<and> (\<exists>i. instant_on b t i \<and> i \<le> a)
    \<and> (\<forall>e. date_ok e \<longrightarrow> t < e \<longrightarrow> e \<le> d \<longrightarrow> (\<exists>i. instant_on b e i \<and> a < i)))"
  using assms
proof (induction "nat (day_number d - unix_days_min)" arbitrary: d rule: less_induct)
  case less
  have order: "e \<le> d' \<longleftrightarrow> day_number e \<le> day_number d'" if "date_ok e" "date_ok d'" for e d'
    using date_unix_days_le [OF that] by simp
  show ?case
  proof (cases "\<exists>dt d'. zdt_with_date b d = Done (Some dt) \<and> odt_to_instant dt > a \<and> date_yesterday d = Some d'")
    case False
    then show ?thesis
      using less.prems
      by (subst target_back.simps) (force simp: instant_on_def not_less split: run.split option.split)
  next
    case True
    then obtain dt d' where dt: "zdt_with_date b d = Done (Some dt)" "odt_to_instant dt > a"
      and d': "date_yesterday d = Some d'" by blast
    have y: "date_ok d'" "day_number d' = day_number d - 1" using date_yesterday_sound [OF less.prems d'] by simp_all
    have "nat (day_number d' - unix_days_min) < nat (day_number d - unix_days_min)"
      using dates.num_bounds [OF y(1)] y(2) by simp
    from less.hyps [OF this y(1)] obtain r where r: "target_back a b d' = Some r"
      and post: "\<forall>t. r = Done (Some t) \<longrightarrow> date_ok t \<and> t \<le> d' \<and> (\<exists>i. instant_on b t i \<and> i \<le> a)
        \<and> (\<forall>e. date_ok e \<longrightarrow> t < e \<longrightarrow> e \<le> d' \<longrightarrow> (\<exists>i. instant_on b e i \<and> a < i))" by blast
    have "target_back a b d = Some r" using dt d' r by (subst target_back.simps) simp
    moreover have le: "e \<le> d'" if "date_ok e" "e \<le> d" "e \<noteq> d" for e
      using that y order less.prems dates.num_inject [OF that(1) less.prems] by fastforce
    moreover have "\<exists>i. instant_on b d i \<and> a < i" using dt by (auto simp: instant_on_def)
    moreover have "d' \<le> d" using y order less.prems by simp
    ultimately show ?thesis using post by (metis order_trans)
  qed
qed

lemma target_forward_returns:
  assumes "date_ok d"
  shows "\<exists>r. target_forward a b d = Some r \<and> (\<forall>t. r = Done (Some t) \<longrightarrow> date_ok t \<and> d \<le> t
    \<and> (\<exists>i. instant_on b t i \<and> a \<le> i)
    \<and> (\<forall>e. date_ok e \<longrightarrow> d \<le> e \<longrightarrow> e < t \<longrightarrow> (\<exists>i. instant_on b e i \<and> i < a)))"
  using assms
proof (induction "nat (unix_days_max - day_number d)" arbitrary: d rule: less_induct)
  case less
  have order: "e \<le> d' \<longleftrightarrow> day_number e \<le> day_number d'" if "date_ok e" "date_ok d'" for e d'
    using date_unix_days_le [OF that] by simp
  show ?case
  proof (cases "\<exists>dt d'. zdt_with_date b d = Done (Some dt) \<and> odt_to_instant dt < a \<and> date_tomorrow d = Some d'")
    case False
    then show ?thesis
      using less.prems
      by (subst target_forward.simps) (force simp: instant_on_def not_less split: run.split option.split)
  next
    case True
    then obtain dt d' where dt: "zdt_with_date b d = Done (Some dt)" "odt_to_instant dt < a"
      and d': "date_tomorrow d = Some d'" by blast
    have y: "date_ok d'" "day_number d' = day_number d + 1" using date_tomorrow_sound [OF less.prems d'] by simp_all
    have "nat (unix_days_max - day_number d') < nat (unix_days_max - day_number d)"
      using dates.num_bounds [OF y(1)] y(2) by simp
    from less.hyps [OF this y(1)] obtain r where r: "target_forward a b d' = Some r"
      and post: "\<forall>t. r = Done (Some t) \<longrightarrow> date_ok t \<and> d' \<le> t \<and> (\<exists>i. instant_on b t i \<and> a \<le> i)
        \<and> (\<forall>e. date_ok e \<longrightarrow> d' \<le> e \<longrightarrow> e < t \<longrightarrow> (\<exists>i. instant_on b e i \<and> i < a))" by blast
    have "target_forward a b d = Some r" using dt d' r by (subst target_forward.simps) simp
    moreover have le: "d' \<le> e" if "date_ok e" "d \<le> e" "e \<noteq> d" for e
      using that y order less.prems dates.num_inject [OF that(1) less.prems] by fastforce
    moreover have "\<exists>i. instant_on b d i \<and> i < a" using dt by (auto simp: instant_on_def)
    moreover have "d \<le> d'" using y order less.prems by simp
    ultimately show ?thesis using post by (metis order_trans)
  qed
qed

text \<open>C30. The loop of \<open>zoned_target\<close> returns on every valid date, in both directions and for
  every zone. A date that it returns does not overshoot the instant \<open>a_inst\<close>, and it is
  the nearest such: every date passed on the way does overshoot.\<close>

theorem zoned_target_returns:
  assumes "date_ok d"
  shows "\<exists>r. zoned_target d a b negative = Some r \<and> (\<forall>t. r = Done (Some t) \<longrightarrow> date_ok t
    \<and> (if negative
       then d \<le> t \<and> (\<exists>i. instant_on b t i \<and> a \<le> i)
         \<and> (\<forall>e. date_ok e \<and> d \<le> e \<and> e < t \<longrightarrow> (\<exists>i. instant_on b e i \<and> i < a))
       else t \<le> d \<and> (\<exists>i. instant_on b t i \<and> i \<le> a)
         \<and> (\<forall>e. date_ok e \<and> t < e \<and> e \<le> d \<longrightarrow> (\<exists>i. instant_on b e i \<and> a < i))))"
  using target_back_returns [OF assms, of a b] target_forward_returns [OF assms, of a b]
  by (cases negative) (simp_all add: zoned_target_def, blast+)

theorem zoned_target_returns_witness:
  "\<exists>r. zoned_target \<lparr>d_year = Year 2024, d_month = March, d_day = 31\<rparr> \<lparr>i_epoch = EpochSecs 1711800000, i_subsec = SubSecNanos 0\<rparr>
      \<lparr>zdt_date = \<lparr>d_year = Year 2024, d_month = March, d_day = 1\<rparr>, zdt_time = time_min, zdt_offset = Offset 3600,
       zdt_tz = zone_v2\<rparr> True = Some r
    \<and> r = Done (Some \<lparr>d_year = Year 2024, d_month = March, d_day = 31\<rparr>)"
  (is "\<exists>r. zoned_target ?d ?a ?b True = Some r \<and> r = ?r")
proof -
  have "date_ok ?d" by code_simp
  from zoned_target_returns [OF this] obtain r where "zoned_target ?d ?a ?b True = Some r" by blast
  moreover have "zoned_target ?d ?a ?b True = Some ?r"
    unfolding zoned_target_def by (subst target_forward.simps) code_simp
  ultimately show ?thesis by simp
qed

subsection \<open>Instants in a zone\<close>

lemma tz_offset_ok: "tz_ok tz \<Longrightarrow> offset_ok (tz_offset_for_instant tz t)"
  by (auto simp: tz_offset_for_instant_def tz_is_dst_at_def tz_utc_transitions_def tz_ok_def dst_ok_def
    split: option.splits bind_splits)

lemma zone_offset_ok:
  assumes "zone_ok z" and "zone_offset_for_instant z t = Done x"
  shows "offset_ok x"
  using assms
  by (auto simp: zone_ok_def zone_offset_for_instant_def run_bind_Done run_index_def
      split: option.splits if_splits intro!: tz_offset_ok) (fastforce dest: nth_mem last_in_set)+

text \<open>A zoned date-time that the program can hold.\<close>

definition zdt_ok :: "zoned_datetime \<Rightarrow> bool" where
  "zdt_ok z \<longleftrightarrow> odt_ok (zdt_to_fixed_offset z) \<and> zone_ok (zdt_tz z)"

lemma offset_assumed [simp]: "odt_to_plain (pdt_assume_offset_unchecked p x) = p"
  by (simp add: pdt_assume_offset_unchecked_def odt_to_plain_def)

lemma to_fixed_offset_plain [simp]: "odt_to_plain (zdt_to_fixed_offset z) = zdt_to_plain z"
  by (simp add: zdt_to_fixed_offset_def)

lemma zoned_of_instant:
  assumes "zone_ok tz" and "instant_ok i" and "zone_offset_for_instant tz (i_epoch i) = Done x"
  shows "case instant_in_timezone i tz of
      Panic \<Rightarrow> False
    | Done None \<Rightarrow> instant_timestamp_nanos i + offset_nanos x < ts_min \<or> ts_max < instant_timestamp_nanos i + offset_nanos x
    | Done (Some z) \<Rightarrow> zdt_ok z \<and> zdt_tz z = tz \<and> zdt_offset z = x \<and> zdt_to_instant z = i
        \<and> local_nanos (zdt_to_plain z) = instant_timestamp_nanos i + offset_nanos x"
proof (cases "epoch_shift_by_offset (i_epoch i) x")
  case None
  then have "epoch_get (i_epoch i) + offset_get x < -62135596800 \<or> 253402300799 < epoch_get (i_epoch i) + offset_get x"
    by (auto simp: epoch_shift_by_offset_def epoch_new_def epoch_bounds split: if_splits)
  then have "instant_timestamp_nanos i + offset_nanos x < ts_min \<or> ts_max < instant_timestamp_nanos i + offset_nanos x"
    using assms(2) by (auto simp: instant_ok_def subsec_ok_iff instant_timestamp_nanos_def algebra_simps)
  with None assms(3) show ?thesis
    by (simp add: instant_in_timezone_def instant_to_offset_in_def)
next
  case (Some e)
  let ?i = "\<lparr>i_epoch = e, i_subsec = i_subsec i\<rparr>"
  have e: "epoch_ok e" "epoch_get e = epoch_get (i_epoch i) + offset_get x"
    using Some by (auto simp: epoch_shift_by_offset_def epoch_nt.new_Some_iff)
  have iok: "instant_ok ?i" using assms(2) e(1) by (simp add: instant_ok_def)
  define p where "p = instant_to_utc_plain ?i"
  have p: "pdt_ok p" "pdt_assume_utc p = ?i" using to_utc_plain [OF iok] by (simp_all add: p_def)
  note x = zone_offset_ok [OF assms(1,3)]
  have undo: "epoch_shift_by_offset e (offset_neg x) = Some (i_epoch i)"
    using assms(2) e by (auto simp: epoch_shift_by_offset_def offset_neg_def epoch_nt.new_Some_iff instant_ok_def)
  have ls: "ls_to_epoch (pdt_local_seconds p) x = Some (i_epoch i)"
    using p(2) undo by (simp add: ls_to_epoch_def pdt_assume_utc_def ls_assume_utc_def)
  define z where "z = odt_into_zoned_unchecked (pdt_assume_offset_unchecked p x) tz"
  have z: "zdt_to_plain z = p" "zdt_offset z = x" "zdt_tz z = tz" "zdt_to_fixed_offset z = pdt_assume_offset_unchecked p x"
    by (simp_all add: z_def odt_into_zoned_unchecked_def zdt_to_plain_def pdt_assume_offset_unchecked_def zdt_to_fixed_offset_def)
  have "instant_in_timezone i tz = Done (Some z)"
    using Some assms(3)
    by (simp add: instant_in_timezone_def instant_to_offset_in_def z_def p_def instant_to_utc_plain_def)
  moreover have "zdt_ok z"
    using p(1) x assms(1) ls
    by (simp add: zdt_ok_def z odt_ok_def pdt_ok_def) (simp add: pdt_assume_offset_unchecked_def)
  moreover have "zdt_to_instant z = i"
    using undo by (simp add: zdt_to_instant_def z p(2) instant_shift_by_offset_def)
  moreover have "local_nanos p = instant_timestamp_nanos i + offset_nanos x"
    by (simp add: p(2) instant_timestamp_nanos_def e(2) algebra_simps)
  ultimately show ?thesis using z by simp
qed

text \<open>C31. Putting a valid instant into a well-formed zone never panics: the zone has an offset at
  the instant, and with it the call fails exactly when the local time would be out of range.
  Otherwise the zoned date-time is valid, carries the zone and that offset, shows the local time of
  that offset, and its own \<open>to_instant\<close> returns the instant.\<close>

theorem instant_in_timezone_spec:
  assumes "zone_ok tz" and "instant_ok i"
  shows "\<exists>x. zone_offset_for_instant tz (i_epoch i) = Done x \<and> (case instant_in_timezone i tz of
      Panic \<Rightarrow> False
    | Done None \<Rightarrow> instant_timestamp_nanos i + offset_nanos x < ts_min \<or> ts_max < instant_timestamp_nanos i + offset_nanos x
    | Done (Some z) \<Rightarrow> zdt_ok z \<and> zdt_tz z = tz \<and> zdt_offset z = x \<and> zdt_to_instant z = i
        \<and> local_nanos (zdt_to_plain z) = instant_timestamp_nanos i + offset_nanos x)"
  using zone_offset_total [OF assms(1)] zoned_of_instant [OF assms] by blast

theorem instant_in_timezone_spec_witness:
  "\<exists>z. instant_in_timezone \<lparr>i_epoch = EpochSecs 1720000000, i_subsec = SubSecNanos 5\<rparr> zone_v2 = Done (Some z)
    \<and> zdt_ok z \<and> zdt_tz z = zone_v2
    \<and> zdt_to_instant z = \<lparr>i_epoch = EpochSecs 1720000000, i_subsec = SubSecNanos 5\<rparr>"
proof -
  let ?i = "\<lparr>i_epoch = EpochSecs 1720000000, i_subsec = SubSecNanos 5\<rparr>"
  have i: "instant_ok ?i" by code_simp
  have "case instant_in_timezone ?i zone_v2 of Done (Some z) \<Rightarrow> True | _ \<Rightarrow> False" by code_simp
  with instant_in_timezone_spec [OF zone_v2_ok i] show ?thesis
    by (auto split: run.splits option.splits)
qed

lemma resolve_keeps_offset:
  assumes "x \<in> mapping_offsets m" and "pdt_assume_offset p x = Some y"
  shows "lm_resolve m p (PreserveOffset x) = Inr y"
  using assms by (cases m) (auto simp: or_out_of_range_def)

lemma offset_in_own_mapping:
  assumes "zone_ok tz" and "zone_spaced tz" and "instant_ok i" and "instant_in_timezone i tz = Done (Some z)"
    and "covered tz (i_epoch i) (pdt_local_seconds (zdt_to_plain z))"
  shows "zdt_ok z \<and> zdt_tz z = tz \<and> pdt_assume_offset (zdt_to_plain z) (zdt_offset z) = Some (zdt_to_fixed_offset z)
    \<and> (\<exists>m. zone_mapping_for_local tz (pdt_local_seconds (zdt_to_plain z)) = Done m \<and> zdt_offset z \<in> mapping_offsets m)"
proof -
  obtain m x where m: "zone_mapping_for_local tz (pdt_local_seconds (zdt_to_plain z)) = Done m"
    and x: "zone_offset_for_instant tz (i_epoch i) = Done x"
    and inv: "epoch_get (i_epoch i) + offset_get x = ls_get (pdt_local_seconds (zdt_to_plain z))
       \<longleftrightarrow> (\<exists>o' \<in> mapping_offsets m. epoch_get (i_epoch i) + offset_get o' = ls_get (pdt_local_seconds (zdt_to_plain z)))"
    using zone_mapping_covered [OF assms(1,2,5)] by blast
  have z: "zdt_ok z" "zdt_tz z = tz" "zdt_offset z = x" "zdt_to_instant z = i"
    and nanos: "local_nanos (zdt_to_plain z) = instant_timestamp_nanos i + offset_nanos x"
    using zoned_of_instant [OF assms(1,3) x] assms(4) by auto
  have odt: "odt_ok (zdt_to_fixed_offset z)" using z(1) by (simp add: zdt_ok_def)
  have p: "pdt_ok (zdt_to_plain z)"
    using odt_plain_ok [OF odt] by simp
  have local: "ls_get (pdt_local_seconds (zdt_to_plain z)) = epoch_get (i_epoch i) + offset_get x"
    using nanos assms(3) assume_utc_ok [OF p]
    by (auto simp: instant_timestamp_nanos_def instant_ok_def subsec_ok_iff ls_get_def pdt_assume_utc_def ls_assume_utc_def)
  have "x \<in> mapping_offsets m" using inv local by (auto dest!: offset.expand)
  moreover have "pdt_assume_offset (zdt_to_plain z) x = Some (zdt_to_fixed_offset z)"
    using odt z(3)
    by (auto simp: odt_ok_def zdt_to_fixed_offset_def pdt_assume_offset_unchecked_def odt_to_plain_def
        pdt_assume_offset_def odt_new_def date_at_def split: option.split)
  ultimately show ?thesis using z m by blast
qed

text \<open>C32. The zoned date-time of an instant resolves to itself: asking its zone for its own local
  time while preserving its offset, as \<open>replace_date\<close> and the differences do, gives the same
  date-time, so that an offset that \<open>in_timezone\<close> produced is never changed by
  \<open>with_date\<close> on its own date. The transitions of the zone must be in order and far enough
  apart, and the instant and its local time covered as in \<open>zone_mapping_inverts_offset\<close>: by the
  table, or after its last transition by a rule in a year where the rule agrees with itself.\<close>

theorem zoned_resolves_to_itself:
  assumes "zone_ok tz" and "zone_spaced tz" and "instant_ok i" and "instant_in_timezone i tz = Done (Some z)"
    and "covered tz (i_epoch i) (pdt_local_seconds (zdt_to_plain z))"
  shows "zdt_with_date z (zdt_date z) = Done (Some (zdt_to_fixed_offset z))"
proof -
  note z = offset_in_own_mapping [OF assms]
  then obtain m where m: "zone_mapping_for_local tz (pdt_local_seconds (zdt_to_plain z)) = Done m"
    and "zdt_offset z \<in> mapping_offsets m" by blast
  with z have "lm_resolve m (zdt_to_plain z) (PreserveOffset (zdt_offset z)) = Inr (zdt_to_fixed_offset z)"
    using resolve_keeps_offset by blast
  moreover have "\<lparr>pdt_date = zdt_date z, pdt_time = odt_time (zdt_to_fixed_offset z)\<rparr> = zdt_to_plain z"
    "odt_offset (zdt_to_fixed_offset z) = zdt_offset z"
    by (simp_all add: zdt_to_plain_def zdt_to_fixed_offset_def pdt_assume_offset_unchecked_def)
  ultimately show ?thesis
    using m z
    by (simp add: zdt_with_date_def odt_with_date_in_tz_def pdt_resolve_preserving_offset_def pdt_resolve_in_def
        ok_result_def)
qed

theorem zoned_resolves_to_itself_witness:
  "(\<exists>z. instant_in_timezone \<lparr>i_epoch = EpochSecs 1729989000, i_subsec = SubSecNanos 7\<rparr> zone_v2 = Done (Some z)
      \<and> zdt_with_date z (zdt_date z) = Done (Some (zdt_to_fixed_offset z)))
    \<and> (\<exists>z. instant_in_timezone \<lparr>i_epoch = EpochSecs 2224888200, i_subsec = SubSecNanos 7\<rparr> zone_v2 = Done (Some z)
      \<and> zdt_with_date z (zdt_date z) = Done (Some (zdt_to_fixed_offset z)))"
proof -
  have main: "\<exists>z. instant_in_timezone i zone_v2 = Done (Some z) \<and> zdt_with_date z (zdt_date z) = Done (Some (zdt_to_fixed_offset z))"
    if i: "instant_ok i" and cov: "case instant_in_timezone i zone_v2 of
        Done (Some z) \<Rightarrow> covered zone_v2 (i_epoch i) (pdt_local_seconds (zdt_to_plain z)) | _ \<Rightarrow> False" for i
  proof -
    obtain z where "instant_in_timezone i zone_v2 = Done (Some z)"
      "covered zone_v2 (i_epoch i) (pdt_local_seconds (zdt_to_plain z))"
      using cov by (auto split: run.splits option.splits)
    then show ?thesis using zoned_resolves_to_itself [OF zone_v2_ok zone_v2_spaced i] by blast
  qed
  show ?thesis by (intro conjI main; code_simp)
qed

subsection \<open>Rounding to days\<close>

fun mapping_parts :: "local_mapping \<Rightarrow> offset set" where
  "mapping_parts (Unique x) = {x}"
| "mapping_parts (Fold t a b) = {a, b}"
| "mapping_parts (Gap t a b) = {a, b}"

lemma tz_mapping_parts:
  assumes "tz_ok tz"
  shows "\<forall>x \<in> mapping_parts (tz_mapping_for_local tz l). offset_ok x"
proof (cases "tz_dst tz")
  case None
  then show ?thesis using assms by (simp add: tz_mapping_for_local_def tz_ok_def)
next
  case (Some d)
  have sub: "mapping_parts (transitions_mapping t1 t2 a b s l) \<subseteq> {a, b}" for t1 t2 a b s
    by (auto simp: transitions_mapping_def)
  obtain t1 t2 a b s where "tz_mapping_for_local tz l = transitions_mapping t1 t2 a b s l"
    and "a \<in> {tz_std tz, dst_offset d}" "b \<in> {tz_std tz, dst_offset d}"
    unfolding tz_mapping_for_local_def Some option.case Let_def case_prod_beta by (metis insertCI)
  with sub [of t1 t2 a b s] assms Some show ?thesis by (auto simp: tz_ok_def dst_ok_def)
qed

lemma local_entry_ok:
  assumes "(l, prev, change) \<in> set (local_loop x ts)" and "offset_ok x" and "\<forall>p \<in> set ts. offset_ok (snd p)"
  shows "offset_ok prev"
  using assms by (induction x ts rule: local_loop.induct) auto

lemma zone_mapping_parts:
  assumes "zone_ok z" and "zone_mapping_for_local z l = Done m"
  shows "\<forall>x \<in> mapping_parts m. offset_ok x"
proof -
  have prev: "offset_ok prev" if "(nx, prev, change) \<in> set (zone_local z)" for nx prev change
    using that assms(1) local_entry_ok
    by (cases "zone_utc z") (fastforce simp: zone_ok_def local_transitions_def)+
  have shift: "offset_shift x d = Some y \<Longrightarrow> offset_ok y" for x d y
    by (auto simp: offset_shift_def offset_new_def offset_ok_def bound_defs split: if_splits)
  show ?thesis
  proof (cases "bisect (zone_local z) l")
    case (Some i)
    then have i: "i < length (zone_local z)" by (rule bisect_in_range)
    obtain nx prev' change where at: "zone_local z ! i = (nx, prev', change)" by (cases "zone_local z ! i") auto
    then have "offset_ok prev'" using prev i by (metis nth_mem)
    then show ?thesis
      using assms(2) Some at shift
      by (auto simp: zone_mapping_for_local_def run_index_def run_bind_Done Let_def run_unwrap_def
          split: if_splits ordering.splits option.splits)
  next
    case None
    show ?thesis
    proof (cases "zone_end z")
      case e: None
      then show ?thesis
        using assms(2) None shift
        by (auto simp: zone_mapping_for_local_def run_bind_Done run_unwrap_def split: if_splits option.splits prod.splits)
    next
      case (Some tz)
      then show ?thesis
        using assms None tz_mapping_parts [of tz] by (auto simp: zone_mapping_for_local_def zone_ok_def)
    qed
  qed
qed

lemma ok_result_Some [simp]: "ok_result r = Some y \<longleftrightarrow> r = Inr y"
  by (cases r) (simp_all add: ok_result_def)

lemma resolved_compatible:
  assumes "zone_ok tz" and "pdt_ok p" and "pdt_resolve_compatible p tz = Done (Some y)"
  shows "odt_ok y \<and> (\<exists>x. offset_ok x \<and> instant_timestamp_nanos (odt_to_instant y) = local_nanos p - offset_nanos x)"
proof -
  obtain m where m: "zone_mapping_for_local tz (pdt_local_seconds p) = Done m"
    and y: "lm_resolve m p (Disambiguate Compatible) = Inr y"
    using assms(3)
    by (auto simp: pdt_resolve_compatible_def pdt_resolve_in_def run_bind_Done)
  note ok = zone_mapping_parts [OF assms(1) m]
  show ?thesis
  proof (cases m)
    case (Gap tr before after)
    then have "offset_ok before" "offset_ok after" using ok by simp_all
    from resolve_gap_aux [OF assms(2) this y [unfolded Gap]] this show ?thesis by auto
  qed (use y ok assms(2) in \<open>auto dest!: assume_offset_ok dest: odt_instant_defined\<close>)
qed

lemma instant_less:
  assumes "instant_ok a" and "instant_ok b"
  shows "a < b \<longleftrightarrow> instant_timestamp_nanos a < instant_timestamp_nanos b"
proof -
  have "a < b \<longleftrightarrow> epoch_get (i_epoch a) < epoch_get (i_epoch b)
      \<or> epoch_get (i_epoch a) = epoch_get (i_epoch b) \<and> subsec_get (i_subsec a) < subsec_get (i_subsec b)"
    by (auto simp: less_instant_ext_def instant_key_def less_epoch_secs_def less_eq_epoch_secs_def less_subsec_nanos_def
        intro: epoch_secs.expand subsec_nanos.expand)
  with assms show ?thesis
    by (auto simp: instant_timestamp_nanos_def instant_ok_def subsec_ok_iff)
qed

lemma half_threshold:
  assumes "4 dvd n" and "0 < n" and "0 \<le> t" and "m \<in> {HalfFloor, HalfCeil, HalfEven, HalfTrunc, HalfExpand}"
  shows "t \<ge> day_round_threshold m n t \<longleftrightarrow> \<not> rounds_to (mode_to_abs_euclid m False) n t 0"
proof -
  obtain h where n: "n = 4 * h" using assms(1) by (auto elim: dvdE)
  then have h: "n div 2 = 2 * h" "n div 2 + 1 = 2 * h + 1" by simp_all
  consider "t < 2 * h" | "t = 2 * h" | "2 * h < t" by linarith
  then show ?thesis
    using assms(2-4) by cases (auto simp: n split: if_splits)
qed

text \<open>C33. Rounding a zoned date-time to days with a \<open>Half\<close> mode takes the start of its day
  or the start of the next one, as the mode says for the time of day measured against the length
  that this day really has (23, 24 or 25 hours, say), ties included.\<close>

theorem zoned_round_day_spec:
  assumes "zdt_ok z" and "m \<in> {HalfFloor, HalfCeil, HalfEven, HalfTrunc, HalfExpand}"
    and "zdt_day_floor z = Done (Some f)" and "zdt_day_ceil z = Done (Some c)"
    and "odt_to_instant f < odt_to_instant c"
  shows "zdt_round_day z m = Done (Some
    (if rounds_to (mode_to_abs_euclid m False)
        (instant_timestamp_nanos (odt_to_instant c) - instant_timestamp_nanos (odt_to_instant f))
        (time_total_nanos (zdt_time z)) 0 then f else c))"
proof -
  define n where "n = instant_timestamp_nanos (odt_to_instant c) - instant_timestamp_nanos (odt_to_instant f)"
  have tz: "zone_ok (zdt_tz z)" and d: "date_ok (zdt_date z)" and t: "time_ok (zdt_time z)"
    using assms(1) by (simp_all add: zdt_ok_def odt_ok_def zdt_to_fixed_offset_def zdt_to_plain_def pdt_assume_offset_unchecked_def)
  obtain d' where d': "date_tomorrow (zdt_date z) = Some d'"
    and c: "pdt_resolve_compatible (date_at d' time_min) (zdt_tz z) = Done (Some c)"
    using assms(4) by (auto simp: zdt_day_ceil_def run_try_def split: option.splits)
  have y: "date_ok d'" "day_number d' = day_number (zdt_date z) + 1" using date_tomorrow_sound [OF d d'] by simp_all
  have p: "pdt_ok (date_at (zdt_date z) time_min)" "pdt_ok (date_at d' time_min)"
    using d y(1) by (simp_all add: pdt_ok_def date_at_def time_min_ok)
  have l: "local_nanos (date_at d' time_min) = local_nanos (date_at (zdt_date z) time_min) + 86400000000000"
    using y(2) time_min_ok by (simp add: local_nanos_eq date_at_def algebra_simps)
  obtain x x' where x: "offset_ok x" "instant_timestamp_nanos (odt_to_instant f) = local_nanos (date_at (zdt_date z) time_min) - offset_nanos x"
    and x': "offset_ok x'" "instant_timestamp_nanos (odt_to_instant c) = local_nanos (date_at d' time_min) - offset_nanos x'"
    and fc: "odt_ok f" "odt_ok c"
    using resolved_compatible [OF tz p(1) assms(3) [unfolded zdt_day_floor_def]] resolved_compatible [OF tz p(2) c] by blast
  have n: "n = (86400 + offset_get x - offset_get x') * 1000000000" unfolding n_def x(2) x'(2) l by simp
  have i: "instant_ok (odt_to_instant f)" "instant_ok (odt_to_instant c)" using odt_instant_defined fc by blast+
  have pos: "0 < n" using assms(5) instant_less [OF i] by (simp add: n_def)
  have small: "n < 18446744073709551616" unfolding n using x(1) x'(1) by (simp add: offset_ok_def bound_defs)
  have four: "4 dvd n" unfolding n by (simp add: dvd_mult)
  have "td_total_nanos (instant_diff (odt_to_instant c) (odt_to_instant f)) = n"
    using ts_range [OF i(1)] ts_range [OF i(2)] unfolding instant_diff_def n_def
    by (intro td_total_from_nanos) (simp_all add: delta_nanos_bounds)
  then have day: "as_u64 (td_total_nanos (instant_diff (odt_to_instant c) (odt_to_instant f))) = n"
    using pos small by simp
  have "m \<noteq> Ceil \<and> m \<noteq> Expand" "m \<noteq> Floor \<and> m \<noteq> Trunc" using assms(2) by blast+
  then have "zdt_round_day z m
      = Done (Some (if time_total_nanos (zdt_time z) \<ge> day_round_threshold m n (time_total_nanos (zdt_time z)) then c else f))"
    by (simp only: zdt_round_day_def assms(3,4) run_try_def run_bind.simps option.case Let_def day simp_thms if_False)
  moreover have "0 \<le> time_total_nanos (zdt_time z)" using times.num_bounds [OF t] by simp
  ultimately show ?thesis
    using half_threshold [OF four pos _ assms(2), of "time_total_nanos (zdt_time z)"] by (simp add: n_def [symmetric])
qed

text \<open>Half past eleven on the day of 23 hours is its middle.\<close>

theorem zoned_round_day_spec_witness:
  "zdt_round_day \<lparr>zdt_date = \<lparr>d_year = Year 2024, d_month = March, d_day = 31\<rparr>,
      zdt_time = time_from_sec_subsec 41400 (SubSecNanos 0), zdt_offset = Offset 7200, zdt_tz = zone_v2\<rparr> HalfEven
    = Done (Some \<lparr>odt_date = \<lparr>d_year = Year 2024, d_month = March, d_day = 31\<rparr>, odt_time = time_min,
        odt_offset = Offset 3600\<rparr>)"
  (is "zdt_round_day ?z _ = Done (Some ?f)")
proof -
  let ?c = "\<lparr>odt_date = \<lparr>d_year = Year 2024, d_month = April, d_day = 1\<rparr>, odt_time = time_min,
    odt_offset = Offset 7200\<rparr> :: offset_datetime"
  have z: "zdt_ok ?z" using zone_v2_ok by (simp add: zdt_ok_def) code_simp
  have f: "zdt_day_floor ?z = Done (Some ?f)" and c: "zdt_day_ceil ?z = Done (Some ?c)"
    and less: "odt_to_instant ?f < odt_to_instant ?c" by code_simp+
  have "rounds_to (mode_to_abs_euclid HalfEven False)
        (instant_timestamp_nanos (odt_to_instant ?c) - instant_timestamp_nanos (odt_to_instant ?f))
        (time_total_nanos (zdt_time ?z)) 0" by code_simp
  with zoned_round_day_spec [OF z _ f c less, of HalfEven] show ?thesis by simp
qed

end
