(* ===== verification/Delta_Text.thy ===== *)
theory Delta_Text
  imports Difference Scan
begin

section \<open>Text of durations (\<open>time_delta.rs\<close>, \<open>date_delta.rs\<close>, \<open>datetime_delta.rs\<close>)\<close>

text \<open>
  Printing and reading of ISO 8601 durations. The parsers take a slice and advance it, so they
  are scanners as in \<open>Scan\<close>; their \<open>while\<close> loops end because every component takes
  at least two bytes. Integers stay at their width: \<open>u128\<close> with checked operations in
  \<open>time_delta.rs\<close>, \<open>i32\<close> on at most eight digits in \<open>date_delta.rs\<close>, and an
  unchecked cast in \<open>datetime_delta.rs\<close>.
\<close>

subsection \<open>Numbers\<close>

text \<open>\<open>format!("{n}")\<close> of a number that is not negative, and of any number.\<close>

fun decimal_nat :: "nat \<Rightarrow> bytes" where
  "decimal_nat n =
     (if n < 10 then [digit_char (int n)] else decimal_nat (n div 10) @ [digit_char (int (n mod 10))])"

declare decimal_nat.simps [simp del]

definition decimal :: "int \<Rightarrow> bytes" where
  "decimal n = (if n < 0 then ''-'' @ decimal_nat (nat (- n)) else decimal_nat (nat n))"

text \<open>The \<open>Display\<close> of sub-second nanoseconds: nine digits without trailing zeros.\<close>

definition trim_end_zeros :: "bytes \<Rightarrow> bytes" where
  "trim_end_zeros s = rev (dropWhile (\<lambda>c. c = CHR ''0'') (rev s))"

definition subsec_display :: "subsec_nanos \<Rightarrow> bytes" where
  "subsec_display x =
     (if subsec_get x = 0 then []
      else trim_end_zeros (CHR ''.'' # map (\<lambda>i. digit_char (subsec_get x div 10 ^ (8 - i) mod 10)) [0..<9]))"

subsection \<open>Clock durations\<close>

datatype td_parse_error = ParseInvalid | ParseOutOfRange

definition fmt_components_abs :: "time_delta \<Rightarrow> bytes" where
  "fmt_components_abs d =
     (let (hours, minutes, seconds) = delta_seconds_abs_hms (td_secs d)
      in (if hours \<noteq> 0 then decimal hours @ ''H'' else [])
         @ (if minutes \<noteq> 0 then decimal minutes @ ''M'' else [])
         @ (if seconds \<noteq> 0 \<or> subsec_get (td_subsec d) \<noteq> 0
            then decimal seconds @ subsec_display (td_subsec d) @ ''S'' else []))"

definition td_fmt_iso :: "time_delta \<Rightarrow> bytes" where
  "td_fmt_iso d =
     (if td_is_zero d then ''PT0S''
      else (let (prefix, absolute) = (if td_is_negative d then (''-'', td_neg d) else ([], d))
            in prefix @ ''PT'' @ fmt_components_abs absolute))"

definition td_display :: "time_delta \<Rightarrow> bytes" where
  "td_display d = take 3 (td_fmt_iso d) @ map ascii_lowercase (drop 3 (td_fmt_iso d))"

text \<open>Called on at least four bytes.\<close>

definition td_parse_prefix :: "bool scanner" where
  "td_parse_prefix s =
     (let (s', negative) = (if s ! 0 = CHR ''+'' then (drop 1 s, False)
                            else if s ! 0 = CHR ''-'' then (drop 1 s, True)
                            else (s, False))
      in if eq_ignore_case (s' ! 0) (CHR ''P'') \<and> eq_ignore_case (s' ! 1) (CHR ''T'')
         then (Some negative, drop 2 s') else (None, s'))"

datatype time_unit = UHours | UMinutes | UNanos bool

text \<open>The loop over the digits after the first: \<open>Inl\<close> is a return from inside it, \<open>Inr\<close>
  the tally when it ends. \<open>i\<close> is the index into the slice.\<close>

fun fraction_loop :: "bytes \<Rightarrow> nat \<Rightarrow> nat \<Rightarrow> int \<Rightarrow> int option + int" where
  "fraction_loop s i 0 tally = Inr tally"
| "fraction_loop s i (Suc n) tally =
     (if is_ascii_digit (s ! i) then fraction_loop s (i + 1) n (tally + digit_val (s ! i) * 10 ^ (8 - i))
      else if (s ! i = CHR ''S'' \<or> s ! i = CHR ''s'') \<and> i + 1 = length s then Inl (Some tally)
      else Inl None)"

definition parse_nano_fractions :: "bytes \<Rightarrow> int option" where
  "parse_nano_fractions s =
     (if s = [] then None
      else do { d \<leftarrow> extract_digit s 0;
                case fraction_loop s 1 (min (length s) 9 - 1) (d * 100000000) of
                  Inl r \<Rightarrow> r
                | Inr tally \<Rightarrow> if length s = 10 \<and> eq_ignore_case (s ! 9) (CHR ''s'') then Some tally else None })"

text \<open>The loop over at most 35 bytes; \<open>first\<close> says that no byte was seen before.\<close>

fun time_component_loop :: "nat \<Rightarrow> bool \<Rightarrow> int \<Rightarrow> bytes \<Rightarrow> (int \<times> time_unit) option \<times> bytes" where
  "time_component_loop 0 first tally s = (None, s)"
| "time_component_loop (Suc n) first tally [] = (None, [])"
| "time_component_loop (Suc n) first tally (c # r) =
     (if is_ascii_digit c then time_component_loop n False (tally * 10 + digit_val c) r
      else if (c = CHR ''H'' \<or> c = CHR ''h'') \<and> \<not> first then (Some (tally, UHours), r)
      else if (c = CHR ''M'' \<or> c = CHR ''m'') \<and> \<not> first then (Some (tally, UMinutes), r)
      else if (c = CHR ''S'' \<or> c = CHR ''s'') \<and> \<not> first then
        (do { v \<leftarrow> checked u128_ok (tally * ns_per_sec); Some (v, UNanos False) }, r)
      else if (c = CHR ''.'' \<or> c = CHR '','') \<and> \<not> first then
        (do { nanos \<leftarrow> parse_nano_fractions r;
              v \<leftarrow> checked u128_ok (tally * ns_per_sec);
              w \<leftarrow> checked u128_ok (v + nanos);
              Some (w, UNanos True) }, [])
      else (None, c # r))"

text \<open>A component that fails ends the parse, so what is left of the slice then is not
  observed.\<close>

definition parse_time_component :: "(int \<times> time_unit) scanner" where
  "parse_time_component s = (if length s < 2 then (None, s) else time_component_loop 35 True 0 s)"

lemma time_component_loop_consumes:
  "time_component_loop n first tally s = (Some r, s') \<Longrightarrow> length s' < length s"
  by (induction n first tally s rule: time_component_loop.induct) (auto split: if_splits)

lemma parse_time_component_consumes:
  "parse_time_component s = (Some r, s') \<Longrightarrow> length s' < length s"
  by (auto simp: parse_time_component_def time_component_loop_consumes split: if_splits)

function parse_all_loop :: "time_unit option \<Rightarrow> int \<Rightarrow> bytes \<Rightarrow> (int \<times> bool) option \<times> bytes" where
  "parse_all_loop previous nanos s =
     (if s = [] then (Some (nanos, previous = None), s)
      else (case parse_time_component s of
              (None, s') \<Rightarrow> (None, s')
            | (Some (value, u), s') \<Rightarrow>
                (case u of
                   UHours \<Rightarrow>
                     (if previous = None then
                        (case checked u128_ok (value * ns_per_hour) \<bind> (\<lambda>v. checked u128_ok (nanos + v)) of
                           None \<Rightarrow> (None, s') | Some n \<Rightarrow> parse_all_loop (Some u) n s')
                      else (None, s'))
                 | UMinutes \<Rightarrow>
                     (if previous = None \<or> previous = Some UHours then
                        (case checked u128_ok (value * ns_per_minute) \<bind> (\<lambda>v. checked u128_ok (nanos + v)) of
                           None \<Rightarrow> (None, s') | Some n \<Rightarrow> parse_all_loop (Some u) n s')
                      else (None, s'))
                 | UNanos _ \<Rightarrow>
                     (case checked u128_ok (nanos + value) of
                        None \<Rightarrow> (None, s')
                      | Some n \<Rightarrow> if s' \<noteq> [] then (None, s') else (Some (n, False), s')))))"
  by pat_completeness auto
termination
  by (relation "measure (\<lambda>(p, n, s). length s)") (auto dest: parse_time_component_consumes [OF sym])

declare parse_all_loop.simps [simp del]

definition parse_all_components :: "(int \<times> bool) scanner" where
  "parse_all_components = parse_all_loop None 0"

definition td_parse_iso :: "bytes \<Rightarrow> td_parse_error + time_delta" where
  "td_parse_iso s =
     (if length s < 4 then Inl ParseInvalid
      else case td_parse_prefix s of
        (None, _) \<Rightarrow> Inl ParseInvalid
      | (Some negate, s') \<Rightarrow>
          (case parse_all_components s' of
             (None, _) \<Rightarrow> Inl ParseInvalid
           | (Some (nanos, is_empty), _) \<Rightarrow>
               if is_empty then Inl ParseInvalid
               else (case checked i128_ok nanos \<bind> td_from_nanos of
                       None \<Rightarrow> Inl ParseOutOfRange
                     | Some d \<Rightarrow> Inr (td_negate_if d negate))))"

subsection \<open>Calendar durations\<close>

definition format_components :: "date_delta \<Rightarrow> bytes" where
  "format_components delta =
     (let months = delta_months_get (dd_months delta);
          days = delta_days_get (dd_days delta);
          years = months sdiv 12;
          months' = months smod 12
      in (if years \<noteq> 0 then decimal years @ ''Y'' else [])
         @ (if months' \<noteq> 0 then decimal months' @ ''M'' else [])
         @ (if days \<noteq> 0 then decimal days @ ''D'' else []))"

definition dd_fmt_iso :: "date_delta \<Rightarrow> bytes" where
  "dd_fmt_iso d =
     (if delta_months_get (dd_months d) < 0 \<or> delta_days_get (dd_days d) < 0
      then ''-P'' @ format_components (dd_neg d)
      else if delta_months_is_zero (dd_months d) \<and> delta_days_is_zero (dd_days d) then ''P0D''
      else ''P'' @ format_components d)"

definition dd_display :: "date_delta \<Rightarrow> bytes" where
  "dd_display d = take 2 (dd_fmt_iso d) @ map ascii_lowercase (drop 2 (dd_fmt_iso d))"

text \<open>Called on at least two bytes.\<close>

definition dd_parse_prefix :: "bool scanner" where
  "dd_parse_prefix s =
     (if s ! 0 = CHR ''P'' \<or> s ! 0 = CHR ''p'' then (Some False, drop 1 s)
      else if s ! 0 = CHR ''-'' \<and> eq_ignore_case (s ! 1) (CHR ''P'') then (Some True, drop 2 s)
      else if s ! 0 = CHR ''+'' \<and> eq_ignore_case (s ! 1) (CHR ''P'') then (Some False, drop 2 s)
      else (None, s))"

fun finish_component :: "nat \<Rightarrow> int \<Rightarrow> bytes \<Rightarrow> (int \<times> calendar_unit) option \<times> bytes" where
  "finish_component 0 value s = (None, s)"
| "finish_component (Suc n) value [] = (None, [])"
| "finish_component (Suc n) value (c # r) =
     (if is_ascii_digit c then finish_component n (value * 10 + digit_val c) r
      else if c = CHR ''D'' \<or> c = CHR ''d'' then (Some (value, Days), r)
      else if c = CHR ''W'' \<or> c = CHR ''w'' then (Some (value, Weeks), r)
      else if c = CHR ''M'' \<or> c = CHR ''m'' then (Some (value, Months), r)
      else if c = CHR ''Y'' \<or> c = CHR ''y'' then (Some (value, Years), r)
      else (None, c # r))"

text \<open>The loop of \<open>finish_parsing_component\<close> sees the bytes 1 to 8.\<close>

definition parse_component :: "(int \<times> calendar_unit) scanner" where
  "parse_component s =
     (if length s \<ge> 2 \<and> is_ascii_digit (s ! 0) then finish_component 8 (digit_val (s ! 0)) (drop 1 s)
      else (None, s))"

lemma finish_component_consumes:
  "finish_component n v s = (Some r, s') \<Longrightarrow> length s' < length s"
  by (induction n v s rule: finish_component.induct) (auto split: if_splits)

lemma parse_component_consumes:
  "parse_component s = (Some r, s') \<Longrightarrow> length s' < length s"
  using finish_component_consumes [of 8 "digit_val (s ! 0)" "drop 1 s" r s']
  by (auto simp: parse_component_def split: if_splits)

text \<open>How a component adds to the months and days, and whether its unit may follow the
  previous one; \<open>days_ok\<close> is what the caller asks of a days component.\<close>

definition add_component :: "bool \<Rightarrow> calendar_unit option \<Rightarrow> int \<times> calendar_unit \<Rightarrow> int \<times> int \<Rightarrow> (int \<times> int) option" where
  "add_component days_ok previous vu md =
     (case vu of (value, u) \<Rightarrow> case md of (months, days) \<Rightarrow>
        (case u of
           Years \<Rightarrow> if previous = None then Some (months + value * 12, days) else None
         | Months \<Rightarrow> if previous = None \<or> previous = Some Years then Some (months + value, days) else None
         | Weeks \<Rightarrow> if previous = None \<or> previous = Some Years \<or> previous = Some Months
                    then Some (months, days + value * 7) else None
         | Days \<Rightarrow> if days_ok then Some (months, days + value) else None))"

function dd_parse_loop :: "calendar_unit option \<Rightarrow> int \<times> int \<Rightarrow> bytes
    \<Rightarrow> (calendar_unit option \<times> int \<times> int) option" where
  "dd_parse_loop previous md s =
     (if s = [] then Some (previous, md)
      else (case parse_component s of
              (None, _) \<Rightarrow> None
            | (Some vu, s') \<Rightarrow>
                (case add_component (s' = []) previous vu md of
                   None \<Rightarrow> None
                 | Some md' \<Rightarrow> dd_parse_loop (Some (snd vu)) md' s')))"
  by pat_completeness auto
termination
  by (relation "measure (\<lambda>(p, md, s). length s)") (auto dest: parse_component_consumes [OF sym])

declare dd_parse_loop.simps [simp del]

definition dd_parse_iso :: "bytes \<Rightarrow> date_delta option" where
  "dd_parse_iso s =
     (if length s < 3 then None
      else case dd_parse_prefix s of
        (None, _) \<Rightarrow> None
      | (Some negative, s') \<Rightarrow>
          do { (previous, months, days) \<leftarrow> dd_parse_loop None (0, 0) s';
               previous;
               m \<leftarrow> delta_months_new (if negative then - months else months);
               d \<leftarrow> delta_days_new (if negative then - days else days);
               Some \<lparr>dd_months = m, dd_days = d\<rparr> })"

subsection \<open>Both\<close>

definition dtd_fmt_iso :: "datetime_delta \<Rightarrow> bytes" where
  "dtd_fmt_iso x =
     (let negative = (delta_seconds_get (td_secs (dtd_time x)) < 0
            \<or> delta_months_get (dd_months (dtd_date x)) < 0 \<or> delta_days_get (dd_days (dtd_date x)) < 0);
          y = (if negative then dtd_neg x else x)
      in if \<not> negative \<and> td_is_zero (dtd_time x) \<and> dd_is_zero (dtd_date x) then ''P0D''
         else (if negative then ''-'' else []) @ ''P''
           @ (if \<not> dd_is_zero (dtd_date y) then format_components (dtd_date y) else [])
           @ (if \<not> td_is_zero (dtd_time y) then ''T'' @ fmt_components_abs (dtd_time y) else []))"

definition dtd_display :: "datetime_delta \<Rightarrow> bytes" where
  "dtd_display x = take 2 (dtd_fmt_iso x)
     @ map (\<lambda>c. if c \<noteq> CHR ''T'' then ascii_lowercase c else c) (drop 2 (dtd_fmt_iso x))"

text \<open>Ends at a \<open>T\<close>, at the end, or after a days component (\<open>break\<close>).\<close>

function date_components_loop :: "calendar_unit option \<Rightarrow> int \<times> int \<Rightarrow> bytes \<Rightarrow> (int \<times> int) option \<times> bytes" where
  "date_components_loop previous md s =
     (if s = [] \<or> eq_ignore_case (s ! 0) (CHR ''T'') then (Some md, s)
      else (case parse_component s of
              (None, s') \<Rightarrow> (None, s')
            | (Some vu, s') \<Rightarrow>
                (case add_component True previous vu md of
                   None \<Rightarrow> (None, s')
                 | Some md' \<Rightarrow> if snd vu = Days then (Some md', s')
                              else date_components_loop (Some (snd vu)) md' s')))"
  by pat_completeness auto
termination
  by (relation "measure (\<lambda>(p, md, s). length s)") (auto dest: parse_component_consumes [OF sym])

declare date_components_loop.simps [simp del]

definition parse_date_components :: "date_delta scanner" where
  "parse_date_components =
     scan_bind (date_components_loop None (0, 0)) (\<lambda>(months, days).
     scan_bind (scan_lift (delta_months_new months)) (\<lambda>m.
     scan_bind (scan_lift (delta_days_new days)) (\<lambda>d.
       scan_return \<lparr>dd_months = m, dd_days = d\<rparr>)))"

text \<open>\<open>TimeDelta::from_nanos(nanos as _)\<close>: the \<open>u128\<close> is cast to \<open>i128\<close>.\<close>

definition dtd_parse_iso :: "bytes \<Rightarrow> datetime_delta option" where
  "dtd_parse_iso s =
     (if length s < 3 then None
      else case dd_parse_prefix s of
        (None, _) \<Rightarrow> None
      | (Some negative, s1) \<Rightarrow>
          if s1 = [] \<or> eq_ignore_case (last s1) (CHR ''T'') then None
          else case parse_date_components s1 of
            (None, _) \<Rightarrow> None
          | (Some d, s2) \<Rightarrow>
              do { t \<leftarrow> (if s2 = [] then Some td_zero
                        else if eq_ignore_case (s2 ! 0) (CHR ''T'') then
                          do { (nanos, _) \<leftarrow> fst (parse_all_components (drop 1 s2));
                               td_from_nanos (as_i128 nanos) }
                        else None);
                   Some (if negative then \<lparr>dtd_date = dd_neg d, dtd_time = td_neg t\<rparr>
                         else \<lparr>dtd_date = d, dtd_time = t\<rparr>) })"

end
