(* ===== verification/Delta_Text_Facts.thy ===== *)
theory Delta_Text_Facts
  imports Delta_Text Delta_Facts Iso_Facts
begin

section \<open>Reading back durations\<close>

text \<open>
  The printers and parsers of ISO 8601 durations are inverse to each other on valid values: the
  digits of a number and of a fraction are read back first, then the components one after the
  other, each parser being followed through the text that the printer made. One input shows
  where the parser of \<open>DateTimeDelta\<close> wraps instead of failing.
\<close>

subsection \<open>Numbers\<close>

definition digits_value :: "int \<Rightarrow> bytes \<Rightarrow> int" where
  "digits_value = foldl (\<lambda>a c. a * 10 + digit_val c)"

lemma digits_value_simps [simp]:
  "digits_value t [] = t" "digits_value t (c # s) = digits_value (t * 10 + digit_val c) s"
  "digits_value t (s @ r) = digits_value (digits_value t s) r"
  by (simp_all add: digits_value_def)

lemma decimal_nat_digits: "list_all is_ascii_digit (decimal_nat n) \<and> decimal_nat n \<noteq> [] \<and> digits_value 0 (decimal_nat n) = int n"
proof (induction n rule: decimal_nat.induct)
  case (1 n)
  show ?case
  proof (cases "n < 10")
    case True
    then show ?thesis by (subst (1 2 3) decimal_nat.simps) simp
  next
    case False
    have "int (n div 10) * 10 + int (n mod 10) = int n" by (metis div_mult_mod_eq of_nat_add of_nat_mult of_nat_numeral)
    with False 1 show ?thesis by (subst (1 2 3) decimal_nat.simps) (simp add: mod_10_range)
  qed
qed

lemma decimal_nat_length: "n < 10 ^ Suc k \<Longrightarrow> length (decimal_nat n) \<le> Suc k"
proof (induction n arbitrary: k rule: decimal_nat.induct)
  case (1 n)
  show ?case
  proof (cases "n < 10")
    case False
    then obtain j where k: "k = Suc j" using 1(2) by (cases k) auto
    then have "n div 10 < 10 ^ Suc j" using 1(2) by (simp add: less_mult_imp_div_less)
    with False 1(1) k show ?thesis by (subst decimal_nat.simps) simp
  qed (subst decimal_nat.simps, simp)
qed

lemma decimal_digits:
  assumes "0 \<le> n"
  shows "list_all is_ascii_digit (decimal n)" "decimal n \<noteq> []" "digits_value 0 (decimal n) = n"
  using assms decimal_nat_digits [of "nat n"] by (simp_all add: decimal_def)

lemma decimal_length: "0 \<le> n \<Longrightarrow> n < 10 ^ Suc k \<Longrightarrow> length (decimal n) \<le> Suc k"
  using decimal_nat_length [of "nat n" k] by (simp add: decimal_def nat_less_iff)

subsection \<open>Fractions of a second\<close>

fun frac_value :: "nat \<Rightarrow> bytes \<Rightarrow> int" where
  "frac_value p [] = 0"
| "frac_value p (c # s) = digit_val c * 10 ^ p + frac_value (p - 1) s"

lemma frac_value_zeros: "frac_value p (s @ replicate k (CHR ''0'')) = frac_value p s"
proof (induction s arbitrary: p)
  case Nil
  then show ?case by (induction k arbitrary: p) (simp_all add: digit_val_def byte_def)
qed simp

lemma frac_value_digits:
  "0 \<le> n \<Longrightarrow> frac_value p (map (\<lambda>i. digit_char (n div 10 ^ (p - i) mod 10)) [0..<Suc p]) = n mod 10 ^ Suc p"
proof (induction p)
  case 0
  then show ?case by (simp add: mod_10_range)
next
  case (Suc p)
  have "[0..<Suc (Suc p)] = 0 # map Suc [0..<Suc p]" by (simp add: map_Suc_upt upt_conv_Cons del: upt_Suc)
  moreover have "n mod 10 ^ Suc (Suc p) = n div 10 ^ Suc p mod 10 * 10 ^ Suc p + n mod 10 ^ Suc p"
    using zmod_zmult2_eq [of 10 n "10 ^ Suc p"] by (simp add: mult.commute)
  ultimately show ?case
    using Suc by (simp add: o_def mod_10_range del: upt_Suc power_Suc)
qed

lemma trim_end_zeros_cut: "\<exists>k. s = trim_end_zeros s @ replicate k (CHR ''0'')"
proof -
  have "rev s = takeWhile (\<lambda>c. c = CHR ''0'') (rev s) @ dropWhile (\<lambda>c. c = CHR ''0'') (rev s)" by simp
  moreover have "takeWhile (\<lambda>c. c = CHR ''0'') (rev s) = replicate (length (takeWhile (\<lambda>c. c = CHR ''0'') (rev s))) (CHR ''0'')"
    by (metis (full_types) replicate_eqI set_takeWhileD)
  ultimately show ?thesis
    unfolding trim_end_zeros_def by (metis rev_append rev_replicate rev_rev_ident)
qed

lemma subsec_display_digits:
  assumes "subsec_ok x" and "subsec_get x \<noteq> 0"
  obtains ds where "subsec_display x = CHR ''.'' # ds" and "list_all is_ascii_digit ds" and "ds \<noteq> []"
    and "length ds \<le> 9" and "frac_value 8 ds = subsec_get x"
proof -
  define n where "n = subsec_get x"
  define ds where "ds = map (\<lambda>i. digit_char (n div 10 ^ (8 - i) mod 10)) [0..<9]"
  have n: "0 \<le> n" "n < 1000000000" using assms(1) by (simp_all add: n_def subsec_ok_def bound_defs)
  have len: "length ds = 9" and all: "list_all is_ascii_digit ds"
    by (simp_all add: ds_def list_all_iff mod_10_range)
  have full: "frac_value 8 ds = n" using frac_value_digits [OF n(1), of 8] n by (simp add: ds_def)
  obtain k where k: "CHR ''.'' # ds = trim_end_zeros (CHR ''.'' # ds) @ replicate k (CHR ''0'')"
    using trim_end_zeros_cut by blast
  moreover have "trim_end_zeros (CHR ''.'' # ds) \<noteq> []" using k by (cases k) auto
  ultimately obtain ds' where t: "trim_end_zeros (CHR ''.'' # ds) = CHR ''.'' # ds'" and ds': "ds = ds' @ replicate k (CHR ''0'')"
    by (cases "trim_end_zeros (CHR ''.'' # ds)") auto
  have v: "frac_value 8 ds' = n" using full frac_value_zeros [of 8 ds' k] by (simp add: ds')
  show ?thesis
  proof (rule that)
    show "subsec_display x = CHR ''.'' # ds'" using assms(2) t by (simp add: subsec_display_def ds_def n_def)
    show "ds' \<noteq> []" using v assms(2) by (auto simp: n_def)
  qed (use v len all ds' in \<open>auto simp: n_def\<close>)
qed

lemma not_digit_units [simp]:
  "\<not> is_ascii_digit (CHR ''S'')" "\<not> is_ascii_digit (CHR ''H'')" "\<not> is_ascii_digit (CHR ''M'')"
  "\<not> is_ascii_digit (CHR ''D'')" "\<not> is_ascii_digit (CHR ''Y'')" "\<not> is_ascii_digit (CHR ''P'')"
  by code_simp+

lemma eq_ignore_case_units [simp]:
  "eq_ignore_case (CHR ''S'') (CHR ''s'')" "eq_ignore_case (CHR ''P'') (CHR ''P'')" "eq_ignore_case (CHR ''T'') (CHR ''T'')"
  "\<not> eq_ignore_case (CHR ''S'') (CHR ''T'')" "\<not> eq_ignore_case (CHR ''H'') (CHR ''T'')"
  "\<not> eq_ignore_case (CHR ''M'') (CHR ''T'')" "\<not> eq_ignore_case (CHR ''D'') (CHR ''T'')"
  "\<not> eq_ignore_case (CHR ''Y'') (CHR ''T'')"
  by code_simp+

lemma fraction_loop_digits:
  assumes "list_all is_ascii_digit ds" and "length pre + length ds \<le> 9"
  shows "fraction_loop (pre @ ds @ ''S'') (length pre) (min (length pre + length ds + 1) 9 - length pre) tally
    = (if length pre + length ds = 9 then Inr (tally + frac_value (8 - length pre) ds)
       else Inl (Some (tally + frac_value (8 - length pre) ds)))"
  using assms
proof (induction ds arbitrary: pre tally)
  case Nil
  then show ?case
    by (cases "length pre = 9") (simp_all add: Suc_diff_le nth_append)
next
  case (Cons c ds)
  have "min (length pre + length (c # ds) + 1) 9 - length pre
      = Suc (min (length (pre @ [c]) + length ds + 1) 9 - length (pre @ [c]))"
    using Cons.prems(2) by simp
  with Cons.IH [of "pre @ [c]" "tally + digit_val c * 10 ^ (8 - length pre)"] Cons.prems show ?case
    by (simp add: nth_append algebra_simps)
qed

lemma parse_nano_fractions_digits:
  assumes "list_all is_ascii_digit ds" and "ds \<noteq> []" and "length ds \<le> 9"
  shows "parse_nano_fractions (ds @ ''S'') = Some (frac_value 8 ds)"
proof -
  obtain c cs where ds: "ds = c # cs" using assms(2) by (cases ds) auto
  have "fraction_loop (ds @ ''S'') 1 (min (length (ds @ ''S'')) 9 - 1) (digit_val c * 100000000)
      = (if length cs = 8 then Inr (frac_value 8 ds) else Inl (Some (frac_value 8 ds)))"
    using fraction_loop_digits [of cs "[c]" "digit_val c * 100000000"] assms(1,3)
    by (simp add: ds numeral_eq_Suc del: fraction_loop.simps)
  then show ?thesis
    using assms(1) by (auto simp: ds parse_nano_fractions_def extract_digit_def nth_append
        simp del: fraction_loop.simps)
qed

subsection \<open>Clock durations\<close>

lemma time_component_loop_digits:
  assumes "list_all is_ascii_digit ds" and "length ds \<le> n"
  shows "time_component_loop n first t (ds @ r)
    = time_component_loop (n - length ds) (first \<and> ds = []) (digits_value t ds) r"
  using assms
proof (induction ds arbitrary: n first t)
  case (Cons c ds)
  then show ?case by (cases n) simp_all
qed simp

lemma parse_number:
  assumes "0 \<le> v" and "v < 10 ^ 30" and "r \<noteq> []"
  shows "\<exists>k. parse_time_component (decimal v @ r) = time_component_loop (Suc k) False v r"
proof -
  have "length (decimal v) \<le> Suc 29" using assms by (intro decimal_length) simp_all
  then obtain k where "35 - length (decimal v) = Suc k" by (cases "35 - length (decimal v)") auto
  moreover have "2 \<le> length (decimal v @ r)"
    using decimal_digits(2) [OF assms(1)] assms(3) by (cases "decimal v"; cases r) auto
  ultimately show ?thesis
    using time_component_loop_digits [of "decimal v" 35 True 0 r] decimal_digits [OF assms(1)]
      \<open>length (decimal v) \<le> Suc 29\<close>
    by (auto simp: parse_time_component_def)
qed

lemma parse_hours: "0 \<le> v \<Longrightarrow> v < 10 ^ 30 \<Longrightarrow> parse_time_component (decimal v @ CHR ''H'' # r) = (Some (v, UHours), r)"
  and parse_minutes: "0 \<le> v \<Longrightarrow> v < 10 ^ 30 \<Longrightarrow> parse_time_component (decimal v @ CHR ''M'' # r) = (Some (v, UMinutes), r)"
  using parse_number [of v "CHR ''H'' # r"] parse_number [of v "CHR ''M'' # r"]
  by auto

lemma parse_seconds:
  assumes "0 \<le> v" and "v < 60" and "subsec_ok x"
  shows "\<exists>u. parse_time_component (decimal v @ subsec_display x @ ''S'')
    = (Some (v * 1000000000 + subsec_get x, UNanos u), [])"
proof (cases "subsec_get x = 0")
  case True
  with assms parse_number [of v "''S''"] show ?thesis
    by (auto simp: subsec_display_def ns_per_sec_def u128_ok_def)
next
  case False
  from subsec_display_digits [OF assms(3) this] obtain ds where ds: "subsec_display x = CHR ''.'' # ds"
    "list_all is_ascii_digit ds" "ds \<noteq> []" "length ds \<le> 9" "frac_value 8 ds = subsec_get x" .
  have "0 \<le> subsec_get x" "subsec_get x < 1000000000" using assms(3) by (simp_all add: subsec_ok_def bound_defs)
  with assms parse_number [of v "CHR ''.'' # ds @ ''S''"] parse_nano_fractions_digits [OF ds(2-4)] show ?thesis
    by (auto simp: ds(1,5) ns_per_sec_def u128_ok_def)
qed

text \<open>The text of the components from the seconds on, from the minutes on, and of all.\<close>

definition seconds_text :: "int \<Rightarrow> subsec_nanos \<Rightarrow> bytes" where
  "seconds_text s x = (if s \<noteq> 0 \<or> subsec_get x \<noteq> 0 then decimal s @ subsec_display x @ ''S'' else [])"

definition unit_text :: "int \<Rightarrow> char \<Rightarrow> bytes" where
  "unit_text v c = (if v \<noteq> 0 then decimal v @ [c] else [])"

abbreviation small :: "int \<Rightarrow> bool" where "small n \<equiv> 0 \<le> n \<and> n < 10 ^ 30"

lemma read_seconds_text:
  assumes "small acc" and "0 \<le> s" and "s < 60" and "subsec_ok x"
  shows "parse_all_loop previous acc (seconds_text s x)
    = (Some (acc + s * 1000000000 + subsec_get x, previous = None \<and> seconds_text s x = []), [])"
proof (cases "s \<noteq> 0 \<or> subsec_get x \<noteq> 0")
  case True
  obtain u where "parse_time_component (seconds_text s x) = (Some (s * 1000000000 + subsec_get x, UNanos u), [])"
    using True parse_seconds [OF assms(2-4)] by (auto simp: seconds_text_def)
  moreover have "seconds_text s x \<noteq> []" using True by (simp add: seconds_text_def)
  moreover have "0 \<le> subsec_get x" "subsec_get x < 1000000000" using assms(4) by (simp_all add: subsec_ok_def bound_defs)
  ultimately show ?thesis
    using assms(1-3) by (subst parse_all_loop.simps) (simp add: u128_ok_def checked_def add.assoc)
qed (subst parse_all_loop.simps, simp add: seconds_text_def)

lemma read_minutes_text:
  assumes "small acc" and "0 \<le> m" and "m < 60" and "0 \<le> s" and "s < 60" and "subsec_ok x"
    and "previous = None \<or> previous = Some UHours" and "acc + 3600000000000 < 10 ^ 30"
  shows "parse_all_loop previous acc (unit_text m (CHR ''M'') @ seconds_text s x)
    = (Some (acc + m * 60000000000 + s * 1000000000 + subsec_get x,
        previous = None \<and> m = 0 \<and> seconds_text s x = []), [])"
proof (cases "m = 0")
  case True
  then show ?thesis using read_seconds_text [OF assms(1,4-6)] by (simp add: unit_text_def)
next
  case False
  have "parse_time_component (unit_text m (CHR ''M'') @ seconds_text s x) = (Some (m, UMinutes), seconds_text s x)"
    using False parse_minutes [of m] assms(2,3) by (simp add: unit_text_def)
  moreover have "small (acc + m * 60000000000)" using assms(1-3,8) by simp
  ultimately show ?thesis
    using read_seconds_text [OF _ assms(4-6), of "acc + m * 60000000000" "Some UMinutes"] False assms(1-3,7)
    by (subst parse_all_loop.simps) (auto simp: u128_ok_def checked_def time_units unit_text_def)
qed

lemma read_clock_text:
  assumes "0 \<le> h" and "h < 10 ^ 12" and "0 \<le> m" and "m < 60" and "0 \<le> s" and "s < 60" and "subsec_ok x"
  shows "parse_all_components (unit_text h (CHR ''H'') @ unit_text m (CHR ''M'') @ seconds_text s x)
    = (Some (h * 3600000000000 + m * 60000000000 + s * 1000000000 + subsec_get x,
        h = 0 \<and> m = 0 \<and> seconds_text s x = []), [])"
proof (cases "h = 0")
  case True
  then show ?thesis
    using read_minutes_text [OF _ assms(3-7), of 0 None] by (simp add: unit_text_def parse_all_components_def)
next
  case False
  let ?r = "unit_text m (CHR ''M'') @ seconds_text s x"
  have "parse_time_component (unit_text h (CHR ''H'') @ ?r) = (Some (h, UHours), ?r)"
    using False parse_hours [of h ?r] assms(1,2) by (simp add: unit_text_def)
  moreover have "small (h * 3600000000000)" "h * 3600000000000 + 3600000000000 < 10 ^ 30" using assms(1,2) by simp_all
  ultimately show ?thesis
    using read_minutes_text [OF _ assms(3-7), of "h * 3600000000000" "Some UHours"] False assms(1,2)
    unfolding parse_all_components_def
    by (subst parse_all_loop.simps) (auto simp: u128_ok_def checked_def time_units unit_text_def)
qed

lemma clock_parts:
  assumes "td_ok d" and "0 \<le> delta_seconds_get (td_secs d)"
  obtains h m s where "0 \<le> h" "h < 10 ^ 12" "0 \<le> m" "m < 60" "0 \<le> s" "s < 60"
    and "h * 3600 + m * 60 + s = delta_seconds_get (td_secs d)"
    and "fmt_components_abs d = unit_text h (CHR ''H'') @ unit_text m (CHR ''M'') @ seconds_text s (td_subsec d)"
proof -
  define secs where "secs = delta_seconds_get (td_secs d)"
  define h m s where "h = secs div 3600" and "m = secs mod 3600 div 60" and "s = secs mod 60"
  have secs: "0 \<le> secs" "secs \<le> 316192377600" using assms by (simp_all add: secs_def td_ok_def delta_seconds_ok_def bound_defs)
  have h: "0 \<le> h" "h < 10 ^ 12" using secs by (simp_all add: h_def pos_imp_zdiv_nonneg_iff)
  have m: "0 \<le> m" "m < 60" and s: "0 \<le> s" "s < 60"
    by (simp_all add: m_def s_def pos_imp_zdiv_nonneg_iff less_mult_imp_div_less)
  have "secs mod 3600 = m * 60 + secs mod 3600 mod 60" unfolding m_def by simp
  moreover have "secs mod 3600 mod 60 = s" unfolding s_def by (simp add: mod_mod_cancel)
  moreover have "h * 3600 + secs mod 3600 = secs" unfolding h_def by simp
  ultimately have eq: "h * 3600 + m * 60 + s = secs" by linarith
  have hms: "delta_seconds_abs_hms (td_secs d) = (h, m, s)"
    using secs m s by (simp add: delta_seconds_abs_hms_def Let_def h_def m_def s_def flip: secs_def)
  show ?thesis
    by (rule that [OF h m s]) (simp_all add: eq secs_def fmt_components_abs_def hms unit_text_def seconds_text_def)
qed

lemma clock_text:
  assumes "td_ok d" and "0 \<le> delta_seconds_get (td_secs d)"
  shows "parse_all_components (fmt_components_abs d) = (Some (td_total_nanos d, td_is_zero d), [])"
    and "fmt_components_abs d = [] \<longleftrightarrow> td_is_zero d"
proof -
  obtain h m s where r: "0 \<le> h" "h < 10 ^ 12" "0 \<le> m" "m < 60" "0 \<le> s" "s < 60"
    and eq: "h * 3600 + m * 60 + s = delta_seconds_get (td_secs d)"
    and fmt: "fmt_components_abs d = unit_text h (CHR ''H'') @ unit_text m (CHR ''M'') @ seconds_text s (td_subsec d)"
    by (rule clock_parts [OF assms])
  have sub: "subsec_ok (td_subsec d)" using assms(1) by (simp add: td_ok_def)
  have zero: "td_is_zero d \<longleftrightarrow> h = 0 \<and> m = 0 \<and> seconds_text s (td_subsec d) = []"
    using r(1,3,5) by (auto simp: td_is_zero_def seconds_text_def simp flip: eq)
  have "td_total_nanos d = h * 3600000000000 + m * 60000000000 + s * 1000000000 + subsec_get (td_subsec d)"
    by (simp add: td_total_nanos_def time_units flip: eq)
  then show "parse_all_components (fmt_components_abs d) = (Some (td_total_nanos d, td_is_zero d), [])"
    using read_clock_text [OF r sub] by (simp only: fmt zero)
  show "fmt_components_abs d = [] \<longleftrightarrow> td_is_zero d"
    unfolding fmt zero by (auto simp: unit_text_def)
qed

lemma td_neg_exact:
  assumes "td_ok d"
  shows "td_ok (td_neg d)" "td_neg (td_neg d) = d" "td_total_nanos (td_neg d) = - td_total_nanos d"
  using time_delta_negation [OF assms] by simp_all

lemma td_negative_total: "td_ok d \<Longrightarrow> td_is_negative d \<longleftrightarrow> td_total_nanos d < 0"
  by (simp add: td_is_negative_def td_ok_def td_total_nanos_def time_units subsec_ok_def bound_defs) linarith

lemma td_zero_total:
  assumes "td_ok d"
  shows "td_is_zero d \<longleftrightarrow> td_total_nanos d = 0"
proof -
  have "s = 0 \<and> n = 0 \<longleftrightarrow> s * 1000000000 + n = 0" if "0 \<le> n" "n \<le> 999999999" for s n :: int
    using that by (cases s "0 :: int" rule: linorder_cases) linarith+
  with assms show ?thesis by (simp add: td_is_zero_def td_ok_def td_total_nanos_def time_units subsec_ok_def bound_defs)
qed

lemma clock_text_length:
  assumes "td_ok d" and "0 \<le> delta_seconds_get (td_secs d)" and "\<not> td_is_zero d"
  shows "2 \<le> length (fmt_components_abs d)"
proof -
  obtain h m s where hms: "delta_seconds_abs_hms (td_secs d) = (h, m, s)" by (cases "delta_seconds_abs_hms (td_secs d)") auto
  have "decimal v \<noteq> []" for v using decimal_nat_digits by (simp add: decimal_def)
  then have ge: "Suc 0 \<le> length (decimal v)" for v by (cases "decimal v") auto
  have "fmt_components_abs d = [] \<or> 2 \<le> length (fmt_components_abs d)"
    using ge [of h] ge [of m] ge [of s] by (auto simp: fmt_components_abs_def hms)
  with clock_text(2) [OF assms(1,2)] assms(3) show ?thesis by simp
qed

lemma td_text_roundtrip:
  assumes "td_ok d"
  shows "td_parse_iso (td_fmt_iso d) = Inr d"
proof (cases "td_is_zero d")
  case True
  have "td_parse_iso ''PT0S'' = Inr td_zero" by code_simp
  moreover have "d = td_zero"
    using True tds.num_inject [OF assms, of td_zero] assms
    by (simp add: td_zero_total td_zero_def td_ok_def td_total_nanos_def subsec_ok_def delta_seconds_ok_def bound_defs)
  ultimately show ?thesis using True by (simp add: td_fmt_iso_def)
next
  case False
  define e where "e = (if td_is_negative d then td_neg d else d)"
  have e: "td_ok e" "\<not> td_is_negative e" "\<not> td_is_zero e" "td_negate_if e (td_is_negative d) = d"
    using td_neg_exact [OF assms] assms False td_negative_total [of d] td_negative_total [of e] td_zero_total [of d] td_zero_total [of e]
    by (auto simp: e_def td_negate_if_def)
  have pos: "0 \<le> delta_seconds_get (td_secs e)" using e(2) by (simp add: td_is_negative_def)
  note clock = clock_text [OF e(1) pos]
  obtain a b r where fmt: "fmt_components_abs e = a # b # r"
    using clock_text_length [OF e(1) pos e(3)] by (cases "fmt_components_abs e"; cases "tl (fmt_components_abs e)") auto
  have "td_fmt_iso d = (if td_is_negative d then ''-'' else []) @ ''PT'' @ fmt_components_abs e"
    using False by (simp add: td_fmt_iso_def e_def)
  moreover have "td_from_nanos (td_total_nanos e) = Some e" using e(1) by (simp add: td_from_nanos_Some)
  moreover have "i128_ok (td_total_nanos e)" using td_total_range [OF e(1)] by (simp add: i128_ok_def delta_nanos_bounds)
  ultimately show ?thesis
    using clock(1) e(3,4) unfolding fmt
    by (cases "td_is_negative d") (simp_all add: td_parse_iso_def td_parse_prefix_def checked_def)
qed

subsection \<open>Calendar durations\<close>

lemma finish_component_digits:
  assumes "list_all is_ascii_digit ds" and "length ds \<le> n"
  shows "finish_component n v (ds @ r) = finish_component (n - length ds) (digits_value v ds) r"
  using assms
proof (induction ds arbitrary: n v)
  case (Cons c ds)
  then show ?case by (cases n) simp_all
qed simp

lemma read_component:
  assumes "0 < v" and "v < 10 ^ 8"
  shows "parse_component (unit_text v (CHR ''Y'') @ r) = (Some (v, Years), r)"
    and "parse_component (unit_text v (CHR ''M'') @ r) = (Some (v, Months), r)"
    and "parse_component (unit_text v (CHR ''D'') @ r) = (Some (v, Days), r)"
proof -
  have "length (decimal v) \<le> Suc 7" using assms by (intro decimal_length) simp_all
  moreover obtain c cs where ds: "decimal v = c # cs" using decimal_digits(2) [of v] assms(1) by (cases "decimal v") auto
  moreover have "list_all is_ascii_digit (c # cs)" "digits_value 0 (c # cs) = v"
    using decimal_digits [of v] assms(1) by (simp_all flip: ds)
  moreover obtain k where "8 - length cs = Suc k" using calculation(1,2) by (cases "8 - length cs") auto
  ultimately show "parse_component (unit_text v (CHR ''Y'') @ r) = (Some (v, Years), r)"
    "parse_component (unit_text v (CHR ''M'') @ r) = (Some (v, Months), r)"
    "parse_component (unit_text v (CHR ''D'') @ r) = (Some (v, Days), r)"
    using assms(1) finish_component_digits [of cs 8 "digit_val c"]
    by (simp_all add: parse_component_def unit_text_def)
qed

lemma unit_text_empty [simp]: "unit_text v c = [] \<longleftrightarrow> v = 0" "unit_text 0 c = []"
  by (simp_all add: unit_text_def)

abbreviation calendar_text :: "int \<Rightarrow> int \<Rightarrow> int \<Rightarrow> bytes" where
  "calendar_text y m k \<equiv> unit_text y (CHR ''Y'') @ unit_text m (CHR ''M'') @ unit_text k (CHR ''D'')"

text \<open>The unit that was read last.\<close>

definition last_read :: "calendar_unit option \<Rightarrow> int \<Rightarrow> calendar_unit \<Rightarrow> calendar_unit option" where
  "last_read previous v u = (if v = 0 then previous else Some u)"

lemma dd_read_days:
  assumes "0 \<le> k" and "k < 10 ^ 8"
  shows "dd_parse_loop previous (a, b) (unit_text k (CHR ''D'')) = Some (last_read previous k Days, a, b + k)"
  using assms read_component(3) [of k "[]"]
  by (cases "k = 0"; subst dd_parse_loop.simps; simp add: add_component_def last_read_def)
    (subst dd_parse_loop.simps, simp)

lemma dd_read_months:
  assumes "0 \<le> m" and "m < 10 ^ 8" and "0 \<le> k" and "k < 10 ^ 8" and "previous = None \<or> previous = Some Years"
  shows "dd_parse_loop previous (a, b) (unit_text m (CHR ''M'') @ unit_text k (CHR ''D''))
    = Some (last_read (last_read previous m Months) k Days, a + m, b + k)"
proof (cases "m = 0")
  case False
  then show ?thesis
    using read_component(2) [of m] assms dd_read_days [OF assms(3,4)]
    by (subst dd_parse_loop.simps) (simp add: add_component_def last_read_def)
qed (simp add: dd_read_days [OF assms(3,4)] last_read_def)

lemma dd_read_years:
  assumes "0 \<le> y" and "y < 10 ^ 8" and "0 \<le> m" and "m < 10 ^ 8" and "0 \<le> k" and "k < 10 ^ 8"
  shows "dd_parse_loop None (a, b) (calendar_text y m k)
    = Some (last_read (last_read (last_read None y Years) m Months) k Days, a + y * 12 + m, b + k)"
proof (cases "y = 0")
  case False
  then show ?thesis
    using read_component(1) [of y] assms dd_read_months [OF assms(3-6)]
    by (subst dd_parse_loop.simps) (simp add: add_component_def last_read_def)
qed (simp add: dd_read_months [OF assms(3-6)] last_read_def)

lemma calendar_text_of:
  assumes "dd_ok d" and "0 \<le> delta_months_get (dd_months d)" and "0 \<le> delta_days_get (dd_days d)"
  obtains y m where "format_components d = calendar_text y m (delta_days_get (dd_days d))"
    and "delta_months_get (dd_months d) = y * 12 + m" and "0 \<le> y" "y < 10 ^ 8" "0 \<le> m" "m < 10 ^ 8"
    and "delta_days_get (dd_days d) < 10 ^ 8"
proof (rule that)
  let ?n = "delta_months_get (dd_months d)"
  have b: "?n \<le> 119988" "delta_days_get (dd_days d) < 10 ^ 8"
    using assms(1) by (simp_all add: dd_ok_def delta_months_ok_def delta_days_ok_def bound_defs)
  show "format_components d = calendar_text (?n div 12) (?n mod 12) (delta_days_get (dd_days d))"
    using assms(2) by (simp add: format_components_def Let_def unit_text_def)
  show "?n div 12 < 10 ^ 8" using b(1) zdiv_mono1 [of ?n 119988 12] by simp
  show "?n mod 12 < 10 ^ 8" using pos_mod_bound [of 12 ?n] by simp
qed (use assms in \<open>auto simp: pos_imp_zdiv_nonneg_iff dd_ok_def delta_days_ok_def bound_defs\<close>)

lemma dd_neg_ok:
  shows "dd_ok d \<Longrightarrow> dd_ok (dd_neg d)" and "dd_neg (dd_neg d) = d"
  by (auto simp: dd_ok_def dd_neg_def delta_months_neg_def delta_days_neg_def delta_months_ok_def
      delta_days_ok_def same_sign_def bound_defs)

lemma dd_text_roundtrip:
  assumes "dd_ok d"
  shows "dd_parse_iso (dd_fmt_iso d) = Some d"
proof (cases "dd_is_zero d")
  case True
  have "dd_parse_iso ''P0D'' = Some dd_zero" by code_simp
  moreover have "d = dd_zero"
    using True by (cases d; cases "dd_months d"; cases "dd_days d")
      (simp add: dd_is_zero_def delta_months_is_zero_def delta_days_is_zero_def dd_zero_def)
  ultimately show ?thesis using True
    by (simp add: dd_fmt_iso_def dd_is_zero_def delta_months_is_zero_def delta_days_is_zero_def)
next
  case False
  define neg where "neg \<longleftrightarrow> delta_months_get (dd_months d) < 0 \<or> delta_days_get (dd_days d) < 0"
  define e where "e = (if neg then dd_neg d else d)"
  have e: "dd_ok e" using assms dd_neg_ok by (simp add: e_def)
  have pos: "0 \<le> delta_months_get (dd_months e)" "0 \<le> delta_days_get (dd_days e)"
    using assms by (auto simp: e_def neg_def dd_neg_def delta_months_neg_def delta_days_neg_def dd_ok_def same_sign_def)
  obtain y m where fmt: "format_components e = calendar_text y m (delta_days_get (dd_days e))"
    and ym: "delta_months_get (dd_months e) = y * 12 + m" and r: "0 \<le> y" "y < 10 ^ 8" "0 \<le> m" "m < 10 ^ 8"
    "delta_days_get (dd_days e) < 10 ^ 8"
    by (rule calendar_text_of [OF e pos])
  note loop = dd_read_years [OF r(1-4) pos(2) r(5), of 0 0]
  have nz: "y \<noteq> 0 \<or> m \<noteq> 0 \<or> delta_days_get (dd_days e) \<noteq> 0"
    using False ym by (auto simp: e_def dd_is_zero_def delta_months_is_zero_def delta_days_is_zero_def dd_neg_def
        delta_months_neg_def delta_days_neg_def split: if_splits)
  have len: "2 \<le> length (calendar_text y m (delta_days_get (dd_days e)))"
  proof -
    have "Suc 0 \<le> length (decimal v)" if "0 \<le> v" for v using decimal_digits(2) [OF that] by (cases "decimal v") auto
    then show ?thesis using nz r pos by (fastforce simp: unit_text_def)
  qed
  then obtain p q s where cut: "calendar_text y m (delta_days_get (dd_days e)) = p # q # s"
    by (cases "calendar_text y m (delta_days_get (dd_days e))"; cases "tl (calendar_text y m (delta_days_get (dd_days e)))") auto
  have out: "dd_fmt_iso d = (if neg then ''-'' else []) @ ''P'' @ p # q # s"
    using False fmt unfolding cut
    by (auto simp: dd_fmt_iso_def e_def neg_def dd_is_zero_def)
  have prev: "last_read (last_read (last_read None y Years) m Months) (delta_days_get (dd_days e)) Days \<noteq> None"
    using nz by (auto simp: last_read_def)
  have mnew: "delta_months_new n = Some (DeltaMonths n)" if "\<bar>n\<bar> = delta_months_get (dd_months e)" for n
    using that e by (auto simp: dd_ok_def delta_months_new_def delta_months_ok_def bound_defs)
  have dnew: "delta_days_new n = Some (DeltaDays n)" if "\<bar>n\<bar> = delta_days_get (dd_days e)" for n
    using that e by (auto simp: dd_ok_def delta_days_new_def delta_days_ok_def bound_defs)
  have read: "dd_parse_loop None (0, 0) (p # q # s)
      = Some (last_read (last_read (last_read None y Years) m Months) (delta_days_get (dd_days e)) Days,
          delta_months_get (dd_months e), delta_days_get (dd_days e))"
    using loop by (simp add: cut ym)
  have d: "d = \<lparr>dd_months = DeltaMonths (if neg then - delta_months_get (dd_months e) else delta_months_get (dd_months e)),
      dd_days = DeltaDays (if neg then - delta_days_get (dd_days e) else delta_days_get (dd_days e))\<rparr>"
    by (cases d) (simp add: e_def dd_neg_def delta_months_neg_def delta_days_neg_def)
  have "dd_parse_iso ((if neg then ''-'' else []) @ ''P'' @ p # q # s)
      = Some \<lparr>dd_months = DeltaMonths (if neg then - delta_months_get (dd_months e) else delta_months_get (dd_months e)),
          dd_days = DeltaDays (if neg then - delta_days_get (dd_days e) else delta_days_get (dd_days e))\<rparr>"
    using prev pos by (cases neg) (auto simp: dd_parse_iso_def dd_parse_prefix_def read mnew dnew)
  then show ?thesis by (simp only: out flip: d)
qed

subsection \<open>Both\<close>

definition t_or_end :: "bytes \<Rightarrow> bool" where
  "t_or_end s \<longleftrightarrow> s = [] \<or> hd s = CHR ''T''"

lemma date_loop_end: "t_or_end s \<Longrightarrow> date_components_loop previous md s = (Some md, s)"
  by (subst date_components_loop.simps) (cases s; simp add: t_or_end_def)

definition no_t :: "bytes \<Rightarrow> bool" where
  "no_t = list_all (\<lambda>c. \<not> eq_ignore_case c (CHR ''T''))"

lemma no_t_simps [simp]: "no_t []" "no_t (c # s) \<longleftrightarrow> \<not> eq_ignore_case c (CHR ''T'') \<and> no_t s" "no_t (s @ r) \<longleftrightarrow> no_t s \<and> no_t r"
  by (simp_all add: no_t_def)

lemma digits_no_t: "list_all is_ascii_digit s \<Longrightarrow> no_t s"
  unfolding no_t_def list_all_iff
  by (auto simp: eq_ignore_case_def ascii_lowercase_def is_ascii_digit_def byte_def of_char_of split: if_splits)

lemma unit_text_no_t: "0 \<le> v \<Longrightarrow> c \<in> {CHR ''Y'', CHR ''M'', CHR ''D'', CHR ''H''} \<Longrightarrow> no_t (unit_text v c)"
  using decimal_digits(1) [of v] by (auto simp: unit_text_def intro: digits_no_t)

lemma seconds_text_no_t: "0 \<le> s \<Longrightarrow> subsec_ok x \<Longrightarrow> no_t (seconds_text s x)"
proof -
  assume s: "0 \<le> s" and x: "subsec_ok x"
  have "\<not> eq_ignore_case (CHR ''.'') (CHR ''T'')" by code_simp
  moreover obtain ds where "subsec_get x \<noteq> 0 \<Longrightarrow> subsec_display x = CHR ''.'' # ds \<and> list_all is_ascii_digit ds"
    using subsec_display_digits [OF x] by metis
  ultimately have "no_t (subsec_display x)"
    using digits_no_t [of ds] by (cases "subsec_get x = 0") (simp add: subsec_display_def, simp)
  with s decimal_digits(1) show ?thesis by (simp add: seconds_text_def digits_no_t)
qed

lemma unit_text_head:
  assumes "0 < v"
  shows "unit_text v c @ s \<noteq> [] \<and> \<not> eq_ignore_case ((unit_text v c @ s) ! 0) (CHR ''T'')"
  using decimal_digits(2) [of v] digits_no_t [OF decimal_digits(1), of v] assms
  by (cases "decimal v") (auto simp: unit_text_def)

lemma date_read_days:
  assumes "0 \<le> k" and "k < 10 ^ 8" and "t_or_end s"
  shows "date_components_loop previous (a, b) (unit_text k (CHR ''D'') @ s) = (Some (a, b + k), s)"
  using assms read_component(3) [of k s] unit_text_head [of k "CHR ''D''" s]
  by (cases "k = 0") (simp add: date_loop_end, subst date_components_loop.simps, simp add: add_component_def)

lemma date_read_months:
  assumes "0 \<le> m" and "m < 10 ^ 8" and "0 \<le> k" and "k < 10 ^ 8" and "t_or_end s"
    and "previous = None \<or> previous = Some Years"
  shows "date_components_loop previous (a, b) (unit_text m (CHR ''M'') @ unit_text k (CHR ''D'') @ s)
    = (Some (a + m, b + k), s)"
proof (cases "m = 0")
  case False
  then show ?thesis
    using read_component(2) [of m] assms date_read_days [OF assms(3-5)]
      unit_text_head [of m "CHR ''M''" "unit_text k (CHR ''D'') @ s"]
    by (subst date_components_loop.simps) (simp add: add_component_def)
qed (simp add: date_read_days [OF assms(3-5)])

lemma date_read_years:
  assumes "0 \<le> y" and "y < 10 ^ 8" and "0 \<le> m" and "m < 10 ^ 8" and "0 \<le> k" and "k < 10 ^ 8" and "t_or_end s"
  shows "date_components_loop None (a, b) (calendar_text y m k @ s) = (Some (a + y * 12 + m, b + k), s)"
proof (cases "y = 0")
  case False
  then show ?thesis
    using read_component(1) [of y] assms date_read_months [OF assms(3-7)]
      unit_text_head [of y "CHR ''Y''" "unit_text m (CHR ''M'') @ unit_text k (CHR ''D'') @ s"]
    by (subst date_components_loop.simps) (simp add: add_component_def)
qed (simp add: date_read_months [OF assms(3-7)])

lemma date_part_read:
  assumes "dd_ok d" and "0 \<le> delta_months_get (dd_months d)" and "0 \<le> delta_days_get (dd_days d)" and "t_or_end s"
  shows "parse_date_components (format_components d @ s) = (Some d, s)"
proof -
  obtain y m where fmt: "format_components d = calendar_text y m (delta_days_get (dd_days d))"
    and ym: "delta_months_get (dd_months d) = y * 12 + m" and r: "0 \<le> y" "y < 10 ^ 8" "0 \<le> m" "m < 10 ^ 8"
    "delta_days_get (dd_days d) < 10 ^ 8"
    by (rule calendar_text_of [OF assms(1-3)])
  have "delta_months_new (y * 12 + m) = Some (dd_months d)" "delta_days_new (delta_days_get (dd_days d)) = Some (dd_days d)"
    using assms(1) ym [symmetric] by (simp_all add: dd_ok_def delta_months_new_def delta_days_new_def delta_months_ok_def delta_days_ok_def)
  then show ?thesis
    using date_read_years [OF r(1-4) assms(3) r(5) assms(4), of 0 0]
    by (simp add: fmt parse_date_components_def scan_bind_def scan_match_def scan_lift_def scan_return_def)
qed

lemma last_no_t: "no_t s \<Longrightarrow> s \<noteq> [] \<Longrightarrow> \<not> eq_ignore_case (last s) (CHR ''T'')"
  by (simp add: no_t_def list_all_iff)

lemma clock_text_no_t:
  assumes "td_ok d" and "0 \<le> delta_seconds_get (td_secs d)"
  shows "no_t (fmt_components_abs d)"
proof -
  have sub: "subsec_ok (td_subsec d)" using assms(1) by (simp add: td_ok_def)
  show ?thesis
    by (rule clock_parts [OF assms]) (simp add: sub unit_text_no_t seconds_text_no_t)
qed

lemma date_text_no_t:
  assumes "dd_ok d" and "0 \<le> delta_months_get (dd_months d)" and "0 \<le> delta_days_get (dd_days d)"
  shows "no_t (format_components d)"
  by (rule calendar_text_of [OF assms]) (use assms(3) in \<open>simp add: unit_text_no_t\<close>)

lemma date_text_empty: "dd_is_zero d \<Longrightarrow> format_components d = []"
  by (simp add: dd_is_zero_def delta_months_is_zero_def delta_days_is_zero_def format_components_def)

text \<open>What follows the sign and the \<open>P\<close> of a delta that is not negative.\<close>

definition delta_body :: "datetime_delta \<Rightarrow> bytes" where
  "delta_body x = format_components (dtd_date x)
     @ (if td_is_zero (dtd_time x) then [] else ''T'' @ fmt_components_abs (dtd_time x))"

lemma delta_body_read:
  assumes "dd_ok (dtd_date x)" and "0 \<le> delta_months_get (dd_months (dtd_date x))" and "0 \<le> delta_days_get (dd_days (dtd_date x))"
    and "td_ok (dtd_time x)" and "0 \<le> delta_seconds_get (td_secs (dtd_time x))"
    and "length pre + length (delta_body x) \<ge> 3" and "dd_parse_prefix (pre @ delta_body x) = (Some neg, delta_body x)"
    and "delta_body x \<noteq> []"
  shows "dtd_parse_iso (pre @ delta_body x) = Some (if neg then dtd_neg x else x)"
proof -
  let ?s = "if td_is_zero (dtd_time x) then [] else ''T'' @ fmt_components_abs (dtd_time x)"
  have "\<not> td_is_zero (dtd_time x) \<Longrightarrow> fmt_components_abs (dtd_time x) \<noteq> []"
    using clock_text(2) [OF assms(4,5)] by simp
  then have "\<not> eq_ignore_case (last (delta_body x)) (CHR ''T'')"
    using last_no_t [OF clock_text_no_t [OF assms(4,5)]] last_no_t [OF date_text_no_t [OF assms(1-3)]] assms(8)
    by (auto simp: delta_body_def)
  moreover have "parse_date_components (delta_body x) = (Some (dtd_date x), ?s)"
    unfolding delta_body_def using date_part_read [OF assms(1-3), of ?s] by (simp add: t_or_end_def)
  moreover have "td_from_nanos (as_i128 (td_total_nanos (dtd_time x))) = Some (dtd_time x)"
    using td_total_range [OF assms(4)] assms(4) by (simp add: td_from_nanos_Some delta_nanos_bounds)
  moreover have "td_is_zero (dtd_time x) \<Longrightarrow> dtd_time x = td_zero"
    by (cases x; cases "dtd_time x"; cases "td_secs (dtd_time x)"; cases "td_subsec (dtd_time x)")
      (simp add: td_is_zero_def td_zero_def subsec_min_def)
  ultimately show ?thesis
    using assms(6-8) clock_text(1) [OF assms(4,5)]
    by (auto simp: dtd_parse_iso_def dtd_neg_def)
qed

text \<open>The invariant that \<open>datetime_delta.rs\<close> states: no two parts have opposite signs.\<close>

definition dtd_ok :: "datetime_delta \<Rightarrow> bool" where
  "dtd_ok x \<longleftrightarrow> dd_ok (dtd_date x) \<and> td_ok (dtd_time x)
     \<and> (0 \<le> delta_months_get (dd_months (dtd_date x)) \<and> 0 \<le> delta_days_get (dd_days (dtd_date x)) \<and> 0 \<le> td_total_nanos (dtd_time x)
       \<or> delta_months_get (dd_months (dtd_date x)) \<le> 0 \<and> delta_days_get (dd_days (dtd_date x)) \<le> 0 \<and> td_total_nanos (dtd_time x) \<le> 0)"

definition dtd_negative :: "datetime_delta \<Rightarrow> bool" where
  "dtd_negative x \<longleftrightarrow> delta_seconds_get (td_secs (dtd_time x)) < 0
     \<or> delta_months_get (dd_months (dtd_date x)) < 0 \<or> delta_days_get (dd_days (dtd_date x)) < 0"

lemma delta_body_short:
  assumes "delta_body x = [c]" and "td_ok (dtd_time x)" and "0 \<le> delta_seconds_get (td_secs (dtd_time x))"
    and "dd_ok (dtd_date x)" and "0 \<le> delta_months_get (dd_months (dtd_date x))" and "0 \<le> delta_days_get (dd_days (dtd_date x))"
  shows False
proof -
  have "length (unit_text v u) \<noteq> Suc 0" if "0 \<le> v" for v u
    using decimal_digits(2) [OF that] by (simp add: unit_text_def)
  moreover obtain y m where "format_components (dtd_date x) = calendar_text y m (delta_days_get (dd_days (dtd_date x)))"
    and "0 \<le> y" "0 \<le> m"
    by (rule calendar_text_of [OF assms(4-6)])
  moreover have "a + (b + c) \<noteq> Suc 0" if "a \<noteq> Suc 0" "b \<noteq> Suc 0" "c \<noteq> Suc 0" for a b c :: nat
    using that by arith
  ultimately have "length (format_components (dtd_date x)) \<noteq> Suc 0"
    using assms(6) by (simp only: length_append not_False_eq_True)
  moreover have "\<not> td_is_zero (dtd_time x) \<Longrightarrow> 2 \<le> length (fmt_components_abs (dtd_time x))"
    by (rule clock_text_length [OF assms(2,3)])
  ultimately show False using arg_cong [OF assms(1), of length] by (auto simp: delta_body_def split: if_splits)
qed

lemma dtd_text_roundtrip:
  assumes "dtd_ok x"
  shows "dtd_parse_iso (dtd_fmt_iso x) = Some x"
proof -
  define e where "e = (if dtd_negative x then dtd_neg x else x)"
  have d: "dd_ok (dtd_date x)" and t: "td_ok (dtd_time x)" using assms by (simp_all add: dtd_ok_def)
  have sec: "0 \<le> delta_seconds_get (td_secs y) \<longleftrightarrow> 0 \<le> td_total_nanos y" if "td_ok y" for y
    using td_negative_total [OF that] by (auto simp: td_is_negative_def)
  have e: "dd_ok (dtd_date e)" "td_ok (dtd_time e)" "x = (if dtd_negative x then dtd_neg e else e)"
    using dd_neg_ok d td_neg_exact [OF t] t by (cases x; simp add: e_def dtd_neg_def)+
  have "0 \<le> delta_months_get (dd_months (dtd_date e)) \<and> 0 \<le> delta_days_get (dd_days (dtd_date e)) \<and> 0 \<le> td_total_nanos (dtd_time e)"
    using assms sec [OF t] td_neg_exact(3) [OF t]
    by (auto simp: e_def dtd_negative_def dtd_ok_def dtd_neg_def dd_neg_def delta_months_neg_def delta_days_neg_def)
  then have pos: "0 \<le> delta_months_get (dd_months (dtd_date e))" "0 \<le> delta_days_get (dd_days (dtd_date e))"
    "0 \<le> delta_seconds_get (td_secs (dtd_time e))" using sec [OF e(2)] by simp_all
  show ?thesis
  proof (cases "td_is_zero (dtd_time x) \<and> dd_is_zero (dtd_date x)")
    case True
    have "dtd_parse_iso ''P0D'' = Some dtd_zero" by code_simp
    moreover have "\<not> dtd_negative x" "x = dtd_zero"
      using True by (cases x; cases "dtd_time x"; cases "td_secs (dtd_time x)"; cases "td_subsec (dtd_time x)";
          cases "dtd_date x"; cases "dd_months (dtd_date x)"; cases "dd_days (dtd_date x)";
          simp add: td_is_zero_def dd_is_zero_def delta_months_is_zero_def delta_days_is_zero_def dtd_negative_def
            dtd_zero_def td_zero_def dd_zero_def subsec_min_def)+
    ultimately show ?thesis using True by (simp add: dtd_fmt_iso_def dtd_negative_def)
  next
    case False
    have nz: "\<not> (td_is_zero (dtd_time e) \<and> dd_is_zero (dtd_date e))"
      using False td_zero_total [OF t] td_zero_total [OF e(2)] td_neg_exact(3) [OF t]
      by (auto simp: e_def dtd_neg_def dd_is_zero_def dd_neg_def delta_months_is_zero_def delta_days_is_zero_def
          delta_months_neg_def delta_days_neg_def split: if_splits)
    define pre where "pre = (if dtd_negative x then ''-P'' else ''P'')"
    have out: "dtd_fmt_iso x = pre @ delta_body e"
      using False date_text_empty [of "dtd_date e"]
      by (auto simp: dtd_fmt_iso_def dtd_negative_def [symmetric] e_def delta_body_def pre_def Let_def)
    have ne: "delta_body e \<noteq> []"
    proof
      assume body: "delta_body e = []"
      then have "td_is_zero (dtd_time e)" by (auto simp: delta_body_def split: if_splits)
      moreover have "dd_is_zero (dtd_date e)"
        by (rule calendar_text_of [OF e(1) pos(1,2)])
          (use body in \<open>simp add: delta_body_def dd_is_zero_def delta_months_is_zero_def delta_days_is_zero_def\<close>)
      ultimately show False using nz by blast
    qed
    moreover have "length pre + length (delta_body e) \<ge> 3"
      using ne delta_body_short [OF _ e(2) pos(3) e(1) pos(1,2)]
      by (cases "delta_body e"; cases "tl (delta_body e)") (auto simp: pre_def)
    moreover have "dd_parse_prefix (pre @ delta_body e) = (Some (dtd_negative x), delta_body e)"
      by (simp add: pre_def dd_parse_prefix_def)
    ultimately show ?thesis
      using delta_body_read [OF e(1) pos(1,2) e(2) pos(3)] unfolding out by (simp flip: e(3))
  qed
qed

text \<open>C34. The ISO 8601 text of a duration is read back exactly, for \<open>TimeDelta\<close>,
  \<open>DateDelta\<close> and \<open>DateTimeDelta\<close>: on every value within bounds whose parts
  have no opposite signs, the parser inverts the printer (signs, zero, fractions with their
  trailing zeros dropped, years split from months, absent components).\<close>

theorem delta_text_roundtrip:
  assumes "dtd_ok x"
  shows "td_parse_iso (td_fmt_iso (dtd_time x)) = Inr (dtd_time x)
    \<and> dd_parse_iso (dd_fmt_iso (dtd_date x)) = Some (dtd_date x)
    \<and> dtd_parse_iso (dtd_fmt_iso x) = Some x"
  using assms td_text_roundtrip dd_text_roundtrip dtd_text_roundtrip by (simp add: dtd_ok_def)

theorem delta_text_roundtrip_witness:
  "dtd_parse_iso ''-P1Y2M30DT4H0.05S'' = Some \<lparr>dtd_date = \<lparr>dd_months = DeltaMonths (-14), dd_days = DeltaDays (-30)\<rparr>,
      dtd_time = \<lparr>td_secs = DeltaSeconds (-14401), td_subsec = SubSecNanos 950000000\<rparr>\<rparr>"
proof -
  let ?x = "\<lparr>dtd_date = \<lparr>dd_months = DeltaMonths (-14), dd_days = DeltaDays (-30)\<rparr>,
      dtd_time = \<lparr>td_secs = DeltaSeconds (-14401), td_subsec = SubSecNanos 950000000\<rparr>\<rparr>"
  have "dtd_ok ?x" "dtd_fmt_iso ?x = ''-P1Y2M30DT4H0.05S''" by code_simp+
  with delta_text_roundtrip [of ?x] show ?thesis by simp
qed

text \<open>The parser of \<open>TimeDelta\<close> checks the conversion of the nanoseconds to
  \<open>i128\<close>; the one of \<open>DateTimeDelta\<close> casts, and the largest \<open>u128\<close>
  becomes minus one nanosecond.\<close>

lemma datetime_delta_parse_wraps:
  "td_parse_iso ''PT340282366920938463463374607431.768211455S'' = Inl ParseOutOfRange
   \<and> dtd_parse_iso ''PT340282366920938463463374607431.768211455S''
     = Some \<lparr>dtd_date = dd_zero, dtd_time = td_from_nanos_unchecked (-1)\<rparr>"
  by code_simp

end
