(* ===== verification/Pattern.thy ===== *)
theory Pattern
  imports Iso_Text
begin

section \<open>Patterns (\<open>src/src/common/pattern.rs\<close>)\<close>

text \<open>
  A pattern such as \<open>YYYY-MM-DD hh:mm:ss\<close> is compiled to a list of literals and fields,
  which then formats values and parses texts. The compiler and the parser work with positions in
  a byte slice, as here. Errors are strings in the source; here each message is a constructor
  with the data that the message shows, and \<open>Panicked\<close> stands for the two
  \<open>unreachable!\<close> branches of the parser.
\<close>

subsection \<open>Names\<close>

definition month_abbr :: "bytes list" where
  "month_abbr = ['''', ''Jan'', ''Feb'', ''Mar'', ''Apr'', ''May'', ''Jun'', ''Jul'', ''Aug'', ''Sep'', ''Oct'',
     ''Nov'', ''Dec'']"

definition month_full :: "bytes list" where
  "month_full = ['''', ''January'', ''February'', ''March'', ''April'', ''May'', ''June'', ''July'', ''August'',
     ''September'', ''October'', ''November'', ''December'']"

definition weekday_abbr :: "bytes list" where
  "weekday_abbr = [''Mon'', ''Tue'', ''Wed'', ''Thu'', ''Fri'', ''Sat'', ''Sun'']"

definition weekday_full :: "bytes list" where
  "weekday_full = [''Monday'', ''Tuesday'', ''Wednesday'', ''Thursday'', ''Friday'', ''Saturday'', ''Sunday'']"

definition month_abbr_sorted :: "(int \<times> bytes) list" where
  "month_abbr_sorted = [(1, ''Jan''), (2, ''Feb''), (3, ''Mar''), (4, ''Apr''), (5, ''May''), (6, ''Jun''), (7, ''Jul''),
     (8, ''Aug''), (9, ''Sep''), (10, ''Oct''), (11, ''Nov''), (12, ''Dec'')]"

definition month_full_sorted :: "(int \<times> bytes) list" where
  "month_full_sorted = [(9, ''September''), (11, ''November''), (12, ''December''), (2, ''February''), (8, ''August''),
     (1, ''January''), (10, ''October''), (3, ''March''), (4, ''April''), (7, ''July''), (6, ''June''), (5, ''May'')]"

definition weekday_abbr_sorted :: "(int \<times> bytes) list" where
  "weekday_abbr_sorted = [(0, ''Mon''), (1, ''Tue''), (2, ''Wed''), (3, ''Thu''), (4, ''Fri''), (5, ''Sat''), (6, ''Sun'')]"

definition weekday_full_sorted :: "(int \<times> bytes) list" where
  "weekday_full_sorted = [(2, ''Wednesday''), (3, ''Thursday''), (5, ''Saturday''), (4, ''Friday''), (0, ''Monday''),
     (6, ''Sunday''), (1, ''Tuesday'')]"

subsection \<open>Fields\<close>

datatype category = CatDate | CatTime | CatOffset | CatTz

text \<open>A \<open>CategorySet\<close> is a mask of one byte.\<close>

definition set_date :: int where "set_date = 1"
definition set_time :: int where "set_time = 2"
definition set_date_time :: int where "set_date_time = 3"
definition set_date_time_offset :: int where "set_date_time_offset = 7"
definition set_date_time_offset_tz :: int where "set_date_time_offset_tz = 15"

definition category_bit :: "category \<Rightarrow> nat" where
  "category_bit c = (case c of CatDate \<Rightarrow> 0 | CatTime \<Rightarrow> 1 | CatOffset \<Rightarrow> 2 | CatTz \<Rightarrow> 3)"

definition category_set_contains :: "int \<Rightarrow> category \<Rightarrow> bool" where
  "category_set_contains s c \<longleftrightarrow> bit s (category_bit c)"

datatype field =
    Year4 | Year2 | MonthNum | MonthNumUnpadded | MonthAbbr | MonthFull | Day | DayUnpadded
  | WeekdayAbbr | WeekdayFull | Hour24 | Hour24Unpadded | Hour12 | Hour12Unpadded
  | Minute | MinuteUnpadded | Second | SecondUnpadded | SecondOpt | ColonSec
  | FracExact nat | FracTrim nat | DotFrac nat | AmPmShort | AmPmFull
  | OffsetLower nat | OffsetUpper nat | TzId | TzAbbrev

datatype element = Literal bytes | Field field

fun field_category :: "field \<Rightarrow> category" where
  "field_category Year4 = CatDate" | "field_category Year2 = CatDate"
| "field_category MonthNum = CatDate" | "field_category MonthNumUnpadded = CatDate"
| "field_category MonthAbbr = CatDate" | "field_category MonthFull = CatDate"
| "field_category Day = CatDate" | "field_category DayUnpadded = CatDate"
| "field_category WeekdayAbbr = CatDate" | "field_category WeekdayFull = CatDate"
| "field_category (OffsetLower w) = CatOffset" | "field_category (OffsetUpper w) = CatOffset"
| "field_category TzId = CatTz" | "field_category TzAbbrev = CatTz"
| "field_category _ = CatTime"

text \<open>The key is never absent in the source either.\<close>

fun state_key :: "field \<Rightarrow> nat" where
  "state_key Year4 = 0" | "state_key Year2 = 0"
| "state_key MonthNum = 1" | "state_key MonthNumUnpadded = 1" | "state_key MonthAbbr = 1" | "state_key MonthFull = 1"
| "state_key Day = 2" | "state_key DayUnpadded = 2"
| "state_key WeekdayAbbr = 3" | "state_key WeekdayFull = 3"
| "state_key Hour24 = 4" | "state_key Hour24Unpadded = 4" | "state_key Hour12 = 4" | "state_key Hour12Unpadded = 4"
| "state_key Minute = 5" | "state_key MinuteUnpadded = 5"
| "state_key Second = 6" | "state_key SecondUnpadded = 6" | "state_key SecondOpt = 6" | "state_key ColonSec = 6"
| "state_key (FracExact w) = 7" | "state_key (FracTrim w) = 7" | "state_key (DotFrac w) = 7"
| "state_key AmPmShort = 8" | "state_key AmPmFull = 8"
| "state_key (OffsetLower w) = 9" | "state_key (OffsetUpper w) = 9"
| "state_key TzId = 10" | "state_key TzAbbrev = 11"

definition is_format_only :: "field \<Rightarrow> bool" where
  "is_format_only f \<longleftrightarrow> f = Year2 \<or> f = TzAbbrev"

text \<open>The name of a field with a width is its letter repeated.\<close>

definition repeated :: "nat \<Rightarrow> nat \<Rightarrow> char \<Rightarrow> bytes" where
  "repeated w most c = replicate (if 1 \<le> w \<and> w < most then w else most) c"

fun display_name :: "field \<Rightarrow> bytes" where
  "display_name Year4 = ''YYYY''" | "display_name Year2 = ''YY''"
| "display_name MonthNum = ''MM''" | "display_name MonthNumUnpadded = ''M''"
| "display_name MonthAbbr = ''MMM''" | "display_name MonthFull = ''MMMM''"
| "display_name Day = ''DD''" | "display_name DayUnpadded = ''D''"
| "display_name WeekdayAbbr = ''EEE''" | "display_name WeekdayFull = ''EEEE''"
| "display_name Hour24 = ''hh''" | "display_name Hour24Unpadded = ''h''"
| "display_name Hour12 = ''ii''" | "display_name Hour12Unpadded = ''i''"
| "display_name Minute = ''mm''" | "display_name MinuteUnpadded = ''m''"
| "display_name Second = ''ss''" | "display_name SecondUnpadded = ''s''"
| "display_name SecondOpt = ''SS''" | "display_name ColonSec = '':SS''"
| "display_name (FracExact w) = repeated w 9 (CHR ''f'')" | "display_name (FracTrim w) = repeated w 9 (CHR ''F'')"
| "display_name (DotFrac w) = ''.'' @ repeated w 9 (CHR ''F'')"
| "display_name AmPmShort = ''a''" | "display_name AmPmFull = ''aa''"
| "display_name (OffsetLower w) = repeated w 5 (CHR ''x'')" | "display_name (OffsetUpper w) = repeated w 5 (CHR ''X'')"
| "display_name TzId = ''VV''" | "display_name TzAbbrev = ''zz''"

datatype pattern_error =
    PatternTooLong | NonAscii nat | Unterminated | TooMany char | BadCount char nat nat
  | UnrecognizedChar char nat | ReservedChar char nat | UnexpectedChar char nat
  | Duplicate bytes bytes nat | Hour24WithAmPm
  | NotAvailable field
  | InputTooLong | ExpectedText bytes nat | FormatOnly bytes | TrailingText nat
  | InputTooShort nat nat | ExpectedDigits nat nat | ExpectedOneOrTwoDigits nat | CannotParseName nat
  | ExpectedSign nat | ExpectedColon nat | OffsetMinutesRange | OffsetSecondsRange
  | YearRange int | MonthRange int | Hour12Range int | ExpectedAmPm nat | ExpectedTzId nat
  | Panicked

subsection \<open>Compiling a pattern\<close>

definition is_literal_char :: "char \<Rightarrow> bool" where
  "is_literal_char c \<longleftrightarrow> is_ascii_digit c \<or> byte c \<in> {32, 9, 10}
     \<or> c \<in> set ''-/,;_()+@!~*&%$^|=?'' \<or> byte c \<in> {92, 96, 34}"

definition is_pending_char :: "char \<Rightarrow> bool" where
  "is_pending_char c \<longleftrightarrow> c = CHR ''.'' \<or> c = CHR '':''"

definition is_reserved_char :: "char \<Rightarrow> bool" where
  "is_reserved_char c \<longleftrightarrow> c \<in> set ''<>[]{}#''"

definition is_spec_char :: "char \<Rightarrow> bool" where
  "is_spec_char c \<longleftrightarrow> c \<in> set ''YMDEhimsSfFaVzxX''"

definition is_ascii_alphabetic :: "char \<Rightarrow> bool" where
  "is_ascii_alphabetic c \<longleftrightarrow> 65 \<le> byte c \<and> byte c \<le> 90 \<or> 97 \<le> byte c \<and> byte c \<le> 122"

abbreviation quote :: char where "quote \<equiv> CHR 0x27"

text \<open>The index at which a loop \<open>while i < n && p(pattern[i]) { i += 1 }\<close> stops.\<close>

definition run_end :: "(char \<Rightarrow> bool) \<Rightarrow> bytes \<Rightarrow> nat \<Rightarrow> nat" where
  "run_end p s i = i + length (takeWhile p (drop i s))"

definition compile_quoted_literal :: "bytes \<Rightarrow> nat \<Rightarrow> element list \<Rightarrow> pattern_error + nat \<times> element list" where
  "compile_quoted_literal pattern start elements =
     (let n = length pattern; i = start + 1
      in if i < n \<and> pattern ! i = quote then Inr (i + 1, elements @ [Literal [pattern ! i]])
         else (let e = run_end (\<lambda>c. c \<noteq> quote) pattern i
               in if e \<ge> n then Inl Unterminated
                  else Inr (e + 1, elements @ (if e > i then [Literal (take (e - i) (drop i pattern))] else []))))"

definition bad_count_err :: "char \<Rightarrow> nat \<Rightarrow> nat \<Rightarrow> pattern_error" where
  "bad_count_err c count start = BadCount c count start"

text \<open>The \<open>match\<close> on the letter and the number of repetitions.\<close>

definition specifier_field :: "char \<Rightarrow> nat \<Rightarrow> nat \<Rightarrow> pattern_error + field" where
  "specifier_field c count start =
     (let one_of = (\<lambda>fs. case map_of fs count of Some f \<Rightarrow> Inr f | None \<Rightarrow> Inl (bad_count_err c count start))
      in if c = CHR ''f'' then (if count > 9 then Inl (TooMany c) else Inr (FracExact count))
         else if c = CHR ''F'' then (if count > 9 then Inl (TooMany c) else Inr (FracTrim count))
         else if c = CHR ''x'' then (if count > 5 then Inl (TooMany c) else Inr (OffsetLower count))
         else if c = CHR ''X'' then (if count > 5 then Inl (TooMany c) else Inr (OffsetUpper count))
         else if c = CHR ''Y'' then one_of [(4, Year4), (2, Year2)]
         else if c = CHR ''M'' then one_of [(1, MonthNumUnpadded), (2, MonthNum), (3, MonthAbbr), (4, MonthFull)]
         else if c = CHR ''D'' then one_of [(1, DayUnpadded), (2, Day)]
         else if c = CHR ''E'' then one_of [(3, WeekdayAbbr), (4, WeekdayFull)]
         else if c = CHR ''h'' then one_of [(1, Hour24Unpadded), (2, Hour24)]
         else if c = CHR ''i'' then one_of [(1, Hour12Unpadded), (2, Hour12)]
         else if c = CHR ''m'' then one_of [(1, MinuteUnpadded), (2, Minute)]
         else if c = CHR ''s'' then one_of [(1, SecondUnpadded), (2, Second)]
         else if c = CHR ''S'' then one_of [(2, SecondOpt)]
         else if c = CHR ''a'' then one_of [(1, AmPmShort), (2, AmPmFull)]
         else if c = CHR ''V'' then one_of [(2, TzId)]
         else if c = CHR ''z'' then one_of [(2, TzAbbrev)]
         else Inl Panicked)"

definition compile_specifier :: "bytes \<Rightarrow> nat \<Rightarrow> pattern_error + nat \<times> field" where
  "compile_specifier pattern start =
     (let c = pattern ! start;
          count = run_end (\<lambda>b. b = c) pattern (start + 1) - start
      in case specifier_field c count start of Inl e \<Rightarrow> Inl e | Inr f \<Rightarrow> Inr (start + count, f))"

text \<open>What a pending \<open>.\<close> or \<open>:\<close> and the field after it become.\<close>

definition combine_pending :: "bytes \<Rightarrow> nat option \<Rightarrow> field \<Rightarrow> element list" where
  "combine_pending pattern pending f =
     (case pending of
        None \<Rightarrow> [Field f]
      | Some pos \<Rightarrow>
          (case f of
             FracTrim w \<Rightarrow> if pattern ! pos = CHR ''.'' then [Field (DotFrac w)] else [Literal [pattern ! pos], Field f]
           | SecondOpt \<Rightarrow> if pattern ! pos = CHR '':'' then [Field ColonSec] else [Literal [pattern ! pos], Field f]
           | _ \<Rightarrow> [Literal [pattern ! pos], Field f]))"

definition flush_pending :: "bytes \<Rightarrow> nat option \<Rightarrow> element list" where
  "flush_pending pattern pending = (case pending of None \<Rightarrow> [] | Some pos \<Rightarrow> [Literal [pattern ! pos]])"

lemma run_end_ge: "i \<le> run_end p s i"
  by (simp add: run_end_def)

lemma compile_quoted_literal_advances:
  "compile_quoted_literal pattern i els = Inr (j, els') \<Longrightarrow> i < j"
  using run_end_ge [of "Suc i" "\<lambda>c. c \<noteq> quote" pattern]
  by (auto simp: compile_quoted_literal_def Let_def split: if_splits)

lemma compile_specifier_advances: "compile_specifier pattern i = Inr (j, f) \<Longrightarrow> i < j"
  using run_end_ge [of "Suc i" "\<lambda>b. b = pattern ! i" pattern]
  by (auto simp: compile_specifier_def Let_def split: sum.splits)

lemma literal_run_advances: "i < length s \<Longrightarrow> p (s ! i) \<Longrightarrow> i < run_end p s i"
  by (simp add: run_end_def) (metis Cons_nth_drop_Suc list.distinct(1) takeWhile.simps(2) length_greater_0_conv)

text \<open>The loop of \<open>compile\<close>: the position, the pending prefix, and the elements so far.\<close>

function compile_loop :: "bytes \<Rightarrow> nat \<Rightarrow> nat option \<Rightarrow> element list \<Rightarrow> pattern_error + element list" where
  "compile_loop pattern i pending elements =
     (if i \<ge> length pattern then Inr (elements @ flush_pending pattern pending)
      else
        (let c = pattern ! i
         in if byte c \<ge> 128 then Inl (NonAscii i)
            else if c = quote then
              (case compile_quoted_literal pattern i (elements @ flush_pending pattern pending) of
                 Inl e \<Rightarrow> Inl e
               | Inr (j, els) \<Rightarrow> compile_loop pattern j None els)
            else if is_spec_char c then
              (case compile_specifier pattern i of
                 Inl e \<Rightarrow> Inl e
               | Inr (j, f) \<Rightarrow> compile_loop pattern j None (elements @ combine_pending pattern pending f))
            else
              (let els = elements @ flush_pending pattern pending
               in if is_ascii_alphabetic c then Inl (UnrecognizedChar c i)
                  else if is_reserved_char c then Inl (ReservedChar c i)
                  else if is_pending_char c then compile_loop pattern (i + 1) (Some i) els
                  else if is_literal_char c then
                    (let j = run_end is_literal_char pattern i
                     in compile_loop pattern j None (els @ [Literal (take (j - i) (drop i pattern))]))
                  else Inl (UnexpectedChar c i))))"
  by pat_completeness auto
termination
  by (relation "measure (\<lambda>(pattern, i, _). length pattern - i)")
    (auto dest!: compile_quoted_literal_advances compile_specifier_advances
      dest: compile_quoted_literal_advances [OF sym] compile_specifier_advances [OF sym]
      intro!: diff_less_mono2 literal_run_advances simp: not_le)

declare compile_loop.simps [simp del]

text \<open>The fields that were seen, by their key, with the names that the messages show.\<close>

fun cross_fields_loop :: "bool \<Rightarrow> bool \<Rightarrow> (nat \<rightharpoonup> bytes) \<Rightarrow> element list \<Rightarrow> pattern_error + bool \<times> bool" where
  "cross_fields_loop has_24h has_ampm seen [] = Inr (has_24h, has_ampm)"
| "cross_fields_loop has_24h has_ampm seen (Literal _ # els) = cross_fields_loop has_24h has_ampm seen els"
| "cross_fields_loop has_24h has_ampm seen (Field f # els) =
     (let has_24h' = (has_24h \<or> f = Hour24 \<or> f = Hour24Unpadded);
          has_ampm' = (has_ampm \<or> f = AmPmShort \<or> f = AmPmFull);
          key = state_key f
      in case seen key of
           Some prev \<Rightarrow> Inl (Duplicate (display_name f) prev key)
         | None \<Rightarrow> cross_fields_loop has_24h' has_ampm' (seen(key \<mapsto> display_name f)) els)"

definition validate_cross_fields :: "element list \<Rightarrow> pattern_error + unit" where
  "validate_cross_fields elements =
     (case cross_fields_loop False False Map.empty elements of
        Inl e \<Rightarrow> Inl e
      | Inr (has_24h, has_ampm) \<Rightarrow> if has_24h \<and> has_ampm then Inl Hour24WithAmPm else Inr ())"

definition state_key_name :: "nat \<Rightarrow> bytes" where
  "state_key_name key = [''year'', ''month'', ''day'', ''weekday'', ''hour'', ''minute'', ''second'', ''nanos'', ''ampm'',
     ''offset_secs'', ''tz_id'', ''tz_abbrev''] ! key"

definition pattern_compile :: "bytes \<Rightarrow> pattern_error + element list" where
  "pattern_compile pattern =
     (if length pattern > 1000 then Inl PatternTooLong
      else case compile_loop pattern 0 None [] of
             Inl e \<Rightarrow> Inl e
           | Inr els \<Rightarrow> (case validate_cross_fields els of Inl e \<Rightarrow> Inl e | Inr _ \<Rightarrow> Inr els))"

definition has_12h_without_ampm :: "element list \<Rightarrow> bool" where
  "has_12h_without_ampm elements \<longleftrightarrow>
     (Field Hour12 \<in> set elements \<or> Field Hour12Unpadded \<in> set elements)
     \<and> \<not> (Field AmPmShort \<in> set elements \<or> Field AmPmFull \<in> set elements)"

text \<open>The first field that the type does not support.\<close>

fun validate_fields :: "element list \<Rightarrow> int \<Rightarrow> field option" where
  "validate_fields [] allowed = None"
| "validate_fields (Literal _ # els) allowed = validate_fields els allowed"
| "validate_fields (Field f # els) allowed =
     (if category_set_contains allowed (field_category f) then validate_fields els allowed else Some f)"

subsection \<open>Formatting\<close>

record pattern_values =
  pv_year :: year
  pv_month :: month
  pv_day :: int
  pv_weekday :: weekday
  pv_hour :: int
  pv_minute :: int
  pv_second :: int
  pv_nanos :: subsec_nanos
  pv_offset_secs :: "offset option"
  pv_tz_id :: "bytes option"
  pv_tz_abbrev :: "bytes option"

definition pdt_pattern_values :: "plain_datetime \<Rightarrow> pattern_values" where
  "pdt_pattern_values p =
     \<lparr>pv_year = d_year (pdt_date p), pv_month = d_month (pdt_date p), pv_day = d_day (pdt_date p),
      pv_weekday = date_day_of_week (pdt_date p), pv_hour = t_hour (pdt_time p), pv_minute = t_minute (pdt_time p),
      pv_second = t_second (pdt_time p), pv_nanos = t_subsec (pdt_time p), pv_offset_secs = None,
      pv_tz_id = None, pv_tz_abbrev = None\<rparr>"

definition date_pattern_values :: "date \<Rightarrow> pattern_values" where
  "date_pattern_values d = pdt_pattern_values (date_at d time_min)"

definition time_pattern_values :: "time \<Rightarrow> pattern_values" where
  "time_pattern_values t = pdt_pattern_values (date_at date_min t)"

definition pv_with_offset :: "pattern_values \<Rightarrow> offset \<Rightarrow> pattern_values" where
  "pv_with_offset v x = v\<lparr>pv_offset_secs := Some x\<rparr>"

definition pv_with_timezone :: "pattern_values \<Rightarrow> bytes \<Rightarrow> bytes \<Rightarrow> pattern_values" where
  "pv_with_timezone v id' abbreviation = v\<lparr>pv_tz_id := Some id', pv_tz_abbrev := Some abbreviation\<rparr>"

text \<open>The buffer of nine digits that the loop fills from the right.\<close>

definition nanos_buf :: "subsec_nanos \<Rightarrow> bytes" where
  "nanos_buf x = map (\<lambda>i. digit_char (subsec_get x div 10 ^ (8 - i) mod 10)) [0..<9]"

definition write_nanos_digits :: "subsec_nanos \<Rightarrow> nat \<Rightarrow> bytes" where
  "write_nanos_digits nanos width = take width (nanos_buf nanos)"

text \<open>Up to the last digit that is not zero (\<open>rposition\<close>).\<close>

definition write_nanos_trimmed :: "subsec_nanos \<Rightarrow> nat \<Rightarrow> bytes" where
  "write_nanos_trimmed nanos width =
     rev (dropWhile (\<lambda>c. c = CHR ''0'') (rev (take width (nanos_buf nanos))))"

definition frac_trim_is_empty :: "subsec_nanos \<Rightarrow> nat \<Rightarrow> bool" where
  "frac_trim_is_empty nanos width \<longleftrightarrow> subsec_get nanos < 10 ^ (9 - width)"

definition write_offset :: "int \<Rightarrow> nat \<Rightarrow> bool \<Rightarrow> bytes" where
  "write_offset secs width use_z =
     (if secs = 0 \<and> use_z then ''Z''
      else
        (let total = \<bar>secs\<bar>;
             oh = as_u8 (total div 3600);
             remainder = total mod 3600;
             om = as_u8 (remainder div 60);
             os = as_u8 (remainder mod 60);
             h = format_2_digits oh;
             m = format_2_digits om;
             s_digits = format_2_digits os
         in (if secs \<ge> 0 then ''+'' else ''-'') @ h
            @ (if width = 1 then []
               else if width = 2 then m
               else if width = 3 then '':'' @ m
               else if width = 4 then m @ (if os \<noteq> 0 then s_digits else [])
               else '':'' @ m @ (if os \<noteq> 0 then '':'' @ s_digits else []))))"

definition fmt_unpadded :: "int \<Rightarrow> bytes" where
  "fmt_unpadded v = (if v < 10 then [digit_char v] else [digit_char (v div 10), digit_char (v mod 10)])"

definition hour_12 :: "int \<Rightarrow> int" where
  "hour_12 h = (if h mod 12 = 0 then 12 else h mod 12)"

fun write_field :: "field \<Rightarrow> pattern_values \<Rightarrow> pattern_error + bytes" where
  "write_field Year4 v = Inr (format_4_digits (year_get (pv_year v)))"
| "write_field Year2 v = Inr (format_2_digits (as_u8 (year_get (pv_year v) mod 100)))"
| "write_field MonthNum v = Inr (format_2_digits (month_get (pv_month v)))"
| "write_field MonthNumUnpadded v = Inr (fmt_unpadded (month_get (pv_month v)))"
| "write_field MonthAbbr v = Inr (month_abbr ! nat (month_get (pv_month v)))"
| "write_field MonthFull v = Inr (month_full ! nat (month_get (pv_month v)))"
| "write_field Day v = Inr (format_2_digits (pv_day v))"
| "write_field DayUnpadded v = Inr (fmt_unpadded (pv_day v))"
| "write_field WeekdayAbbr v = Inr (weekday_abbr ! (nat (weekday_iso (pv_weekday v)) - 1))"
| "write_field WeekdayFull v = Inr (weekday_full ! (nat (weekday_iso (pv_weekday v)) - 1))"
| "write_field Hour24 v = Inr (format_2_digits (pv_hour v))"
| "write_field Hour24Unpadded v = Inr (fmt_unpadded (pv_hour v))"
| "write_field Hour12 v = Inr (format_2_digits (hour_12 (pv_hour v)))"
| "write_field Hour12Unpadded v = Inr (fmt_unpadded (hour_12 (pv_hour v)))"
| "write_field Minute v = Inr (format_2_digits (pv_minute v))"
| "write_field MinuteUnpadded v = Inr (fmt_unpadded (pv_minute v))"
| "write_field Second v = Inr (format_2_digits (pv_second v))"
| "write_field SecondUnpadded v = Inr (fmt_unpadded (pv_second v))"
| "write_field SecondOpt v =
     Inr (if pv_second v > 0 \<or> subsec_get (pv_nanos v) > 0 then format_2_digits (pv_second v) else [])"
| "write_field ColonSec v =
     Inr (if pv_second v > 0 \<or> subsec_get (pv_nanos v) > 0 then '':'' @ format_2_digits (pv_second v) else [])"
| "write_field (FracExact w) v = Inr (write_nanos_digits (pv_nanos v) w)"
| "write_field (FracTrim w) v = Inr (write_nanos_trimmed (pv_nanos v) w)"
| "write_field (DotFrac w) v =
     Inr (if \<not> frac_trim_is_empty (pv_nanos v) w then ''.'' @ write_nanos_trimmed (pv_nanos v) w else [])"
| "write_field AmPmShort v = Inr (if pv_hour v < 12 then ''A'' else ''P'')"
| "write_field AmPmFull v = Inr (if pv_hour v < 12 then ''AM'' else ''PM'')"
| "write_field (OffsetLower w) v =
     (case pv_offset_secs v of None \<Rightarrow> Inl (NotAvailable (OffsetLower w)) | Some x \<Rightarrow> Inr (write_offset (offset_get x) w False))"
| "write_field (OffsetUpper w) v =
     (case pv_offset_secs v of None \<Rightarrow> Inl (NotAvailable (OffsetUpper w)) | Some x \<Rightarrow> Inr (write_offset (offset_get x) w True))"
| "write_field TzId v = (case pv_tz_id v of None \<Rightarrow> Inl (NotAvailable TzId) | Some x \<Rightarrow> Inr x)"
| "write_field TzAbbrev v = (case pv_tz_abbrev v of None \<Rightarrow> Inl (NotAvailable TzAbbrev) | Some x \<Rightarrow> Inr x)"

fun format_elements :: "element list \<Rightarrow> pattern_values \<Rightarrow> pattern_error + bytes" where
  "format_elements [] v = Inr []"
| "format_elements (Literal l # els) v =
     (case format_elements els v of Inl e \<Rightarrow> Inl e | Inr r \<Rightarrow> Inr (l @ r))"
| "format_elements (Field f # els) v =
     (case write_field f v of Inl e \<Rightarrow> Inl e
      | Inr x \<Rightarrow> (case format_elements els v of Inl e \<Rightarrow> Inl e | Inr r \<Rightarrow> Inr (x @ r)))"

subsection \<open>Parsing\<close>

datatype am_pm = Am | Pm

record parse_state =
  ps_year :: "year option"
  ps_month :: "month option"
  ps_day :: "int option"
  ps_hour :: "int option"
  ps_minute :: "int option"
  ps_second :: "int option"
  ps_nanos :: subsec_nanos
  ps_ampm :: "am_pm option"
  ps_offset_secs :: "offset option"
  ps_tz_id :: "bytes option"
  ps_weekday :: "weekday option"
  ps_second_absent :: bool

definition ps_default :: parse_state where
  "ps_default =
     \<lparr>ps_year = None, ps_month = None, ps_day = None, ps_hour = None, ps_minute = None, ps_second = None,
      ps_nanos = SubSecNanos 0, ps_ampm = None, ps_offset_secs = None, ps_tz_id = None, ps_weekday = None,
      ps_second_absent = False\<rparr>"

definition ps_resolve :: "parse_state \<Rightarrow> parse_state" where
  "ps_resolve st =
     (case (ps_ampm st, ps_hour st) of
        (Some Pm, Some hour) \<Rightarrow> if hour < 12 then st\<lparr>ps_hour := Some (hour + 12)\<rparr> else st
      | (Some Am, Some hour) \<Rightarrow> if hour = 12 then st\<lparr>ps_hour := Some 0\<rparr> else st
      | _ \<Rightarrow> st)"

text \<open>The loop over the digits of \<open>parse_digits\<close>.\<close>

fun digits_loop :: "bytes \<Rightarrow> int \<Rightarrow> int option" where
  "digits_loop [] v = Some v"
| "digits_loop (b # s) v = (if is_ascii_digit b then digits_loop s (v * 10 + digit_val b) else None)"

definition parse_digits :: "bytes \<Rightarrow> nat \<Rightarrow> nat \<Rightarrow> pattern_error + int \<times> nat" where
  "parse_digits s pos count =
     (if pos + count > length s then Inl (InputTooShort count pos)
      else case digits_loop (take count (drop pos s)) 0 of
             None \<Rightarrow> Inl (ExpectedDigits count pos)
           | Some v \<Rightarrow> Inr (v, pos + count))"

definition parse_1or2_digits :: "bytes \<Rightarrow> nat \<Rightarrow> pattern_error + int \<times> nat" where
  "parse_1or2_digits s pos =
     (if pos \<ge> length s \<or> \<not> is_ascii_digit (s ! pos) then Inl (ExpectedOneOrTwoDigits pos)
      else if pos + 1 < length s \<and> is_ascii_digit (s ! (pos + 1))
      then Inr (digit_val (s ! pos) * 10 + digit_val (s ! (pos + 1)), pos + 2)
      else Inr (digit_val (s ! pos), pos + 1))"

text \<open>\<open>&s[pos..]\<close> would panic beyond the end; positions never pass it.\<close>

fun parse_name_match :: "bytes \<Rightarrow> nat \<Rightarrow> (int \<times> bytes) list \<Rightarrow> pattern_error + int \<times> nat" where
  "parse_name_match s pos [] = Inl (CannotParseName pos)"
| "parse_name_match s pos ((v, name) # candidates) =
     (if length (drop pos s) \<ge> length name
         \<and> list_all2 eq_ignore_case (take (length name) (drop pos s)) name
      then Inr (v, pos + length name) else parse_name_match s pos candidates)"

definition char_at :: "bytes \<Rightarrow> nat \<Rightarrow> (char \<Rightarrow> bool) \<Rightarrow> bool" where
  "char_at s pos p \<longleftrightarrow> pos < length s \<and> p (s ! pos)"

definition err_bind :: "'e + 'a \<Rightarrow> ('a \<Rightarrow> 'e + 'b) \<Rightarrow> 'e + 'b" where
  "err_bind r f = (case r of Inl e \<Rightarrow> Inl e | Inr x \<Rightarrow> f x)"

text \<open>The seconds of an offset, where the width asks for them.\<close>

definition parse_offset_seconds :: "bytes \<Rightarrow> nat \<Rightarrow> nat \<Rightarrow> pattern_error + int \<times> nat" where
  "parse_offset_seconds s p width =
     (if width \<ge> 4 then
        err_bind (if width = 5 \<and> char_at s p (\<lambda>c. c = CHR '':'') then parse_digits s (p + 1) 2
                  else if width \<noteq> 5 \<and> char_at s p is_ascii_digit then parse_digits s p 2
                  else Inr (0, p))
          (\<lambda>(os, p). if os \<ge> 60 then Inl OffsetSecondsRange else Inr (os, p))
      else Inr (0, p))"

definition parse_offset_value :: "bytes \<Rightarrow> nat \<Rightarrow> nat \<Rightarrow> bool \<Rightarrow> pattern_error + int \<times> nat" where
  "parse_offset_value s pos width accept_z =
     (if accept_z \<and> char_at s pos (\<lambda>c. c = CHR ''Z'') then Inr (0, pos + 1)
      else if \<not> char_at s pos (\<lambda>c. c = CHR ''+'' \<or> c = CHR ''-'') then Inl (ExpectedSign pos)
      else
        (let sign = (if s ! pos = CHR ''+'' then 1 else -1)
         in err_bind (parse_digits s (pos + 1) 2) (\<lambda>(oh, p).
              if width = 1 then Inr (sign * oh * 3600, p)
              else
                err_bind (if width = 2 \<or> width = 4 then parse_digits s p 2
                          else if \<not> char_at s p (\<lambda>c. c = CHR '':'') then Inl (ExpectedColon p)
                          else parse_digits s (p + 1) 2) (\<lambda>(om, p).
                if om \<ge> 60 then Inl OffsetMinutesRange
                else err_bind (parse_offset_seconds s p width) (\<lambda>(os, p).
                       Inr (sign * (oh * 3600 + om * 60 + os), p))))))"

text \<open>The number of digits at a position, at most \<open>width\<close>.\<close>

definition digit_run :: "bytes \<Rightarrow> nat \<Rightarrow> nat \<Rightarrow> nat" where
  "digit_run s pos width = length (takeWhile is_ascii_digit (take width (drop pos s)))"

definition digits_fold :: "bytes \<Rightarrow> int" where
  "digits_fold = foldl (\<lambda>acc b. acc * 10 + digit_val b) 0"

definition parse_dot_frac :: "bytes \<Rightarrow> nat \<Rightarrow> nat \<Rightarrow> parse_state \<Rightarrow> nat \<times> parse_state" where
  "parse_dot_frac s pos width st =
     (if char_at s pos (\<lambda>c. c = CHR ''.'') then
        (let start = pos + 1;
             count = digit_run s start width
         in (start + count,
             if count = 0 then st\<lparr>ps_nanos := SubSecNanos subsec_min\<rparr>
             else st\<lparr>ps_nanos := SubSecNanos (digits_fold (take count (drop start s)) * 10 ^ (9 - count))\<rparr>))
      else (pos, st\<lparr>ps_nanos := SubSecNanos subsec_min\<rparr>))"

text \<open>A leap second is read as 59.\<close>

definition leap_second :: "int \<Rightarrow> int" where
  "leap_second v = (if v = 60 then 59 else as_u8 v)"

text \<open>\<open>ok_or_else\<close> on an optional value.\<close>

definition or_err :: "'a option \<Rightarrow> 'e \<Rightarrow> 'e + 'a" where
  "or_err x e = (case x of None \<Rightarrow> Inl e | Some y \<Rightarrow> Inr y)"

definition parse_hour_12 :: "int \<times> nat \<Rightarrow> parse_state \<Rightarrow> pattern_error + nat \<times> parse_state" where
  "parse_hour_12 r st =
     (case r of (v, p) \<Rightarrow>
        if \<not> (1 \<le> v \<and> v \<le> 12) then Inl (Hour12Range v) else Inr (p, st\<lparr>ps_hour := Some (as_u8 v)\<rparr>))"

definition parse_am_pm :: "bytes \<Rightarrow> nat \<Rightarrow> nat \<Rightarrow> parse_state \<Rightarrow> pattern_error + nat \<times> parse_state" where
  "parse_am_pm s pos len st =
     (if pos + len > length s then Inl (ExpectedAmPm pos)
      else
        (let chunk = map ascii_uppercase (take len (drop pos s))
         in if chunk = take len ''AM'' then Inr (pos + len, st\<lparr>ps_ampm := Some Am\<rparr>)
            else if chunk = take len ''PM'' then Inr (pos + len, st\<lparr>ps_ampm := Some Pm\<rparr>)
            else Inl (ExpectedAmPm pos)))"

fun parse_field :: "field \<Rightarrow> bytes \<Rightarrow> nat \<Rightarrow> parse_state \<Rightarrow> pattern_error + nat \<times> parse_state" where
  "parse_field Year4 s pos st = err_bind (parse_digits s pos 4) (\<lambda>(v, p).
     err_bind (or_err (year_new (as_u16 v)) (YearRange v)) (\<lambda>y. Inr (p, st\<lparr>ps_year := Some y\<rparr>)))"
| "parse_field Year2 s pos st = Inl Panicked"
| "parse_field MonthNum s pos st = err_bind (parse_digits s pos 2) (\<lambda>(v, p).
     err_bind (or_err (month_new (as_u8 v)) (MonthRange v)) (\<lambda>m. Inr (p, st\<lparr>ps_month := Some m\<rparr>)))"
| "parse_field MonthNumUnpadded s pos st = err_bind (parse_1or2_digits s pos) (\<lambda>(v, p).
     err_bind (or_err (month_new (as_u8 v)) (MonthRange v)) (\<lambda>m. Inr (p, st\<lparr>ps_month := Some m\<rparr>)))"
| "parse_field MonthAbbr s pos st = err_bind (parse_name_match s pos month_abbr_sorted) (\<lambda>(v, p).
     Inr (p, st\<lparr>ps_month := Some (month_new_unchecked (as_u8 v))\<rparr>))"
| "parse_field MonthFull s pos st = err_bind (parse_name_match s pos month_full_sorted) (\<lambda>(v, p).
     Inr (p, st\<lparr>ps_month := Some (month_new_unchecked (as_u8 v))\<rparr>))"
| "parse_field Day s pos st = err_bind (parse_digits s pos 2) (\<lambda>(v, p). Inr (p, st\<lparr>ps_day := Some (as_u8 v)\<rparr>))"
| "parse_field DayUnpadded s pos st =
     err_bind (parse_1or2_digits s pos) (\<lambda>(v, p). Inr (p, st\<lparr>ps_day := Some (as_u8 v)\<rparr>))"
| "parse_field WeekdayAbbr s pos st = err_bind (parse_name_match s pos weekday_abbr_sorted) (\<lambda>(v, p).
     Inr (p, st\<lparr>ps_weekday := Some (weekday_from_iso_unchecked (as_u8 (v + 1)))\<rparr>))"
| "parse_field WeekdayFull s pos st = err_bind (parse_name_match s pos weekday_full_sorted) (\<lambda>(v, p).
     Inr (p, st\<lparr>ps_weekday := Some (weekday_from_iso_unchecked (as_u8 (v + 1)))\<rparr>))"
| "parse_field Hour24 s pos st = err_bind (parse_digits s pos 2) (\<lambda>(v, p). Inr (p, st\<lparr>ps_hour := Some (as_u8 v)\<rparr>))"
| "parse_field Hour24Unpadded s pos st =
     err_bind (parse_1or2_digits s pos) (\<lambda>(v, p). Inr (p, st\<lparr>ps_hour := Some (as_u8 v)\<rparr>))"
| "parse_field Hour12 s pos st = err_bind (parse_digits s pos 2) (\<lambda>r. parse_hour_12 r st)"
| "parse_field Hour12Unpadded s pos st = err_bind (parse_1or2_digits s pos) (\<lambda>r. parse_hour_12 r st)"
| "parse_field Minute s pos st = err_bind (parse_digits s pos 2) (\<lambda>(v, p). Inr (p, st\<lparr>ps_minute := Some (as_u8 v)\<rparr>))"
| "parse_field MinuteUnpadded s pos st =
     err_bind (parse_1or2_digits s pos) (\<lambda>(v, p). Inr (p, st\<lparr>ps_minute := Some (as_u8 v)\<rparr>))"
| "parse_field Second s pos st =
     err_bind (parse_digits s pos 2) (\<lambda>(v, p). Inr (p, st\<lparr>ps_second := Some (leap_second v)\<rparr>))"
| "parse_field SecondUnpadded s pos st =
     err_bind (parse_1or2_digits s pos) (\<lambda>(v, p). Inr (p, st\<lparr>ps_second := Some (leap_second v)\<rparr>))"
| "parse_field SecondOpt s pos st =
     (if char_at s pos is_ascii_digit
      then err_bind (parse_digits s pos 2) (\<lambda>(v, p). Inr (p, st\<lparr>ps_second := Some (leap_second v)\<rparr>))
      else Inr (pos, st\<lparr>ps_second := Some 0, ps_second_absent := True\<rparr>))"
| "parse_field ColonSec s pos st =
     (if char_at s pos (\<lambda>c. c = CHR '':'')
      then err_bind (parse_digits s (pos + 1) 2) (\<lambda>(v, p). Inr (p, st\<lparr>ps_second := Some (leap_second v)\<rparr>))
      else Inr (pos, st\<lparr>ps_second := Some 0, ps_second_absent := True\<rparr>))"
| "parse_field (FracExact width) s pos st =
     err_bind (parse_digits s pos width) (\<lambda>(v, p). Inr (p, st\<lparr>ps_nanos := SubSecNanos (v * 10 ^ (9 - width))\<rparr>))"
| "parse_field (FracTrim width) s pos st =
     (if ps_second_absent st then Inr (pos, st\<lparr>ps_nanos := SubSecNanos subsec_min\<rparr>)
      else
        (let count = digit_run s pos width
         in if count = 0 then Inr (pos, st\<lparr>ps_nanos := SubSecNanos subsec_min\<rparr>)
            else err_bind (parse_digits s pos count) (\<lambda>(v, _).
                   Inr (pos + count, st\<lparr>ps_nanos := SubSecNanos (v * 10 ^ (9 - count))\<rparr>))))"
| "parse_field (DotFrac width) s pos st =
     (if ps_second_absent st then Inr (pos, st\<lparr>ps_nanos := SubSecNanos subsec_min\<rparr>)
      else Inr (parse_dot_frac s pos width st))"
| "parse_field AmPmShort s pos st = parse_am_pm s pos 1 st"
| "parse_field AmPmFull s pos st = parse_am_pm s pos 2 st"
| "parse_field (OffsetLower width) s pos st =
     err_bind (parse_offset_value s pos width False) (\<lambda>(secs, p). Inr (p, st\<lparr>ps_offset_secs := Some (Offset secs)\<rparr>))"
| "parse_field (OffsetUpper width) s pos st =
     err_bind (parse_offset_value s pos width True) (\<lambda>(secs, p). Inr (p, st\<lparr>ps_offset_secs := Some (Offset secs)\<rparr>))"
| "parse_field TzId s pos st =
     (let e = run_end is_tz_id_char s pos
      in if e = pos then Inl (ExpectedTzId pos) else Inr (e, st\<lparr>ps_tz_id := Some (take (e - pos) (drop pos s))\<rparr>))"
| "parse_field TzAbbrev s pos st = Inl Panicked"

fun parse_elements :: "element list \<Rightarrow> bytes \<Rightarrow> nat \<Rightarrow> parse_state \<Rightarrow> pattern_error + nat \<times> parse_state" where
  "parse_elements [] s pos st = Inr (pos, st)"
| "parse_elements (Literal l # els) s pos st =
     (if pos + length l > length s \<or> take (length l) (drop pos s) \<noteq> l then Inl (ExpectedText l pos)
      else parse_elements els s (pos + length l) st)"
| "parse_elements (Field f # els) s pos st =
     (if is_format_only f then Inl (FormatOnly (display_name f))
      else err_bind (parse_field f s pos st) (\<lambda>(p, st'). parse_elements els s p st'))"

definition pattern_parse :: "element list \<Rightarrow> bytes \<Rightarrow> pattern_error + parse_state" where
  "pattern_parse elements s =
     (if length s > 1000 then Inl InputTooLong
      else err_bind (parse_elements elements s 0 ps_default) (\<lambda>(pos, st).
             if pos \<noteq> length s then Inl (TrailingText pos) else Inr (ps_resolve st)))"

subsection \<open>From the parsed fields to values\<close>

datatype state_error = MissingField | InvalidDate | InvalidTime | WeekdayMismatch

definition ps_date :: "parse_state \<Rightarrow> state_error + date" where
  "ps_date st =
     (case (ps_year st, ps_month st, ps_day st) of
        (Some y, Some m, Some d) \<Rightarrow> or_err (date_new y m d) InvalidDate
      | _ \<Rightarrow> Inl MissingField)"

definition or_zero :: "int option \<Rightarrow> int" where
  "or_zero x = (case x of None \<Rightarrow> 0 | Some v \<Rightarrow> v)"

definition ps_time :: "parse_state \<Rightarrow> state_error + time" where
  "ps_time st =
     or_err (time_new (or_zero (ps_hour st)) (or_zero (ps_minute st)) (or_zero (ps_second st)) (ps_nanos st)) InvalidTime"

definition ps_validate_weekday :: "parse_state \<Rightarrow> date \<Rightarrow> state_error + unit" where
  "ps_validate_weekday st d =
     (case ps_weekday st of
        Some w \<Rightarrow> if date_day_of_week d \<noteq> w then Inl WeekdayMismatch else Inr ()
      | None \<Rightarrow> Inr ())"

end
