(* ===== verification/Pattern_Types.thy ===== *)
theory Pattern_Types
  imports Pattern Zoned
begin

section \<open>The \<open>format\<close> and \<open>parse\<close> methods (\<open>src/src/classes/*.rs\<close>)\<close>

text \<open>
  The methods of the date-time classes that compile a pattern, check its fields against the type,
  and format or parse with it: the part of each method after its arguments have been extracted
  from the Python objects. The warning about an ambiguous 12-hour clock does not change the
  result and is left out. Looking up a time zone is a parameter (\<open>Store\<close> models it).
\<close>

datatype method_error =
    PatternError pattern_error | UnsupportedField field | StateError state_error
  | MissingOffset | MissingTz | ResultOutOfRange | TzNotFound
  | LocalTimeMissing | OffsetMismatch offset | ResolveError resolve_error

definition map_err :: "('e \<Rightarrow> 'f) \<Rightarrow> 'e + 'a \<Rightarrow> 'f + 'a" where
  "map_err f r = (case r of Inl e \<Rightarrow> Inl (f e) | Inr x \<Rightarrow> Inr x)"

text \<open>\<open>CompiledPattern::compile\<close> and \<open>validate\<close>.\<close>

definition compile_valid :: "bytes \<Rightarrow> int \<Rightarrow> method_error + element list" where
  "compile_valid pattern allowed =
     err_bind (map_err PatternError (pattern_compile pattern)) (\<lambda>els.
       case validate_fields els allowed of Some f \<Rightarrow> Inl (UnsupportedField f) | None \<Rightarrow> Inr els)"

definition format_with :: "bytes \<Rightarrow> int \<Rightarrow> pattern_values \<Rightarrow> method_error + bytes" where
  "format_with pattern allowed v =
     err_bind (compile_valid pattern allowed) (\<lambda>els. map_err PatternError (format_elements els v))"

definition parse_with :: "bytes \<Rightarrow> int \<Rightarrow> bytes \<Rightarrow> method_error + parse_state" where
  "parse_with pattern allowed s =
     err_bind (compile_valid pattern allowed) (\<lambda>els. map_err PatternError (pattern_parse els s))"

definition date_format :: "date \<Rightarrow> bytes \<Rightarrow> method_error + bytes" where
  "date_format d pattern = format_with pattern set_date (date_pattern_values d)"

definition time_format :: "time \<Rightarrow> bytes \<Rightarrow> method_error + bytes" where
  "time_format t pattern = format_with pattern set_time (time_pattern_values t)"

definition pdt_format :: "plain_datetime \<Rightarrow> bytes \<Rightarrow> method_error + bytes" where
  "pdt_format p pattern = format_with pattern set_date_time (pdt_pattern_values p)"

definition odt_format :: "offset_datetime \<Rightarrow> bytes \<Rightarrow> method_error + bytes" where
  "odt_format x pattern =
     format_with pattern set_date_time_offset (pv_with_offset (pdt_pattern_values (odt_to_plain x)) (odt_offset x))"

definition instant_format :: "instant \<Rightarrow> bytes \<Rightarrow> method_error + bytes" where
  "instant_format i pattern =
     format_with pattern set_date_time_offset (pv_with_offset (pdt_pattern_values (instant_to_utc_plain i)) (Offset 0))"

definition zdt_format :: "zoned_datetime \<Rightarrow> bytes \<Rightarrow> (method_error + bytes) run" where
  "zdt_format z pattern =
     (case compile_valid pattern set_date_time_offset_tz of
        Inl e \<Rightarrow> Done (Inl e)
      | Inr els \<Rightarrow>
          run_bind (zone_meta_for_instant (zdt_tz z) (i_epoch (zdt_to_instant z))) (\<lambda>meta. Done (
            map_err PatternError (format_elements els
              (pv_with_timezone (pv_with_offset (pdt_pattern_values (zdt_to_plain z)) (zdt_offset z))
                (case zone_key (zdt_tz z) of None \<Rightarrow> [] | Some k \<Rightarrow> k) (tz_abbrev_as_bytes (meta_abbrev meta)))))))"

definition date_parse :: "bytes \<Rightarrow> bytes \<Rightarrow> method_error + date" where
  "date_parse s pattern =
     err_bind (parse_with pattern set_date s) (\<lambda>parsed.
     err_bind (map_err StateError (ps_date parsed)) (\<lambda>d.
     err_bind (map_err StateError (ps_validate_weekday parsed d)) (\<lambda>_. Inr d)))"

definition time_parse :: "bytes \<Rightarrow> bytes \<Rightarrow> method_error + time" where
  "time_parse s pattern =
     err_bind (parse_with pattern set_time s) (\<lambda>parsed. map_err StateError (ps_time parsed))"

definition pdt_parse :: "bytes \<Rightarrow> bytes \<Rightarrow> method_error + plain_datetime" where
  "pdt_parse s pattern =
     err_bind (parse_with pattern set_date_time s) (\<lambda>parsed.
     err_bind (map_err StateError (ps_date parsed)) (\<lambda>d.
     err_bind (map_err StateError (ps_validate_weekday parsed d)) (\<lambda>_.
     err_bind (map_err StateError (ps_time parsed)) (\<lambda>t. Inr (date_at d t)))))"

definition odt_parse :: "bytes \<Rightarrow> bytes \<Rightarrow> method_error + offset_datetime" where
  "odt_parse s pattern =
     err_bind (parse_with pattern set_date_time_offset s) (\<lambda>parsed.
     err_bind (or_err (ps_offset_secs parsed) MissingOffset) (\<lambda>x.
     err_bind (map_err StateError (ps_date parsed)) (\<lambda>d.
     err_bind (map_err StateError (ps_validate_weekday parsed d)) (\<lambda>_.
     err_bind (map_err StateError (ps_time parsed)) (\<lambda>t.
       or_err (pdt_assume_offset (date_at d t) x) ResultOutOfRange)))))"

definition instant_parse :: "bytes \<Rightarrow> bytes \<Rightarrow> method_error + instant" where
  "instant_parse s pattern =
     err_bind (parse_with pattern set_date_time_offset s) (\<lambda>parsed.
     err_bind (or_err (ps_offset_secs parsed) MissingOffset) (\<lambda>x.
     err_bind (map_err StateError (ps_date parsed)) (\<lambda>d.
     err_bind (map_err StateError (ps_time parsed)) (\<lambda>t.
       or_err (instant_shift_by_offset (pdt_assume_utc (date_at d t)) (offset_neg x)) ResultOutOfRange))))"

definition zdt_parse :: "(bytes \<Rightarrow> time_zone option) \<Rightarrow> bytes \<Rightarrow> bytes \<Rightarrow> disambiguation
    \<Rightarrow> (method_error + zoned_datetime) run" where
  "zdt_parse tz_get s pattern dis =
     (case err_bind (parse_with pattern set_date_time_offset_tz s) (\<lambda>parsed.
           err_bind (or_err (ps_tz_id parsed) MissingTz) (\<lambda>tz_id.
           err_bind (map_err StateError (ps_date parsed)) (\<lambda>d.
           err_bind (map_err StateError (ps_validate_weekday parsed d)) (\<lambda>_.
           err_bind (map_err StateError (ps_time parsed)) (\<lambda>t.
           err_bind (or_err (tz_get tz_id) TzNotFound) (\<lambda>tz. Inr (parsed, date_at d t, tz))))))) of
        Inl e \<Rightarrow> Done (Inl e)
      | Inr (parsed, dt, tz) \<Rightarrow>
          (let zoned = (\<lambda>x. err_bind (or_err (pdt_assume_offset dt x) ResultOutOfRange) (\<lambda>o1.
                 Inr (odt_into_zoned_unchecked o1 tz)))
           in case ps_offset_secs parsed of
                Some x \<Rightarrow>
                  run_bind (zone_mapping_for_local tz (pdt_local_seconds dt)) (\<lambda>m. Done (
                    case m of
                      Unique actual \<Rightarrow> if actual = x then zoned x else Inl (OffsetMismatch x)
                    | Fold _ before after \<Rightarrow> if before = x \<or> after = x then zoned x else Inl (OffsetMismatch x)
                    | Gap _ _ _ \<Rightarrow> Inl LocalTimeMissing))
              | None \<Rightarrow>
                  run_bind (pdt_resolve_in dt tz (Disambiguate dis)) (\<lambda>r. Done (
                    err_bind (map_err ResolveError r) (\<lambda>o1. Inr (odt_into_zoned_unchecked o1 tz))))))"

end
