(* ===== verification/Pattern_Facts.thy ===== *)
theory Pattern_Facts
  imports Pattern_Types Delta_Text_Facts Zoned_Facts
begin

section \<open>Facts on patterns\<close>

text \<open>
  Two facts: what a compiled pattern parses stays within the bounds of the fields (but for the
  hours of an offset, which are never checked), and parsing with a pattern of fixed-width fields
  inverts formatting with it. A text is followed by \<open>at s pos r\<close>: what remains of
  \<open>s\<close> at position \<open>pos\<close> is \<open>r\<close>.
\<close>

subsection \<open>Positions\<close>

definition at :: "bytes \<Rightarrow> nat \<Rightarrow> bytes \<Rightarrow> bool" where
  "at s pos r \<longleftrightarrow> pos \<le> length s \<and> drop pos s = r"

lemma at_start: "at s 0 s"
  by (simp add: at_def)

lemma at_end: "at s pos [] \<Longrightarrow> pos = length s"
  by (simp add: at_def)

lemma at_append:
  assumes "at s pos (a @ r)"
  shows "at s (pos + length a) r"
proof -
  have d: "drop pos s = a @ r" and p: "pos \<le> length s" using assms by (simp_all add: at_def)
  have "drop (length a) (drop pos s) = r" unfolding d by simp
  moreover have "length a \<le> length s - pos" using arg_cong [OF d, of length] by simp
  ultimately show ?thesis using p by (simp add: at_def add.commute)
qed

lemma at_length: "at s pos (a @ r) \<Longrightarrow> pos + length a \<le> length s"
  using at_append [of s pos a r] by (simp add: at_def)

lemma at_take: "at s pos (a @ r) \<Longrightarrow> take (length a) (drop pos s) = a"
  by (simp add: at_def)

lemma at_char: "at s pos (c # r) \<Longrightarrow> pos < length s \<and> s ! pos = c"
  by (metis Cons_nth_drop_Suc at_def drop_all linorder_not_le list.distinct(1) list.inject)

lemma at_Cons: "at s pos (c # r) \<Longrightarrow> at s (pos + 1) r"
  using at_append [of s pos "[c]" r] by simp

lemma char_at_Cons: "at s pos (c # r) \<Longrightarrow> char_at s pos p \<longleftrightarrow> p c"
  using at_char [of s pos c r] by (auto simp: char_at_def)

subsection \<open>Bounds\<close>

text \<open>What the parser has collected, at any point of it.\<close>

definition ps_ok :: "parse_state \<Rightarrow> bool" where
  "ps_ok st \<longleftrightarrow> pred_option year_ok (ps_year st) \<and> pred_option (\<lambda>v. 0 \<le> v) (ps_hour st)
     \<and> pred_option (\<lambda>v. 0 \<le> v) (ps_minute st) \<and> pred_option (\<lambda>v. 0 \<le> v) (ps_second st)
     \<and> subsec_ok (ps_nanos st) \<and> pred_option (\<lambda>x. \<bar>offset_get x\<bar> \<le> 359999) (ps_offset_secs st)"

text \<open>The compiler gives fractions one to nine digits.\<close>

fun width_ok :: "element \<Rightarrow> bool" where
  "width_ok (Field (FracExact w)) \<longleftrightarrow> 1 \<le> w \<and> w \<le> 9"
| "width_ok (Field (FracTrim w)) \<longleftrightarrow> 1 \<le> w \<and> w \<le> 9"
| "width_ok (Field (DotFrac w)) \<longleftrightarrow> 1 \<le> w \<and> w \<le> 9"
| "width_ok _ \<longleftrightarrow> True"

lemma specifier_width_ok: "specifier_field c count start = Inr f \<Longrightarrow> 1 \<le> count \<Longrightarrow> width_ok (Field f)"
  by (auto simp: specifier_field_def Let_def split: if_splits)

lemma compile_specifier_width_ok: "compile_specifier pattern i = Inr (j, f) \<Longrightarrow> width_ok (Field f)"
  using run_end_ge [of "Suc i" "\<lambda>b. b = pattern ! i" pattern]
  by (auto simp: compile_specifier_def Let_def split: sum.splits intro!: specifier_width_ok)

lemma combine_pending_width_ok: "width_ok (Field f) \<Longrightarrow> list_all width_ok (combine_pending pattern pending f)"
  by (cases f) (auto simp: combine_pending_def split: option.split)

lemma flush_pending_width_ok: "list_all width_ok (flush_pending pattern pending)"
  by (simp add: flush_pending_def split: option.split)

lemma compile_quoted_width_ok:
  "compile_quoted_literal pattern i els = Inr (j, els') \<Longrightarrow> list_all width_ok els \<Longrightarrow> list_all width_ok els'"
  by (auto simp: compile_quoted_literal_def Let_def split: if_splits)

lemma step_Inr: "(case r of Inl e \<Rightarrow> Inl e | Inr (j, x) \<Rightarrow> g j x) = Inr y \<longleftrightarrow> (\<exists>j x. r = Inr (j, x) \<and> g j x = Inr y)"
  by (auto split: sum.splits)

lemma compile_loop_width_ok:
  "compile_loop pattern i pending els = Inr els' \<Longrightarrow> list_all width_ok els \<Longrightarrow> list_all width_ok els'"
proof (induction pattern i pending els rule: compile_loop.induct)
  case (1 pattern i pending els)
  define c where "c = pattern ! i"
  define els1 where "els1 = els @ flush_pending pattern pending"
  note run = "1.prems"(1) [unfolded compile_loop.simps [of pattern i] Let_def, folded c_def els1_def]
  note IH = "1.IH" [folded c_def els1_def]
  have flushed: "list_all width_ok els1"
    using "1.prems"(2) flush_pending_width_ok by (simp add: els1_def)
  consider "i \<ge> length pattern" | "i < length pattern" "byte c < 128" "c = quote"
    | "i < length pattern" "byte c < 128" "c \<noteq> quote" "is_spec_char c"
    | "i < length pattern" "byte c < 128" "c \<noteq> quote" "\<not> is_spec_char c"
    using run by (metis Inl_Inr_False not_le)
  then show ?case
  proof cases
    case 1
    then show ?thesis using run flushed by simp
  next
    case 2
    then obtain j els2 where q: "compile_quoted_literal pattern i els1 = Inr (j, els2)"
      and r: "compile_loop pattern j None els2 = Inr els'"
      using run 2 by (simp add: step_Inr) blast
    show ?thesis
      using IH(1) [OF _ refl _ _ q refl r compile_quoted_width_ok [OF q flushed]] 2 by (simp add: c_def)
  next
    case 3
    then obtain j f where q: "compile_specifier pattern i = Inr (j, f)"
      and r: "compile_loop pattern j None (els @ combine_pending pattern pending f) = Inr els'"
      using run 3 by (simp add: step_Inr) blast
    have "list_all width_ok (els @ combine_pending pattern pending f)"
      using "1.prems"(2) combine_pending_width_ok [OF compile_specifier_width_ok [OF q]] by simp
    then show ?thesis using IH(2) [OF _ refl _ _ _ q refl r] 3 by (simp add: c_def)
  next
    case 4
    then have run4: "(if is_ascii_alphabetic c then Inl (UnrecognizedChar c i)
        else if is_reserved_char c then Inl (ReservedChar c i)
        else if is_pending_char c then compile_loop pattern (i + 1) (Some i) els1
        else if is_literal_char c then
          compile_loop pattern (run_end is_literal_char pattern i) None
            (els1 @ [Literal (take (run_end is_literal_char pattern i - i) (drop i pattern))])
        else Inl (UnexpectedChar c i)) = Inr els'" using run by simp
    show ?thesis
    proof (cases "is_pending_char c")
      case True
      then have "compile_loop pattern (i + 1) (Some i) els1 = Inr els'" "\<not> is_ascii_alphabetic c" "\<not> is_reserved_char c"
        using run4 by (simp_all split: if_splits)
      with 4 True flushed show ?thesis using IH(3) [OF _ refl _ _ _ refl] by (simp add: c_def els1_def)
    next
      case False
      then have "is_literal_char c" "\<not> is_ascii_alphabetic c" "\<not> is_reserved_char c"
        "compile_loop pattern (run_end is_literal_char pattern i) None
            (els1 @ [Literal (take (run_end is_literal_char pattern i - i) (drop i pattern))]) = Inr els'"
        using run4 by (simp_all split: if_splits)
      with 4 False flushed show ?thesis using IH(4) [OF _ refl _ _ _ refl _ _ _ _ refl] by (simp add: c_def els1_def)
    qed
  qed
qed

lemma compile_width_ok: "pattern_compile p = Inr els \<Longrightarrow> list_all width_ok els"
  by (auto simp: pattern_compile_def split: if_splits sum.splits intro: compile_loop_width_ok)

lemma digits_loop_value: "digits_loop s v = (if list_all is_ascii_digit s then Some (digits_value v s) else None)"
  by (induction s v rule: digits_loop.induct) simp_all

lemma digits_value_range:
  "list_all is_ascii_digit s \<Longrightarrow> 0 \<le> v
    \<Longrightarrow> v * 10 ^ length s \<le> digits_value v s \<and> digits_value v s < (v + 1) * 10 ^ length s"
proof (induction s arbitrary: v)
  case (Cons c s)
  have c: "0 \<le> digit_val c" "digit_val c \<le> 9" using Cons.prems digit_val_range by simp_all
  define w where "w = v * 10 + digit_val c"
  have w: "w * 10 ^ length s \<le> digits_value w s" "digits_value w s < (w + 1) * 10 ^ length s"
    using Cons c by (simp_all add: w_def)
  have "v * 10 * 10 ^ length s \<le> w * 10 ^ length s" "(w + 1) * 10 ^ length s \<le> (v + 1) * 10 * 10 ^ length s"
    using c unfolding w_def by (intro mult_right_mono; simp)+
  from order_trans [OF this(1) w(1)] order_less_le_trans [OF w(2) this(2)] show ?case
    by (simp add: w_def algebra_simps)
qed simp

lemma parse_digits_Inr:
  "parse_digits s pos n = Inr (v, p) \<longleftrightarrow>
     pos + n \<le> length s \<and> list_all is_ascii_digit (take n (drop pos s))
     \<and> v = digits_value 0 (take n (drop pos s)) \<and> p = pos + n"
  by (auto simp: parse_digits_def digits_loop_value)

lemma parse_digits_range: "parse_digits s pos n = Inr (v, p) \<Longrightarrow> 0 \<le> v \<and> v < 10 ^ n"
  using digits_value_range [of "take n (drop pos s)" 0] by (auto simp: parse_digits_Inr)

lemma parse_digits_range':
  "parse_digits s pos 2 = Inr (v, p) \<Longrightarrow> 0 \<le> v \<and> v < 100"
  "parse_digits s pos 4 = Inr (v, p) \<Longrightarrow> 0 \<le> v \<and> v < 10000"
  using parse_digits_range [of s pos 2 v p] parse_digits_range [of s pos 4 v p] by simp_all

lemma parse_1or2_digits_range: "parse_1or2_digits s pos = Inr (v, p) \<Longrightarrow> 0 \<le> v \<and> v < 100"
  using digit_val_range [of "s ! pos"] digit_val_range [of "s ! (pos + 1)"]
  by (auto simp: parse_1or2_digits_def split: if_splits)

lemma scaled_nanos_ok: "0 \<le> v \<Longrightarrow> v < 10 ^ n \<Longrightarrow> n \<le> 9 \<Longrightarrow> subsec_ok (SubSecNanos (v * 10 ^ (9 - n)))"
proof -
  assume v: "0 \<le> v" "v < 10 ^ n" "n \<le> 9"
  have "(v + 1) * 10 ^ (9 - n) \<le> 10 ^ n * 10 ^ (9 - n)" using v by (intro mult_right_mono) simp_all
  also have "(10 :: int) ^ n * 10 ^ (9 - n) = 10 ^ 9" using v(3) by (simp add: power_add [symmetric])
  finally have "v * 10 ^ (9 - n) + 10 ^ (9 - n) \<le> 1000000000" by (simp add: algebra_simps)
  moreover have "(0 :: int) < 10 ^ (9 - n)" by simp
  ultimately have "v * 10 ^ (9 - n) \<le> 999999999" by linarith
  then show ?thesis using v(1) by (simp add: subsec_ok_def bound_defs)
qed

lemma nanos_zero_ok [simp]: "subsec_ok (SubSecNanos subsec_min)" "subsec_ok (SubSecNanos 0)"
  by (simp_all add: subsec_ok_def bound_defs)

lemma digit_run_le: "digit_run s pos width \<le> width"
  unfolding digit_run_def using length_takeWhile_le [of is_ascii_digit "take width (drop pos s)"] by simp

lemma digit_run_digits: "list_all is_ascii_digit (take (digit_run s pos width) (drop pos s))"
  "length (take (digit_run s pos width) (drop pos s)) = digit_run s pos width"
proof -
  have "take (digit_run s pos width) (drop pos s) = takeWhile is_ascii_digit (take width (drop pos s))"
    using digit_run_le [of s pos width]
    by (metis digit_run_def min.absorb1 take_take takeWhile_eq_take)
  then show "list_all is_ascii_digit (take (digit_run s pos width) (drop pos s))"
    "length (take (digit_run s pos width) (drop pos s)) = digit_run s pos width"
    by (simp_all add: list_all_iff digit_run_def) (use set_takeWhileD in fastforce)
qed

lemma parse_dot_frac_ok: "width \<le> 9 \<Longrightarrow> ps_ok st \<Longrightarrow> ps_ok (snd (parse_dot_frac s pos width st))"
proof -
  assume w: "width \<le> 9" and st: "ps_ok st"
  define ds where "ds = take (digit_run s (pos + 1) width) (drop (pos + 1) s)"
  have ds: "list_all is_ascii_digit ds" "length ds = digit_run s (pos + 1) width"
    using digit_run_digits by (simp_all add: ds_def)
  have "subsec_ok (SubSecNanos (digits_fold ds * 10 ^ (9 - length ds)))"
    using digits_value_range [OF ds(1), of 0] digit_run_le [of s "pos + 1" width] w ds(2)
    by (intro scaled_nanos_ok) (simp_all add: digits_fold_def digits_value_def)
  then have "subsec_ok (SubSecNanos (digits_fold ds * 10 ^ (9 - digit_run s (pos + 1) width)))" by (simp only: ds(2))
  then show ?thesis using st by (simp add: parse_dot_frac_def Let_def ps_ok_def ds_def)
qed

lemma err_bind_Inr: "err_bind r f = Inr y \<longleftrightarrow> (\<exists>x. r = Inr x \<and> f x = Inr y)"
  by (cases r) (simp_all add: err_bind_def)

lemma or_err_Inr: "or_err x e = Inr y \<longleftrightarrow> x = Some y"
  by (cases x) (simp_all add: or_err_def)

lemma map_err_Inr: "map_err f r = Inr y \<longleftrightarrow> r = Inr y"
  by (cases r) (simp_all add: map_err_def)

lemmas err_simps = err_bind_Inr or_err_Inr map_err_Inr split_paired_Ex

lemma offset_seconds_range: "parse_offset_seconds s p w = Inr (v, q) \<Longrightarrow> 0 \<le> v \<and> v < 60"
  by (auto simp: parse_offset_seconds_def err_simps split: if_splits dest!: parse_digits_range')

lemma parse_offset_value_range: "parse_offset_value s pos w z = Inr (v, p) \<Longrightarrow> \<bar>v\<bar> \<le> 359999"
  by (auto simp: parse_offset_value_def err_simps Let_def split: if_splits
      dest!: parse_digits_range' offset_seconds_range)

lemma parse_am_pm_state: "parse_am_pm s pos n st = Inr (p, st') \<Longrightarrow> \<exists>x. st' = st\<lparr>ps_ampm := x\<rparr>"
  by (auto simp: parse_am_pm_def Let_def split: if_splits)

lemma leap_second_ge: "0 \<le> v \<Longrightarrow> 0 \<le> leap_second v"
  by (simp add: leap_second_def as_u8_def)

lemma as_u8_ge: "0 \<le> as_u8 v"
  by (simp add: as_u8_def)

lemma year_of_digits_ok: "0 \<le> v \<Longrightarrow> year_new (as_u16 v) = Some y \<Longrightarrow> year_ok y"
  using year_new_ok [of "as_u16 v" y] by (simp add: as_u16_def)

lemma ps_ok_updates:
  assumes "ps_ok st"
  shows "year_ok y \<Longrightarrow> ps_ok (st\<lparr>ps_year := Some y\<rparr>)" "ps_ok (st\<lparr>ps_month := m\<rparr>)" "ps_ok (st\<lparr>ps_day := d\<rparr>)"
    "ps_ok (st\<lparr>ps_weekday := w\<rparr>)" "ps_ok (st\<lparr>ps_ampm := a\<rparr>)" "ps_ok (st\<lparr>ps_tz_id := i\<rparr>)"
    "0 \<le> h \<Longrightarrow> ps_ok (st\<lparr>ps_hour := Some h\<rparr>)" "0 \<le> h \<Longrightarrow> ps_ok (st\<lparr>ps_minute := Some h\<rparr>)"
    "0 \<le> h \<Longrightarrow> ps_ok (st\<lparr>ps_second := Some h\<rparr>)" "0 \<le> h \<Longrightarrow> ps_ok (st\<lparr>ps_second := Some h, ps_second_absent := b\<rparr>)"
    "subsec_ok n \<Longrightarrow> ps_ok (st\<lparr>ps_nanos := n\<rparr>)"
    "\<bar>x\<bar> \<le> 359999 \<Longrightarrow> ps_ok (st\<lparr>ps_offset_secs := Some (Offset x)\<rparr>)"
  using assms by (simp_all add: ps_ok_def)

lemma digit_run_le_9: "w \<le> 9 \<Longrightarrow> digit_run s pos w \<le> 9"
  using digit_run_le order_trans by blast

lemma parse_dot_frac_ok': "parse_dot_frac s pos w st = (p, st') \<Longrightarrow> w \<le> 9 \<Longrightarrow> ps_ok st \<Longrightarrow> ps_ok st'"
  using parse_dot_frac_ok [of w st s pos] by simp

lemma parse_field_ok:
  "parse_field f s pos st = Inr (p, st') \<Longrightarrow> width_ok (Field f) \<Longrightarrow> ps_ok st \<Longrightarrow> ps_ok st'"
  by (cases f)
    (auto simp: err_simps Let_def parse_hour_12_def split: if_splits
      intro!: ps_ok_updates as_u8_ge leap_second_ge scaled_nanos_ok digit_run_le_9
      intro: parse_dot_frac_ok'
      dest: parse_am_pm_state parse_digits_range parse_digits_range' parse_1or2_digits_range year_of_digits_ok
        parse_offset_value_range)

lemma parse_elements_ok:
  "parse_elements els s pos st = Inr (p, st') \<Longrightarrow> list_all width_ok els \<Longrightarrow> ps_ok st \<Longrightarrow> ps_ok st'"
proof (induction els arbitrary: pos st)
  case (Cons e els)
  then show ?case
    by (cases e) (auto simp: err_simps split: if_splits intro: parse_field_ok)
qed simp

lemma ps_resolve_ok: "ps_ok st \<Longrightarrow> ps_ok (ps_resolve st)"
  by (auto simp: ps_resolve_def ps_ok_def split: option.split am_pm.split)

lemma pattern_parse_ok:
  assumes "pattern_compile pattern = Inr els" and "pattern_parse els s = Inr st"
  shows "ps_ok st"
proof -
  have "ps_ok ps_default" by (simp add: ps_ok_def ps_default_def)
  then show ?thesis
    using assms compile_width_ok [OF assms(1)]
    by (auto simp: pattern_parse_def err_simps split: if_splits intro!: ps_resolve_ok intro: parse_elements_ok)
qed

lemma parse_with_ok: "parse_with pattern allowed s = Inr st \<Longrightarrow> ps_ok st"
  by (auto simp: parse_with_def compile_valid_def err_simps split: option.splits intro: pattern_parse_ok)

lemma ps_date_ok: "ps_ok st \<Longrightarrow> ps_date st = Inr d \<Longrightarrow> date_ok d"
  by (auto simp: ps_date_def ps_ok_def err_simps split: option.splits intro: date_new_ok)

lemma or_zero_ge: "pred_option (\<lambda>v. 0 \<le> v) x \<Longrightarrow> 0 \<le> or_zero x"
  by (cases x) (simp_all add: or_zero_def)

lemma ps_time_ok: "ps_ok st \<Longrightarrow> ps_time st = Inr t \<Longrightarrow> time_ok t"
  using or_zero_ge by (auto simp: ps_time_def ps_ok_def time_ok_def time_new_def err_simps split: if_splits)

lemma ps_pdt_ok: "ps_ok st \<Longrightarrow> ps_date st = Inr d \<Longrightarrow> ps_time st = Inr t \<Longrightarrow> pdt_ok (date_at d t)"
  by (simp add: ps_date_ok ps_time_ok pdt_ok_def date_at_def)

lemma shifted_instant_ok: "instant_shift_by_offset i x = Some j \<Longrightarrow> instant_ok i \<Longrightarrow> instant_ok j"
  by (auto simp: instant_shift_by_offset_def epoch_shift_by_offset_def instant_ok_def epoch_nt.new_Some_iff)

text \<open>C36. Whatever the pattern and the text, what the \<open>parse\<close> methods return stays in the bounds
  of its type: the year, the date, the time and the nanoseconds are valid, and an instant is in
  range. The offset is the one part whose bound is not that of its type (up to 99:59:59 pass): with an
  offset that does lie within the bound of the type the offset date-time is valid as a whole.\<close>

theorem pattern_parse_bounds:
  "(date_parse s pattern = Inr d \<longrightarrow> date_ok d)
    \<and> (time_parse s pattern = Inr t \<longrightarrow> time_ok t)
    \<and> (pdt_parse s pattern = Inr q \<longrightarrow> pdt_ok q)
    \<and> (instant_parse s pattern = Inr i \<longrightarrow> instant_ok i)
    \<and> (odt_parse s pattern = Inr x \<longrightarrow> pdt_ok (odt_to_plain x) \<and> \<bar>offset_get (odt_offset x)\<bar> \<le> 359999
        \<and> (offset_ok (odt_offset x) \<longrightarrow> odt_ok x))"
proof (intro conjI)
  show "date_parse s pattern = Inr d \<longrightarrow> date_ok d"
    by (auto simp: date_parse_def err_simps intro: ps_date_ok parse_with_ok)
  show "time_parse s pattern = Inr t \<longrightarrow> time_ok t"
    by (auto simp: time_parse_def err_simps intro: ps_time_ok parse_with_ok)
  show "pdt_parse s pattern = Inr q \<longrightarrow> pdt_ok q"
    by (auto simp: pdt_parse_def err_simps intro: ps_pdt_ok parse_with_ok)
  show "instant_parse s pattern = Inr i \<longrightarrow> instant_ok i"
    by (auto simp: instant_parse_def err_simps intro: shifted_instant_ok [OF _ assume_utc_ok [OF ps_pdt_ok [OF parse_with_ok]]])
  show "odt_parse s pattern = Inr x \<longrightarrow> pdt_ok (odt_to_plain x) \<and> \<bar>offset_get (odt_offset x)\<bar> \<le> 359999
      \<and> (offset_ok (odt_offset x) \<longrightarrow> odt_ok x)"
  proof (intro impI)
    assume "odt_parse s pattern = Inr x"
    then obtain st x' d t where p: "parse_with pattern set_date_time_offset s = Inr st" "ps_date st = Inr d" "ps_time st = Inr t"
      and x': "ps_offset_secs st = Some x'" and x: "pdt_assume_offset (date_at d t) x' = Some x"
      by (auto simp: odt_parse_def err_simps)
    note st = parse_with_ok [OF p(1)] x' ps_pdt_ok [OF parse_with_ok [OF p(1)] p(2,3)]
    have "odt_to_plain x = date_at d t" "odt_offset x = x'"
      using x by (auto simp: pdt_assume_offset_def odt_new_Some odt_to_plain_def date_at_def)
    then show "pdt_ok (odt_to_plain x) \<and> \<bar>offset_get (odt_offset x)\<bar> \<le> 359999 \<and> (offset_ok (odt_offset x) \<longrightarrow> odt_ok x)"
      using st assume_offset_ok [OF st(3) _ x] by (simp add: ps_ok_def)
  qed
qed

theorem pattern_parse_bounds_witness:
  "date_parse ''29/Feb/2024'' ''DD/MMM/YYYY'' = Inr \<lparr>d_year = Year 2024, d_month = February, d_day = 29\<rparr>
    \<and> date_ok \<lparr>d_year = Year 2024, d_month = February, d_day = 29\<rparr>"
  (is "?parsed \<and> _")
proof -
  have parsed: ?parsed by code_simp
  from pattern_parse_bounds [THEN conjunct1, rule_format, OF this] parsed show ?thesis by blast
qed

lemma odt_parse_offset_out_of_range:
  "odt_parse ''2020-01-01 00:00 +99:00'' ''YYYY-MM-DD hh:mm xxx''
    = Inr \<lparr>odt_date = \<lparr>d_year = Year 2020, d_month = January, d_day = 1\<rparr>,
        odt_time = \<lparr>t_hour = 0, t_minute = 0, t_second = 0, t_subsec = SubSecNanos 0\<rparr>, odt_offset = Offset 356400\<rparr>
    \<and> \<not> offset_ok (Offset 356400)"
  by code_simp

lemma instant_parse_ignores_weekday:
  "instant_parse ''Mon 2020-01-01 00:00 +09:00'' ''EEE YYYY-MM-DD hh:mm xxx''
    = Inr \<lparr>i_epoch = EpochSecs 1577804400, i_subsec = SubSecNanos 0\<rparr>
    \<and> date_day_of_week \<lparr>d_year = Year 2020, d_month = January, d_day = 1\<rparr> = Wednesday"
  by code_simp

subsection \<open>Reading back what a pattern wrote\<close>

text \<open>The fields whose text has one length whatever the value, so that none can run into the next.\<close>

fun fixed_field :: "field \<Rightarrow> bool" where
  "fixed_field (FracExact w) \<longleftrightarrow> w = 9"
| "fixed_field (OffsetLower w) \<longleftrightarrow> w = 2 \<or> w = 3"
| "fixed_field (OffsetUpper w) \<longleftrightarrow> w = 2 \<or> w = 3"
| "fixed_field f \<longleftrightarrow> f \<in> {Year4, MonthNum, MonthAbbr, MonthFull, Day, WeekdayAbbr, WeekdayFull, Hour24, Hour12,
     Minute, Second, AmPmShort, AmPmFull}"

text \<open>What reading a field back puts into the state.\<close>

fun ps_set :: "pattern_values \<Rightarrow> field \<Rightarrow> parse_state \<Rightarrow> parse_state" where
  "ps_set v Year4 st = st\<lparr>ps_year := Some (pv_year v)\<rparr>"
| "ps_set v MonthNum st = st\<lparr>ps_month := Some (pv_month v)\<rparr>"
| "ps_set v MonthAbbr st = st\<lparr>ps_month := Some (pv_month v)\<rparr>"
| "ps_set v MonthFull st = st\<lparr>ps_month := Some (pv_month v)\<rparr>"
| "ps_set v Day st = st\<lparr>ps_day := Some (pv_day v)\<rparr>"
| "ps_set v WeekdayAbbr st = st\<lparr>ps_weekday := Some (pv_weekday v)\<rparr>"
| "ps_set v WeekdayFull st = st\<lparr>ps_weekday := Some (pv_weekday v)\<rparr>"
| "ps_set v Hour24 st = st\<lparr>ps_hour := Some (pv_hour v)\<rparr>"
| "ps_set v Hour12 st = st\<lparr>ps_hour := Some (hour_12 (pv_hour v))\<rparr>"
| "ps_set v Minute st = st\<lparr>ps_minute := Some (pv_minute v)\<rparr>"
| "ps_set v Second st = st\<lparr>ps_second := Some (pv_second v)\<rparr>"
| "ps_set v (FracExact _) st = st\<lparr>ps_nanos := pv_nanos v\<rparr>"
| "ps_set v AmPmShort st = st\<lparr>ps_ampm := Some (if pv_hour v < 12 then Am else Pm)\<rparr>"
| "ps_set v AmPmFull st = st\<lparr>ps_ampm := Some (if pv_hour v < 12 then Am else Pm)\<rparr>"
| "ps_set v (OffsetLower _) st = st\<lparr>ps_offset_secs := pv_offset_secs v\<rparr>"
| "ps_set v (OffsetUpper _) st = st\<lparr>ps_offset_secs := pv_offset_secs v\<rparr>"
| "ps_set v _ st = st"

definition values_ok :: "pattern_values \<Rightarrow> bool" where
  "values_ok v \<longleftrightarrow> year_ok (pv_year v) \<and> 1 \<le> pv_day v \<and> pv_day v \<le> 31 \<and> 0 \<le> pv_hour v \<and> pv_hour v < 24
     \<and> 0 \<le> pv_minute v \<and> pv_minute v < 60 \<and> 0 \<le> pv_second v \<and> pv_second v < 60 \<and> subsec_ok (pv_nanos v)
     \<and> pred_option (\<lambda>x. offset_ok x \<and> offset_get x mod 60 = 0) (pv_offset_secs v)"

lemma parse_digits_at:
  "at s pos (ds @ r) \<Longrightarrow> list_all is_ascii_digit ds \<Longrightarrow> length ds = n
    \<Longrightarrow> parse_digits s pos n = Inr (digits_value 0 ds, pos + n)"
  using at_take [of s pos ds r] at_length [of s pos ds r] by (auto simp: parse_digits_Inr)

lemma format_2_digits_value:
  assumes "0 \<le> n" and "n < 100"
  shows "list_all is_ascii_digit (format_2_digits n) \<and> digits_value 0 (format_2_digits n) = n"
  by (rule two_digits_of [OF assms]) simp

lemma format_4_digits_value:
  assumes "0 \<le> n" and "n < 10000"
  shows "list_all is_ascii_digit (format_4_digits n) \<and> length (format_4_digits n) = 4
    \<and> digits_value 0 (format_4_digits n) = n"
  by (rule four_digits_of [OF assms]) simp

lemma parse_2_digits_at:
  "at s pos (format_2_digits n @ r) \<Longrightarrow> 0 \<le> n \<Longrightarrow> n < 100 \<Longrightarrow> parse_digits s pos 2 = Inr (n, pos + 2)"
  using parse_digits_at [of s pos "format_2_digits n" r 2] format_2_digits_value [of n] by simp

lemma parse_4_digits_at:
  "at s pos (format_4_digits n @ r) \<Longrightarrow> 0 \<le> n \<Longrightarrow> n < 10000 \<Longrightarrow> parse_digits s pos 4 = Inr (n, pos + 4)"
  using parse_digits_at [of s pos "format_4_digits n" r 4] format_4_digits_value [of n] by simp

lemma nanos_buf_digits:
  assumes "subsec_ok n"
  shows "list_all is_ascii_digit (nanos_buf n) \<and> length (nanos_buf n) = 9 \<and> digits_value 0 (nanos_buf n) = subsec_get n"
proof -
  define x where "x = subsec_get n"
  define f where "f = (\<lambda>i. digit_char (x div 10 ^ (8 - i) mod 10))"
  have x: "0 \<le> x" "x < 1000000000" using assms by (simp_all add: x_def subsec_ok_def bound_defs)
  have "digits_value 0 (map f [0..<k]) = x div 10 ^ (9 - k)" if "k \<le> 9" for k
    using that
  proof (induction k)
    case 0
    then show ?case using x by simp
  next
    case (Suc k)
    define e where "e = 8 - k"
    have e: "9 - k = Suc e" "9 - Suc k = e" "8 - k = e" using Suc.prems by (simp_all add: e_def)
    have "x div 10 ^ Suc e = x div 10 ^ e div 10" unfolding power_Suc2 by (rule zdiv_zmult2_eq) simp
    with Suc e show ?case by (simp add: f_def mod_10_range)
  qed
  from this [of 9] have "digits_value 0 (map f [0..<9]) = x" by simp
  moreover have "nanos_buf n = map f [0..<9]" by (simp add: nanos_buf_def f_def x_def)
  ultimately show ?thesis by (simp add: list_all_iff f_def mod_10_range x_def)
qed

text \<open>No name begins, letter case apart, with another of the same list or is its beginning.\<close>

definition clash :: "bytes \<Rightarrow> bytes \<Rightarrow> bool" where
  "clash a b \<longleftrightarrow> list_all2 eq_ignore_case (take (length b) a) (take (length a) b)"

definition distinguishable :: "(int \<times> bytes) list \<Rightarrow> bool" where
  "distinguishable cs \<longleftrightarrow> list_all (\<lambda>(v, a). list_all (\<lambda>(w, b). v = w \<and> a = b \<or> \<not> clash a b) cs) cs"

lemma names_distinguishable:
  "distinguishable month_abbr_sorted" "distinguishable month_full_sorted"
  "distinguishable weekday_abbr_sorted" "distinguishable weekday_full_sorted"
  by code_simp+

lemma list_all2_take: "list_all2 P xs ys \<Longrightarrow> list_all2 P (take n xs) (take n ys)"
  by (simp add: list_all2_conv_all_nth)

lemma match_clashes:
  assumes "length b \<le> length (a @ r)" and "list_all2 eq_ignore_case (take (length b) (a @ r)) b"
  shows "clash a b"
  using list_all2_take [OF assms(2), of "length a"] assms
  by (cases "length b \<le> length a") (simp_all add: clash_def)

lemma eq_ignore_case_refl: "list_all2 eq_ignore_case a a"
  by (simp add: list_all2_same eq_ignore_case_def)

lemma parse_name_at:
  assumes "at s pos (a @ r)" and "distinguishable cs" and "(v, a) \<in> set cs"
  shows "parse_name_match s pos cs = Inr (v, pos + length a)"
proof -
  have rest: "drop pos s = a @ r" using assms(1) by (simp add: at_def)
  have "parse_name_match s pos ds = Inr (v, pos + length a)" if "(v, a) \<in> set ds" "set ds \<subseteq> set cs" for ds
    using that
  proof (induction ds)
    case (Cons d ds)
    obtain w b where d: "d = (w, b)" by (cases d)
    show ?case
    proof (cases "length b \<le> length (a @ r) \<and> list_all2 eq_ignore_case (take (length b) (a @ r)) b")
      case True
      then have "clash a b" using match_clashes by blast
      then have "v = w \<and> a = b"
        using assms(2,3) Cons.prems d by (auto simp: distinguishable_def list_all_iff)
      then show ?thesis by (simp add: d rest eq_ignore_case_refl)
    next
      case False
      then have "d \<noteq> (v, a)" using d eq_ignore_case_refl by auto
      with False Cons d show ?thesis by (auto simp: rest)
    qed
  qed simp
  then show ?thesis using assms(3) by blast
qed

lemma month_name_listed:
  "(month_get m, month_abbr ! nat (month_get m)) \<in> set month_abbr_sorted"
  "(month_get m, month_full ! nat (month_get m)) \<in> set month_full_sorted"
  "month_new_unchecked (as_u8 (month_get m)) = m" "month_new (as_u8 (month_get m)) = Some m"
  by (cases m; simp add: month_abbr_def month_full_def month_abbr_sorted_def month_full_sorted_def as_u8_def
      month_new_unchecked_def month_new_def)+

lemma weekday_name_listed:
  "(weekday_iso w - 1, weekday_abbr ! (nat (weekday_iso w) - 1)) \<in> set weekday_abbr_sorted"
  "(weekday_iso w - 1, weekday_full ! (nat (weekday_iso w) - 1)) \<in> set weekday_full_sorted"
  "weekday_from_iso_unchecked (as_u8 (weekday_iso w)) = w"
  by (cases w; simp add: weekday_abbr_def weekday_full_def weekday_abbr_sorted_def weekday_full_sorted_def as_u8_def
      weekday_from_iso_unchecked_def)+

lemma char_at_sign: "at s pos (c # r) \<Longrightarrow> s ! pos = c" "at s pos (c # r) \<Longrightarrow> char_at s pos p \<longleftrightarrow> p c"
  using at_char char_at_Cons by blast+

lemma parse_offset_at:
  assumes "offset_ok (Offset v)" and "v mod 60 = 0" and w: "w = 2 \<or> w = 3" and "at s pos (write_offset v w z @ r)"
  shows "parse_offset_value s pos w z = Inr (v, pos + length (write_offset v w z))"
proof (cases "v = 0 \<and> z")
  case True
  then show ?thesis using assms(4) by (simp add: write_offset_def parse_offset_value_def char_at_Cons)
next
  case False
  define h where "h = \<bar>v\<bar> div 3600"
  define m where "m = \<bar>v\<bar> mod 3600 div 60"
  have v: "\<bar>v\<bar> \<le> 86400" using assms(1) by (auto simp: offset_ok_def bound_defs)
  have h: "0 \<le> h" "h < 100" using v by (simp_all add: h_def pos_imp_zdiv_nonneg_iff)
  have m: "0 \<le> m" "m < 60" by (simp_all add: m_def pos_imp_zdiv_nonneg_iff div_less_iff_less_mult)
  have "\<bar>v\<bar> mod 60 = 0" using assms(2) by (simp add: abs_if zmod_zminus1_eq_if)
  then have "\<bar>v\<bar> mod 3600 mod 60 = 0" by (simp add: mod_mod_cancel)
  then have "m * 60 = \<bar>v\<bar> mod 3600" unfolding m_def by (metis add.right_neutral div_mult_mod_eq)
  then have sum: "h * 3600 + m * 60 = \<bar>v\<bar>" unfolding h_def by simp
  have u8: "as_u8 h = h" "as_u8 m = m" using h m by (simp_all add: as_u8_def)
  define sg where "sg = (if v \<ge> 0 then CHR ''+'' else CHR ''-'')"
  have sg: "sg = CHR ''+'' \<or> sg = CHR ''-''" "(if sg = CHR ''+'' then 1 else - 1) * \<bar>v\<bar> = v" by (simp_all add: sg_def)
  have out: "write_offset v w z = sg # format_2_digits h @ (if w = 2 then [] else '':'') @ format_2_digits m"
    using False w u8 by (elim disjE) (simp_all add: write_offset_def Let_def sg_def h_def [symmetric] m_def [symmetric])
  have a: "at s pos (sg # format_2_digits h @ (if w = 2 then [] else '':'') @ format_2_digits m @ r)"
    using assms(4) by (simp add: out)
  have b: "at s (pos + 1) (format_2_digits h @ (if w = 2 then [] else '':'') @ format_2_digits m @ r)"
    using at_Cons [OF a] by simp
  have c: "at s (pos + 3) ((if w = 2 then [] else '':'') @ format_2_digits m @ r)"
    using at_append [OF b] by (simp add: numeral_3_eq_3)
  have len: "length (write_offset v w z) = (if w = 2 then 5 else 6)" by (simp add: out)
  have hours: "parse_digits s (Suc pos) 2 = Inr (h, Suc (Suc (Suc pos)))" using parse_2_digits_at [OF b h] by simp
  note steps = parse_offset_value_def char_at_sign [OF a] hours err_bind_def parse_offset_seconds_def
  show ?thesis
  proof (cases "w = 2")
    case True
    then have "parse_digits s (Suc (Suc (Suc pos))) 2 = Inr (m, pos + 5)"
      using parse_2_digits_at [of s "pos + 3" m r] c m by (simp add: numeral_3_eq_3)
    with True False m sg sum len show ?thesis by (auto simp: steps)
  next
    case 3: False
    then have "at s (Suc (Suc (Suc pos))) (CHR '':'' # format_2_digits m @ r)" using c by (simp add: numeral_3_eq_3)
    from char_at_Cons [OF this] at_Cons [OF this]
    have "char_at s (Suc (Suc (Suc pos))) (\<lambda>c. c = CHR '':'')"
      and "parse_digits s (Suc (Suc (Suc (Suc pos)))) 2 = Inr (m, pos + 6)"
      using parse_2_digits_at [of s "Suc (Suc (Suc (Suc pos)))" m r] m by simp_all
    with 3 w False m sg sum len show ?thesis by (auto simp: steps)
  qed
qed

lemma hour_12_range: "0 \<le> h \<Longrightarrow> h < 24 \<Longrightarrow> 1 \<le> hour_12 h \<and> hour_12 h \<le> 12"
  by (simp add: hour_12_def) presburger

lemma am_pm_at:
  assumes "at s pos (take n (if b then ''AM'' else ''PM'') @ r)" and n: "n = 1 \<or> n = 2"
  shows "parse_am_pm s pos n st = Inr (pos + n, st\<lparr>ps_ampm := Some (if b then Am else Pm)\<rparr>)"
proof -
  have len: "length (take n (if b then ''AM'' else ''PM'')) = n" using n by auto
  have "pos + n \<le> length s" using at_length [OF assms(1)] len by simp
  moreover have "take n (drop pos s) = take n (if b then ''AM'' else ''PM'')" using at_take [OF assms(1)] len by simp
  moreover have "map ascii_uppercase ''AM'' = ''AM''" "map ascii_uppercase ''PM'' = ''PM''" by code_simp+
  ultimately show ?thesis using n by (auto simp: parse_am_pm_def take_map [symmetric])
qed

lemma write_am_pm:
  "write_field AmPmShort v = Inr (take 1 (if pv_hour v < 12 then ''AM'' else ''PM''))"
  "write_field AmPmFull v = Inr (take 2 (if pv_hour v < 12 then ''AM'' else ''PM''))"
  by simp_all

lemma field_roundtrip:
  assumes v: "values_ok v" and f: "fixed_field f" and out: "write_field f v = Inr out" and here: "at s pos (out @ r)"
  shows "parse_field f s pos st = Inr (pos + length out, ps_set v f st)"
proof -
  have ranges: "0 \<le> year_get (pv_year v)" "year_get (pv_year v) < 10000" "year_new (as_u16 (year_get (pv_year v))) = Some (pv_year v)"
    "0 \<le> pv_day v" "pv_day v < 100" "as_u8 (pv_day v) = pv_day v"
    "0 \<le> pv_hour v" "pv_hour v < 100" "as_u8 (pv_hour v) = pv_hour v"
    "0 \<le> pv_minute v" "pv_minute v < 100" "as_u8 (pv_minute v) = pv_minute v"
    "0 \<le> pv_second v" "pv_second v < 100" "leap_second (pv_second v) = pv_second v"
    "0 \<le> hour_12 (pv_hour v)" "hour_12 (pv_hour v) < 100" "1 \<le> hour_12 (pv_hour v)" "hour_12 (pv_hour v) \<le> 12"
    "as_u8 (hour_12 (pv_hour v)) = hour_12 (pv_hour v)"
    using v hour_12_range [of "pv_hour v"] year_new_ok [of "year_get (pv_year v)" "pv_year v"]
    by (simp_all add: values_ok_def year_ok_def as_u8_def as_u16_def leap_second_def)
  have months: "0 \<le> month_get (pv_month v)" "month_get (pv_month v) < 100" by (cases "pv_month v"; simp)+
  note names = parse_name_at [OF _ names_distinguishable(1) month_name_listed(1)]
    parse_name_at [OF _ names_distinguishable(2) month_name_listed(2)]
    parse_name_at [OF _ names_distinguishable(3) weekday_name_listed(1)]
    parse_name_at [OF _ names_distinguishable(4) weekday_name_listed(2)]
  show ?thesis
  proof (cases f)
    case (FracExact w)
    then have w: "w = 9" "out = nanos_buf (pv_nanos v)"
      using f out nanos_buf_digits [of "pv_nanos v"] v by (auto simp: write_nanos_digits_def values_ok_def)
    have n: "subsec_ok (pv_nanos v)" using v by (simp add: values_ok_def)
    show ?thesis
      using parse_digits_at [OF here, of 9] nanos_buf_digits [OF n] FracExact w by (simp add: err_bind_def)
  next
    case MonthNum
    then show ?thesis
      using parse_2_digits_at [of s pos "month_get (pv_month v)" r] months month_name_listed(4) [of "pv_month v"] out here
      by (auto simp: err_bind_def or_err_def)
  next
    case (OffsetLower w)
    then obtain x where x: "pv_offset_secs v = Some (Offset x)" "out = write_offset x w False"
      using out by (auto split: option.splits intro: offset.exhaust) (metis offset.collapse)
    then show ?thesis
      using parse_offset_at [of x w s pos False r] v f here OffsetLower by (simp add: values_ok_def err_bind_def)
  next
    case (OffsetUpper w)
    then obtain x where x: "pv_offset_secs v = Some (Offset x)" "out = write_offset x w True"
      using out by (auto split: option.splits) (metis offset.collapse)
    then show ?thesis
      using parse_offset_at [of x w s pos True r] v f here OffsetUpper by (simp add: values_ok_def err_bind_def)
  next
    case AmPmShort
    then show ?thesis using am_pm_at [of s pos 1 "pv_hour v < 12" r st] out here by (auto simp: write_am_pm split: if_splits)
  next
    case AmPmFull
    then show ?thesis using am_pm_at [of s pos 2 "pv_hour v < 12" r st] out here by (auto simp: write_am_pm split: if_splits)
  qed (use f out here ranges months names format_4_digits_value month_name_listed weekday_name_listed in
      \<open>auto simp: err_bind_def or_err_def parse_hour_12_def dest: parse_2_digits_at parse_4_digits_at\<close>)
qed

fun fixed_element :: "element \<Rightarrow> bool" where
  "fixed_element (Literal _) \<longleftrightarrow> True"
| "fixed_element (Field f) \<longleftrightarrow> fixed_field f"

fun reads :: "pattern_values \<Rightarrow> element list \<Rightarrow> parse_state \<Rightarrow> parse_state" where
  "reads v [] st = st"
| "reads v (Literal _ # els) st = reads v els st"
| "reads v (Field f # els) st = reads v els (ps_set v f st)"

lemma fixed_not_format_only: "fixed_field f \<Longrightarrow> \<not> is_format_only f"
  by (cases f) (simp_all add: is_format_only_def)

lemma elements_roundtrip:
  "values_ok v \<Longrightarrow> list_all fixed_element els \<Longrightarrow> format_elements els v = Inr out \<Longrightarrow> at s pos (out @ r)
    \<Longrightarrow> parse_elements els s pos st = Inr (pos + length out, reads v els st)"
proof (induction els v arbitrary: out pos st rule: format_elements.induct)
  case (2 l els v)
  from "2.prems"(3) obtain o1 where o: "format_elements els v = Inr o1" "out = l @ o1" by (auto split: sum.splits)
  have here: "at s pos (l @ o1 @ r)" using "2.prems"(4) o(2) by simp
  show ?case
    using "2.IH" [OF "2.prems"(1) _ o(1) at_append [OF here]] "2.prems"(2) at_take [OF here] at_length [OF here]
    by (simp add: o(2))
next
  case (3 f els v)
  from "3.prems"(3) obtain x o1 where o: "write_field f v = Inr x" "format_elements els v = Inr o1" "out = x @ o1"
    by (auto split: sum.splits)
  have here: "at s pos (x @ o1 @ r)" using "3.prems"(4) o(3) by simp
  have f: "fixed_field f" using "3.prems"(2) by simp
  show ?case
    using "3.IH" [OF o(1) "3.prems"(1) _ o(2) at_append [OF here]] "3.prems"(2)
      field_roundtrip [OF "3.prems"(1) f o(1) here] fixed_not_format_only [OF f]
    by (simp add: o(3) err_bind_def)
qed simp

lemma reads_date:
  assumes "list_all fixed_element els"
  shows "ps_year (reads v els st) = (if Field Year4 \<in> set els then Some (pv_year v) else ps_year st)"
    "ps_month (reads v els st) = (if set els \<inter> {Field MonthNum, Field MonthAbbr, Field MonthFull} \<noteq> {}
      then Some (pv_month v) else ps_month st)"
    "ps_day (reads v els st) = (if Field Day \<in> set els then Some (pv_day v) else ps_day st)"
    "ps_weekday st \<in> {None, Some (pv_weekday v)} \<Longrightarrow> ps_weekday (reads v els st) \<in> {None, Some (pv_weekday v)}"
  using assms
proof (induction v els st rule: reads.induct)
  case (3 v f els st)
  { case 1 then show ?case using 3 by (cases f) auto }
  { case 2 then show ?case using 3 by (cases f) auto }
  { case 3 then show ?case using "3.IH" by (cases f) auto }
  { case 4 then show ?case using 3 by (cases f) auto }
qed simp_all

lemma reads_time:
  assumes "list_all fixed_element els"
  shows "ps_minute (reads v els st) = (if Field Minute \<in> set els then Some (pv_minute v) else ps_minute st)"
    "ps_second (reads v els st) = (if Field Second \<in> set els then Some (pv_second v) else ps_second st)"
    "ps_nanos (reads v els st) = (if Field (FracExact 9) \<in> set els then pv_nanos v else ps_nanos st)"
    "ps_offset_secs (reads v els st)
      = (if set els \<inter> {Field (OffsetLower 2), Field (OffsetLower 3), Field (OffsetUpper 2), Field (OffsetUpper 3)} \<noteq> {}
         then pv_offset_secs v else ps_offset_secs st)"
  using assms
proof (induction v els st rule: reads.induct)
  case (3 v f els st)
  { case 1 then show ?case using 3 by (cases f) auto }
  { case 2 then show ?case using 3 by (cases f) auto }
  { case 3 then show ?case using "3.IH" by (cases f) auto }
  { case 4 then show ?case using 3 by (cases f) auto }
qed simp_all

lemma reads_hour:
  assumes "list_all fixed_element els"
  shows "Field Hour12 \<notin> set els \<Longrightarrow>
      ps_hour (reads v els st) = (if Field Hour24 \<in> set els then Some (pv_hour v) else ps_hour st)"
    "Field Hour24 \<notin> set els \<Longrightarrow>
      ps_hour (reads v els st) = (if Field Hour12 \<in> set els then Some (hour_12 (pv_hour v)) else ps_hour st)"
    "ps_ampm st \<in> {None, Some (if pv_hour v < 12 then Am else Pm)}
      \<Longrightarrow> ps_ampm (reads v els st) \<in> {None, Some (if pv_hour v < 12 then Am else Pm)}"
    "ps_ampm (reads v els st) = (if set els \<inter> {Field AmPmShort, Field AmPmFull} \<noteq> {}
      then Some (if pv_hour v < 12 then Am else Pm) else ps_ampm st)"
  using assms
proof (induction v els st rule: reads.induct)
  case (3 v f els st)
  { case 1 then show ?case using 3 by (cases f) auto }
  { case 2 then show ?case using 3 by (cases f) auto }
  { case 3 then show ?case using "3.IH" by (cases f) auto }
  { case 4 then show ?case using 3 by (cases f) auto }
qed simp_all

text \<open>The pattern names every part of the value, the hour on a 24-hour clock or on a 12-hour clock
  with its half of the day.\<close>

definition has_date_fields :: "element list \<Rightarrow> bool" where
  "has_date_fields els \<longleftrightarrow> list_all fixed_element els \<and> Field Year4 \<in> set els \<and> Field Day \<in> set els
     \<and> set els \<inter> {Field MonthNum, Field MonthAbbr, Field MonthFull} \<noteq> {}"

definition has_time_fields :: "element list \<Rightarrow> bool" where
  "has_time_fields els \<longleftrightarrow> list_all fixed_element els
     \<and> (if Field Hour24 \<in> set els then Field Hour12 \<notin> set els
        else Field Hour12 \<in> set els \<and> set els \<inter> {Field AmPmShort, Field AmPmFull} \<noteq> {})
     \<and> Field Minute \<in> set els \<and> Field Second \<in> set els \<and> Field (FracExact 9) \<in> set els"

definition has_offset_fields :: "element list \<Rightarrow> bool" where
  "has_offset_fields els \<longleftrightarrow> list_all fixed_element els
     \<and> set els \<inter> {Field (OffsetLower 2), Field (OffsetLower 3), Field (OffsetUpper 2), Field (OffsetUpper 3)} \<noteq> {}"

lemma resolve_fields [simp]:
  "ps_year (ps_resolve st) = ps_year st" "ps_month (ps_resolve st) = ps_month st" "ps_day (ps_resolve st) = ps_day st"
  "ps_weekday (ps_resolve st) = ps_weekday st" "ps_minute (ps_resolve st) = ps_minute st"
  "ps_second (ps_resolve st) = ps_second st" "ps_nanos (ps_resolve st) = ps_nanos st"
  "ps_offset_secs (ps_resolve st) = ps_offset_secs st"
  by (auto simp: ps_resolve_def split: option.split am_pm.split)

lemma resolve_24:
  assumes "ps_hour st = Some h" and "0 \<le> h" and "ps_ampm st \<in> {None, Some (if h < 12 then Am else Pm)}"
  shows "ps_hour (ps_resolve st) = Some h"
  using assms by (auto simp: ps_resolve_def split: option.split am_pm.split if_splits)

lemma resolve_12:
  assumes "ps_hour st = Some (hour_12 h)" and "0 \<le> h" "h < 24" and "ps_ampm st = Some (if h < 12 then Am else Pm)"
  shows "ps_hour (ps_resolve st) = Some h"
proof -
  have "hour_12 h = (if h = 0 then 12 else if h \<le> 12 then h else h - 12)"
    using assms(2,3) unfolding hour_12_def by presburger
  then show ?thesis using assms by (auto simp: ps_resolve_def)
qed

lemma reads_resolved_hour:
  assumes "has_time_fields els" and "values_ok v"
  shows "ps_hour (ps_resolve (reads v els ps_default)) = Some (pv_hour v)"
proof -
  have e: "list_all fixed_element els" using assms(1) by (simp add: has_time_fields_def)
  have h: "0 \<le> pv_hour v" "pv_hour v < 24" using assms(2) by (simp_all add: values_ok_def)
  have d: "ps_ampm ps_default = None" by (simp add: ps_default_def)
  show ?thesis
  proof (cases "Field Hour24 \<in> set els")
    case True
    then show ?thesis
      using assms(1) reads_hour(1) [OF e, of v ps_default] reads_hour(3) [OF e, of ps_default v] h d
      by (intro resolve_24) (simp_all add: has_time_fields_def)
  next
    case False
    then show ?thesis
      using assms(1) reads_hour(2,4) [OF e, of v ps_default] h by (intro resolve_12) (simp_all add: has_time_fields_def)
  qed
qed

lemma pattern_parse_written:
  assumes "values_ok v" and "list_all fixed_element els" and "format_elements els v = Inr s" and "length s \<le> 1000"
  shows "pattern_parse els s = Inr (ps_resolve (reads v els ps_default))"
proof -
  have "at s 0 (s @ [])" by (simp add: at_start)
  from elements_roundtrip [OF assms(1,2,3) this] show ?thesis
    using assms(4) by (simp add: pattern_parse_def err_bind_def)
qed

lemma parse_with_written:
  assumes "pattern_compile pattern = Inr els" and "format_with pattern allowed v = Inr s"
    and "values_ok v" and "list_all fixed_element els" and "length s \<le> 1000"
  shows "parse_with pattern allowed s = Inr (ps_resolve (reads v els ps_default))"
proof -
  have valid: "compile_valid pattern allowed = Inr els" and "format_elements els v = Inr s"
    using assms(1,2) by (auto simp: format_with_def compile_valid_def err_simps split: option.splits)
  then show ?thesis
    using pattern_parse_written [OF assms(3,4) _ assms(5)] by (simp add: parse_with_def err_bind_def map_err_def)
qed

lemma plain_values_ok: "pdt_ok q \<Longrightarrow> values_ok (pdt_pattern_values q)"
  using days_in_month_range [of "d_year (pdt_date q)" "d_month (pdt_date q)"]
  by (auto simp: values_ok_def pdt_pattern_values_def pdt_ok_def date_ok_def time_ok_def)

lemma written_date:
  assumes "date_ok (pdt_date q)" and "has_date_fields els" and "values_ok v" and "st = ps_resolve (reads v els ps_default)"
    and "pv_year v = d_year (pdt_date q)" "pv_month v = d_month (pdt_date q)" "pv_day v = d_day (pdt_date q)"
      "pv_weekday v = date_day_of_week (pdt_date q)"
  shows "ps_date st = Inr (pdt_date q) \<and> ps_validate_weekday st (pdt_date q) = Inr ()"
proof -
  have e: "list_all fixed_element els" using assms(2) by (simp add: has_date_fields_def)
  have "ps_weekday st \<in> {None, Some (pv_weekday v)}"
    using reads_date(4) [OF e, of ps_default v] assms(4) by (simp add: ps_default_def)
  moreover have "ps_date st = Inr (pdt_date q)"
    using assms(2) reads_date(1-3) [OF e, of v ps_default] date_new_fields [OF assms(1)] assms(4-7)
    by (simp add: has_date_fields_def ps_date_def or_err_def)
  ultimately show ?thesis using assms(8) by (auto simp: ps_validate_weekday_def)
qed

lemma written_time:
  assumes "time_ok t" and "has_time_fields els" and "values_ok v" and "st = ps_resolve (reads v els ps_default)"
    and "pv_hour v = t_hour t" "pv_minute v = t_minute t" "pv_second v = t_second t" "pv_nanos v = t_subsec t"
  shows "ps_time st = Inr t"
proof -
  have e: "list_all fixed_element els" using assms(2) by (simp add: has_time_fields_def)
  show ?thesis
    using assms reads_time(1-3) [OF e, of v ps_default] reads_resolved_hour [OF assms(2,3)]
    by (simp add: has_time_fields_def ps_time_def or_zero_def time_new_def time_ok_def or_err_def)
qed

lemma min_values_ok: "date_ok date_min" "time_ok time_min"
  by code_simp+

lemma assume_own_offset: "odt_ok x \<Longrightarrow> pdt_assume_offset (odt_to_plain x) (odt_offset x) = Some x"
  by (cases x) (auto simp: pdt_assume_offset_def odt_new_def odt_ok_def odt_to_plain_def date_at_def)

lemma date_written:
  assumes "pattern_compile pattern = Inr els" and "length s \<le> 1000"
    and d: "date_ok d" "has_date_fields els" "date_format d pattern = Inr s"
  shows "date_parse s pattern = Inr d"
proof -
  define q where "q = date_at d time_min"
  have q: "pdt_ok q" "pdt_date q = d" using d(1) min_values_ok by (simp_all add: q_def date_at_def pdt_ok_def)
  note v = plain_values_ok [OF q(1)]
  have "parse_with pattern set_date s = Inr (ps_resolve (reads (pdt_pattern_values q) els ps_default))"
    using parse_with_written [OF assms(1) _ v _ assms(2)] d(2,3) by (simp add: date_format_def date_pattern_values_def q_def has_date_fields_def)
  then show ?thesis
    using written_date [OF _ d(2) v refl, of q] d(1) q(2) by (simp add: date_parse_def err_bind_def or_err_def map_err_def pdt_pattern_values_def)
qed

lemma time_written:
  assumes "pattern_compile pattern = Inr els" and "length s \<le> 1000"
    and t: "time_ok t" "has_time_fields els" "time_format t pattern = Inr s"
  shows "time_parse s pattern = Inr t"
proof -
  define q where "q = date_at date_min t"
  have q: "pdt_ok q" "pdt_time q = t" using t(1) min_values_ok by (simp_all add: q_def date_at_def pdt_ok_def)
  note v = plain_values_ok [OF q(1)]
  have "parse_with pattern set_time s = Inr (ps_resolve (reads (pdt_pattern_values q) els ps_default))"
    using parse_with_written [OF assms(1) _ v _ assms(2)] t(2,3) by (simp add: time_format_def time_pattern_values_def q_def has_time_fields_def)
  then show ?thesis
    using written_time [OF t(1,2) v refl] q(2) by (simp add: time_parse_def err_bind_def or_err_def map_err_def pdt_pattern_values_def)
qed

lemma pdt_written:
  assumes "pattern_compile pattern = Inr els" and "length s \<le> 1000"
    and q: "pdt_ok q" "has_date_fields els" "has_time_fields els" "pdt_format q pattern = Inr s"
  shows "pdt_parse s pattern = Inr q"
proof -
  note v = plain_values_ok [OF q(1)]
  have "parse_with pattern set_date_time s = Inr (ps_resolve (reads (pdt_pattern_values q) els ps_default))"
    using parse_with_written [OF assms(1) _ v _ assms(2)] q(2,4) by (simp add: pdt_format_def has_date_fields_def)
  then show ?thesis
    using written_date [OF _ q(2) v refl, of q] written_time [OF _ q(3) v refl, of "pdt_time q"] q(1)
    by (simp add: pdt_parse_def err_bind_def or_err_def map_err_def pdt_pattern_values_def pdt_ok_def date_at_def)
qed

lemma odt_written:
  assumes "pattern_compile pattern = Inr els" and "length s \<le> 1000"
    and x: "odt_ok x" "offset_get (odt_offset x) mod 60 = 0" "has_date_fields els" "has_time_fields els" "has_offset_fields els"
      "odt_format x pattern = Inr s"
  shows "odt_parse s pattern = Inr x"
proof -
  define q where "q = odt_to_plain x"
  define v where "v = pv_with_offset (pdt_pattern_values q) (odt_offset x)"
  have q: "pdt_ok q" using odt_plain_ok [OF x(1)] by (simp add: q_def)
  have v: "values_ok v"
    using plain_values_ok [OF q] x(1,2) by (simp add: v_def values_ok_def pv_with_offset_def odt_ok_def)
  have e: "list_all fixed_element els" using x(3) by (simp add: has_date_fields_def)
  have p: "parse_with pattern set_date_time_offset s = Inr (ps_resolve (reads v els ps_default))"
    using parse_with_written [OF assms(1) _ v e assms(2)] x(6) by (simp add: odt_format_def v_def q_def)
  have o: "ps_offset_secs (ps_resolve (reads v els ps_default)) = Some (odt_offset x)"
    using reads_time(4) [OF e, of v ps_default] x(5) by (simp add: has_offset_fields_def v_def pv_with_offset_def)
  have fields: "pv_year v = d_year (pdt_date q)" "pv_month v = d_month (pdt_date q)" "pv_day v = d_day (pdt_date q)"
    "pv_weekday v = date_day_of_week (pdt_date q)" "pv_hour v = t_hour (pdt_time q)"
    "pv_minute v = t_minute (pdt_time q)" "pv_second v = t_second (pdt_time q)" "pv_nanos v = t_subsec (pdt_time q)"
    by (simp_all add: v_def pv_with_offset_def pdt_pattern_values_def)
  show ?thesis
    using p o written_date [OF _ x(3) v refl fields(1-4)] written_time [OF _ x(4) v refl fields(5-8)] q
      assume_own_offset [OF x(1)]
    by (simp add: odt_parse_def err_bind_def or_err_def map_err_def pdt_ok_def q_def date_at_def odt_to_plain_def)
qed

text \<open>C35. Formatting with a pattern and parsing with the same pattern gives the value back, to the
  nanosecond: for every pattern of fixed-width fields (numbers padded, names of months and weekdays,
  nine digits of fraction, a 24-hour clock or a 12-hour clock with its half of the day, offsets
  without seconds) and any literals between and around them, in any order, that names each part of the type.\<close>

theorem pattern_text_roundtrip:
  assumes "pattern_compile pattern = Inr els" and "length s \<le> 1000"
  shows "(date_ok d \<longrightarrow> has_date_fields els \<longrightarrow> date_format d pattern = Inr s \<longrightarrow> date_parse s pattern = Inr d)
    \<and> (time_ok t \<longrightarrow> has_time_fields els \<longrightarrow> time_format t pattern = Inr s \<longrightarrow> time_parse s pattern = Inr t)
    \<and> (pdt_ok q \<longrightarrow> has_date_fields els \<longrightarrow> has_time_fields els \<longrightarrow> pdt_format q pattern = Inr s
        \<longrightarrow> pdt_parse s pattern = Inr q)
    \<and> (odt_ok x \<longrightarrow> offset_get (odt_offset x) mod 60 = 0 \<longrightarrow> has_date_fields els \<longrightarrow> has_time_fields els \<longrightarrow> has_offset_fields els
        \<longrightarrow> odt_format x pattern = Inr s \<longrightarrow> odt_parse s pattern = Inr x)"
  by (auto intro: date_written [OF assms] time_written [OF assms] pdt_written [OF assms] odt_written [OF assms])

theorem pattern_text_roundtrip_witness:
  "odt_parse ''Thu 29 Feb 2024, 12:05:09.000000070 AM -0330'' ''EEE DD MMM YYYY, ii:mm:ss.fffffffff aa xx''
    = Inr \<lparr>odt_date = \<lparr>d_year = Year 2024, d_month = February, d_day = 29\<rparr>,
        odt_time = \<lparr>t_hour = 0, t_minute = 5, t_second = 9, t_subsec = SubSecNanos 70\<rparr>, odt_offset = Offset (-12600)\<rparr>"
  (is "odt_parse ?s ?p = Inr ?x")
proof -
  define els where "els = [Field WeekdayAbbr, Literal '' '', Field Day, Literal '' '', Field MonthAbbr, Literal '' '',
      Field Year4, Literal '', '', Field Hour12, Literal '':'', Field Minute, Literal '':'', Field Second, Literal ''.'',
      Field (FracExact 9), Literal '' '', Field AmPmFull, Literal '' '', Field (OffsetLower 2)]"
  have compiled: "pattern_compile ?p = Inr els" unfolding els_def by code_simp
  have short: "length ?s \<le> 1000" by simp
  have x: "odt_ok ?x" by code_simp
  have minutes: "offset_get (odt_offset ?x) mod 60 = 0" by simp
  have named: "has_date_fields els" "has_time_fields els" "has_offset_fields els"
    unfolding els_def by code_simp+
  have written: "odt_format ?x ?p = Inr ?s" by code_simp
  from pattern_text_roundtrip [OF compiled short, THEN conjunct2, THEN conjunct2, THEN conjunct2, rule_format,
      OF x minutes named written]
  show ?thesis .
qed

end
