(* ===== verification/Rfc2822.thy ===== *)
theory Rfc2822
  imports Pattern
begin

section \<open>RFC 2822 dates (\<open>src/src/common/rfc2822.rs\<close>)\<close>

text \<open>
  The printer, with an offset or with \<open>GMT\<close>, and the reader, which also takes the
  obsolete forms: no weekday, years of two and three digits, names of time zones, white space
  between the parts. Buffers that the source fills in place are concatenations here.
\<close>

definition weekday_names :: "bytes list" where
  "weekday_names = [''Mon'', ''Tue'', ''Wed'', ''Thu'', ''Fri'', ''Sat'', ''Sun'']"

definition month_names :: "bytes list" where
  "month_names = [''Jan'', ''Feb'', ''Mar'', ''Apr'', ''May'', ''Jun'', ''Jul'', ''Aug'', ''Sep'', ''Oct'', ''Nov'', ''Dec'']"

definition rfc_date_time :: "date \<Rightarrow> time \<Rightarrow> bytes" where
  "rfc_date_time d t =
     weekday_names ! (nat (weekday_iso (date_day_of_week d)) - 1) @ '', ''
     @ format_2_digits (d_day d) @ '' '' @ month_names ! (nat (month_get (d_month d)) - 1) @ '' ''
     @ format_4_digits (year_get (d_year d)) @ '' ''
     @ format_2_digits (t_hour t) @ '':'' @ format_2_digits (t_minute t) @ '':'' @ format_2_digits (t_second t) @ '' ''"

definition rfc2822_format :: "offset_datetime \<Rightarrow> bytes" where
  "rfc2822_format x =
     (let offset_abs = \<bar>offset_get (odt_offset x)\<bar>
      in rfc_date_time (odt_date x) (odt_time x)
         @ (if offset_get (odt_offset x) \<ge> 0 then ''+'' else ''-'')
         @ format_2_digits (as_u8 (offset_abs div 3600)) @ format_2_digits (as_u8 (offset_abs mod 3600 div 60)))"

definition rfc2822_format_gmt :: "instant \<Rightarrow> bytes" where
  "rfc2822_format_gmt i =
     (let p = instant_to_utc_plain i in rfc_date_time (pdt_date p) (pdt_time p) @ ''GMT'')"

subsection \<open>Reading\<close>

definition scan_ws :: "bool scanner" where
  "scan_ws s = (case scan_ascii_whitespace s of (b, s') \<Rightarrow> (Some b, s'))"

text \<open>\<open>ascii_whitespace().then_some(())?\<close>\<close>

definition scan_some_ws :: "unit scanner" where
  "scan_some_ws = scan_bind scan_ws (\<lambda>b. if b then scan_return () else scan_fail)"

definition scan_peeked :: "char scanner" where
  "scan_peeked s = (scan_peek s, s)"

text \<open>The number, from one, of the first name that matches.\<close>

fun name_index :: "int \<Rightarrow> bytes list \<Rightarrow> bytes \<Rightarrow> int option" where
  "name_index i [] s = None"
| "name_index i (name # names) s =
     (if list_all2 eq_ignore_case s name then Some i else name_index (i + 1) names s)"

definition rfc_parse_weekday :: "weekday scanner" where
  "rfc_parse_weekday =
     scan_bind (scan_take 3) (\<lambda>day_str.
     scan_bind (scan_lift (map_option weekday_from_iso_unchecked (name_index 1 weekday_names day_str))) (\<lambda>day.
     scan_bind scan_ws (\<lambda>_.
     scan_bind (scan_expect (CHR '','')) (\<lambda>_.
     scan_bind scan_ws (\<lambda>_. scan_return day)))))"

definition rfc_year :: "bytes \<Rightarrow> year option" where
  "rfc_year y_str =
     (if length y_str = 4 then extract_year y_str 0
      else if length y_str = 2 then
        map_option (\<lambda>y. if y < 50 then Year (2000 + y) else Year (1900 + y)) (extract_2_digits y_str 0)
      else if length y_str = 3 then
        do { a \<leftarrow> extract_digit y_str 0;
             b \<leftarrow> extract_digit y_str 1;
             c \<leftarrow> extract_digit y_str 2;
             Some (Year (1900 + a * 100 + b * 10 + c)) }
      else None)"

definition rfc_parse_date :: "weekday option \<Rightarrow> date scanner" where
  "rfc_parse_date expect_weekday =
     scan_bind scan_up_to_2_digits (\<lambda>day.
     scan_bind scan_some_ws (\<lambda>_.
     scan_bind (scan_take 3) (\<lambda>month_str.
     scan_bind (scan_lift (map_option month_new_unchecked (name_index 1 month_names month_str))) (\<lambda>month.
     scan_bind scan_some_ws (\<lambda>_.
     scan_bind (scan_take_until is_whitespace) (\<lambda>y_str.
     scan_bind (scan_lift (rfc_year y_str)) (\<lambda>year.
     scan_bind scan_ws (\<lambda>_.
     scan_bind (scan_lift (date_new year month day)) (\<lambda>d.
       case expect_weekday of
         Some w \<Rightarrow> if date_day_of_week d \<noteq> w then scan_fail else scan_return d
       | None \<Rightarrow> scan_return d)))))))))"

definition rfc_parse_time :: "time scanner" where
  "rfc_parse_time =
     scan_bind scan_digits00_23 (\<lambda>hour.
     scan_bind scan_ws (\<lambda>_.
     scan_bind (scan_expect (CHR '':'')) (\<lambda>_.
     scan_bind scan_ws (\<lambda>_.
     scan_bind scan_digits00_59 (\<lambda>minute.
     scan_bind scan_ws (\<lambda>whitespace_after_mins.
     scan_bind scan_peeked (\<lambda>c.
     scan_bind
       (if c = CHR '':'' then
          (\<lambda>s. scan_bind scan_ws (\<lambda>_.
               scan_bind scan_digits00_60_leap (\<lambda>val.
               scan_bind scan_some_ws (\<lambda>_. scan_return val))) (scan_skip 1 s))
        else if whitespace_after_mins then scan_return 0
        else scan_fail) (\<lambda>second.
       scan_return \<lparr>t_hour = hour, t_minute = minute, t_second = second, t_subsec = SubSecNanos subsec_min\<rparr>))))))))"

definition timezones :: "(bytes \<times> int) list" where
  "timezones = [(''GMT'', 0), (''UT'', 0), (''EST'', -5 * 3600), (''EDT'', -4 * 3600), (''CST'', -6 * 3600),
     (''CDT'', -5 * 3600), (''MST'', -7 * 3600), (''MDT'', -6 * 3600), (''PST'', -8 * 3600), (''PDT'', -7 * 3600)]"

text \<open>A name that is not known counts as GMT.\<close>

fun timezone_offset :: "(bytes \<times> int) list \<Rightarrow> bytes \<Rightarrow> int" where
  "timezone_offset [] tz = 0"
| "timezone_offset ((name, x) # rest) tz = (if list_all2 eq_ignore_case tz name then x else timezone_offset rest tz)"

definition rfc_hhmm :: "int scanner" where
  "rfc_hhmm s =
     scan_bind scan_digits00_23 (\<lambda>h. scan_bind scan_digits00_59 (\<lambda>m. scan_return (h * 3600 + m * 60))) (scan_skip 1 s)"

definition rfc_parse_offset :: "offset scanner" where
  "rfc_parse_offset =
     scan_bind scan_peeked (\<lambda>c.
       if c = CHR ''+'' then scan_bind rfc_hhmm (\<lambda>x. scan_return (Offset x))
       else if c = CHR ''-'' then scan_bind rfc_hhmm (\<lambda>x. scan_return (Offset (- x)))
       else
         scan_bind
           (scan_match (scan_take_until (\<lambda>b. \<not> is_ascii_alphabetic b)) (\<lambda>r. case r of
               Some tz \<Rightarrow> scan_return tz
             | None \<Rightarrow> (\<lambda>s. case scan_drain s of (tz, s') \<Rightarrow> (Some tz, s'))))
           (\<lambda>tz. if tz = [] then scan_fail else scan_return (Offset (timezone_offset timezones tz))))"

definition rfc2822_parse :: "bytes \<Rightarrow> (date \<times> time \<times> offset) option" where
  "rfc2822_parse s =
     fst (scan_bind scan_ws (\<lambda>_.
          scan_bind scan_peeked (\<lambda>c.
          scan_bind (if is_ascii_alphabetic c then scan_bind rfc_parse_weekday (\<lambda>w. scan_return (Some w))
                     else scan_return None) (\<lambda>expected_weekday.
          scan_bind (rfc_parse_date expected_weekday) (\<lambda>d.
          scan_bind rfc_parse_time (\<lambda>t.
          scan_bind rfc_parse_offset (\<lambda>x.
          scan_bind scan_ws (\<lambda>_ s.
            (if scan_is_done s then Some (d, t, x) else None, s)))))))) s)"

end
