(* ===== verification/Rfc2822_Facts.thy ===== *)
theory Rfc2822_Facts
  imports Rfc2822 Posix_Facts
begin

section \<open>Reading back RFC 2822 dates\<close>

text \<open>
  The reader inverts the printer up to what the format leaves out: fractions of a second and the
  seconds of the offset. Each scanner is followed through the text that the printer made. What
  the reader returns is valid whatever the text.
\<close>

lemma ws_space [simp]:
  "\<not> is_whitespace c \<Longrightarrow> scan_ws (CHR '' '' # c # s) = (Some True, c # s)"
  "\<not> is_whitespace c \<Longrightarrow> scan_ws (c # s) = (Some False, c # s)"
  "scan_ws [] = (Some False, [])"
  by (simp_all add: scan_ws_def scan_ascii_whitespace_def is_whitespace_def byte_def)

lemma digit_not_ws [simp]: "0 \<le> d \<Longrightarrow> d \<le> 9 \<Longrightarrow> \<not> is_whitespace (digit_char d)"
  by (simp add: is_whitespace_def)

lemma some_ws_space [simp]: "\<not> is_whitespace c \<Longrightarrow> scan_some_ws (CHR '' '' # c # s) = (Some (), c # s)"
  by (simp add: scan_some_ws_def scan_bind_def scan_match_def scan_return_def)

lemma weekday_name:
  obtains a b c i where "weekday_names ! (nat (weekday_iso w) - 1) = [a, b, c]" and "is_ascii_alphabetic a" "\<not> is_whitespace a"
    and "name_index 1 weekday_names [a, b, c] = Some i" and "weekday_from_iso_unchecked i = w"
proof -
  have "let n = weekday_names ! (nat (weekday_iso w) - 1)
      in length n = 3 \<and> is_ascii_alphabetic (n ! 0) \<and> \<not> is_whitespace (n ! 0)
        \<and> map_option weekday_from_iso_unchecked (name_index 1 weekday_names n) = Some w"
    by (cases w; simp only:) code_simp+
  then show ?thesis
    by (auto simp: Let_def numeral_3_eq_3 length_Suc_conv intro: that)
qed

lemma month_name:
  obtains a b c i where "month_names ! (nat (month_get m) - 1) = [a, b, c]" and "\<not> is_whitespace a"
    and "name_index 1 month_names [a, b, c] = Some i" and "month_new_unchecked i = m"
proof -
  have "let n = month_names ! (nat (month_get m) - 1)
      in length n = 3 \<and> \<not> is_whitespace (n ! 0) \<and> map_option month_new_unchecked (name_index 1 month_names n) = Some m"
    by (cases m; simp only:) code_simp+
  then show ?thesis
    by (auto simp: Let_def numeral_3_eq_3 length_Suc_conv intro: that)
qed

lemmas scan_steps = scan_bind_def scan_match_def scan_lift_def scan_take_def scan_expect_def scan_return_def

text \<open>There is more to read, and it is not white space.\<close>

definition starts :: "bytes \<Rightarrow> bool" where
  "starts s \<longleftrightarrow> s \<noteq> [] \<and> \<not> is_whitespace (hd s)"

lemma ws_starts [simp]:
  "starts s \<Longrightarrow> scan_ws (CHR '' '' # s) = (Some True, s)" "starts s \<Longrightarrow> scan_ws s = (Some False, s)"
  "starts s \<Longrightarrow> scan_some_ws (CHR '' '' # s) = (Some (), s)"
  by (cases s; simp add: starts_def)+

lemma starts_Cons [simp]: "starts (c # s) \<longleftrightarrow> \<not> is_whitespace c"
  by (simp add: starts_def)

lemma starts_digits [simp]:
  assumes "0 \<le> n" and "n < 100"
  shows "starts (format_2_digits n @ s)"
  using two_digits_of [OF assms] by (metis append_Cons digit_not_ws starts_Cons)

lemma read_weekday:
  assumes "starts s"
  shows "rfc_parse_weekday (weekday_names ! (nat (weekday_iso w) - 1) @ '', '' @ s) = (Some w, s)"
proof (rule weekday_name [of w])
  fix a b c i
  assume n: "weekday_names ! (nat (weekday_iso w) - 1) = [a, b, c]" "\<not> is_whitespace a"
    "name_index 1 weekday_names [a, b, c] = Some i" "weekday_from_iso_unchecked i = w"
  have "\<not> is_whitespace (CHR '','')" by code_simp
  with assms n show ?thesis
    by (simp add: rfc_parse_weekday_def scan_steps)
qed

lemma read_date:
  assumes "date_ok x" and "starts s"
  shows "rfc_parse_date (Some (date_day_of_week x))
    (format_2_digits (d_day x) @ '' '' @ month_names ! (nat (month_get (d_month x)) - 1) @ '' ''
      @ format_4_digits (year_get (d_year x)) @ '' '' @ s) = (Some x, s)"
proof (rule month_name [of "d_month x"])
  fix a b c i
  assume n: "month_names ! (nat (month_get (d_month x)) - 1) = [a, b, c]" "\<not> is_whitespace a"
    "name_index 1 month_names [a, b, c] = Some i" "month_new_unchecked i = d_month x"
  have y: "0 < year_get (d_year x)" "year_get (d_year x) < 10000" and d: "0 \<le> d_day x" "d_day x < 100"
    using assms(1) days_in_month_range(2) [of "d_year x" "d_month x"] by (auto simp: date_ok_def year_ok_def)
  have sp: "is_whitespace (CHR '' '')" "\<not> is_ascii_digit (CHR '' '')" by code_simp+
  from four_digits_of [OF less_imp_le [OF y(1)] y(2)] obtain p q r t where
    dig: "0 \<le> p" "p \<le> 9" "0 \<le> q" "q \<le> 9" "0 \<le> r" "r \<le> 9" "0 \<le> t" "t \<le> 9"
    and yv: "year_get (d_year x) = p * 1000 + q * 100 + r * 10 + t"
    and yt: "format_4_digits (year_get (d_year x)) = [digit_char p, digit_char q, digit_char r, digit_char t]" by metis
  from two_digits_of [OF d] obtain u v where
    dd: "0 \<le> u" "u \<le> 9" "0 \<le> v" "v \<le> 9" "d_day x = u * 10 + v"
    and dt: "format_2_digits (d_day x) = [digit_char u, digit_char v]" by metis
  have year: "rfc_year [digit_char p, digit_char q, digit_char r, digit_char t] = Some (d_year x)"
    using dig y(1) by (simp add: rfc_year_def extract_year_def extract_digit_def numeral_nat year.expand flip: yv)
  have day: "scan_up_to_2_digits (digit_char u # digit_char v # z) = (Some (d_day x), z)" for z
    using dd by (simp add: scan_up_to_2_digits_def scan_steps)
  have until: "scan_take_until is_whitespace (digit_char p # digit_char q # digit_char r # digit_char t # CHR '' '' # z)
      = (Some [digit_char p, digit_char q, digit_char r, digit_char t], CHR '' '' # z)" for z
    using dig sp by (simp add: scan_take_until_def numeral_nat)
  have new: "date_new (d_year x) (d_month x) (d_day x) = Some x" by (rule date_new_fields [OF assms(1)])
  show ?thesis
    using n dig assms(2)
    by (simp add: rfc_parse_date_def day dt yt until year new scan_steps)
qed

lemma read_time:
  assumes "time_ok t" and "starts s"
  shows "rfc_parse_time (format_2_digits (t_hour t) @ '':'' @ format_2_digits (t_minute t) @ '':''
      @ format_2_digits (t_second t) @ '' '' @ s) = (Some (t\<lparr>t_subsec := SubSecNanos 0\<rparr>), s)"
proof -
  have r: "0 \<le> t_hour t" "t_hour t < 24" "0 \<le> t_minute t" "t_minute t < 60" "0 \<le> t_second t" "t_second t < 60"
    using assms(1) by (simp_all add: time_ok_def)
  have colon: "\<not> is_whitespace (CHR '':'')" by code_simp
  have t: "t\<lparr>t_subsec := SubSecNanos 0\<rparr> = \<lparr>t_hour = t_hour t, t_minute = t_minute t, t_second = t_second t, t_subsec = SubSecNanos 0\<rparr>"
    by (cases t) simp
  show ?thesis
    unfolding t using r assms(2) colon
    by (simp add: rfc_parse_time_def scan_steps scan_peeked_def scan_peek_def scan_skip_def subsec_min_def)
qed

lemma read_offset:
  assumes "offset_ok x" and "offset_get x mod 60 = 0"
  shows "rfc_parse_offset ((if offset_get x \<ge> 0 then ''+'' else ''-'')
      @ format_2_digits (as_u8 (\<bar>offset_get x\<bar> div 3600)) @ format_2_digits (as_u8 (\<bar>offset_get x\<bar> mod 3600 div 60)))
    = (Some x, [])"
proof -
  define a where "a = \<bar>offset_get x\<bar>"
  have a: "0 \<le> a" "a < 86400" using assms(1) by (auto simp: a_def offset_ok_def bound_defs)
  have h: "0 \<le> a div 3600" "a div 3600 < 24" using a by (simp_all add: pos_imp_zdiv_nonneg_iff)
  have m: "0 \<le> a mod 3600 div 60" "a mod 3600 div 60 < 60"
    by (simp_all add: pos_imp_zdiv_nonneg_iff less_mult_imp_div_less)
  have "a mod 60 = 0" using assms(2) unfolding a_def by (cases "offset_get x \<ge> 0") (simp_all add: zmod_zminus1_eq_if)
  then have "a mod 3600 mod 60 = 0" by (simp add: mod_mod_cancel)
  then have sum: "a div 3600 * 3600 + a mod 3600 div 60 * 60 = a"
    using div_mult_mod_eq [of a 3600] div_mult_mod_eq [of "a mod 3600" 60] by simp
  have "scan_digits00_59 (format_2_digits (a mod 3600 div 60)) = (Some (a mod 3600 div 60), [])"
    using scan_digits00_59_format [OF m, of "[]"] by simp
  then have hhmm: "rfc_hhmm (c # format_2_digits (a div 3600) @ format_2_digits (a mod 3600 div 60)) = (Some a, [])" for c
    using h m sum by (simp add: rfc_hhmm_def scan_skip_def scan_steps)
  have cast: "as_u8 (a div 3600) = a div 3600" "as_u8 (a mod 3600 div 60) = a mod 3600 div 60" using h m by simp_all
  have "x = (if offset_get x \<ge> 0 then Offset a else Offset (- a))" by (cases x) (simp add: a_def)
  then show ?thesis
    unfolding a_def [symmetric] cast
    by (cases "offset_get x \<ge> 0") (simp_all add: rfc_parse_offset_def scan_steps scan_peeked_def scan_peek_def hhmm)
qed

lemma rfc_roundtrip:
  assumes "odt_ok x" and "offset_get (odt_offset x) mod 60 = 0"
  shows "rfc2822_parse (rfc2822_format x) = Some (odt_date x, (odt_time x)\<lparr>t_subsec := SubSecNanos 0\<rparr>, odt_offset x)"
proof -
  have ok: "date_ok (odt_date x)" "time_ok (odt_time x)" "offset_ok (odt_offset x)" using assms(1) by (simp_all add: odt_ok_def)
  define out where "out = (if offset_get (odt_offset x) \<ge> 0 then ''+'' else ''-'')
      @ format_2_digits (as_u8 (\<bar>offset_get (odt_offset x)\<bar> div 3600))
      @ format_2_digits (as_u8 (\<bar>offset_get (odt_offset x)\<bar> mod 3600 div 60))"
  have "\<not> is_whitespace (CHR ''+'')" "\<not> is_whitespace (CHR ''-'')" by code_simp+
  then have start: "starts out" by (simp add: out_def)
  have d: "0 \<le> d_day (odt_date x)" "d_day (odt_date x) < 100"
    using ok(1) days_in_month_range(2) [of "d_year (odt_date x)" "d_month (odt_date x)"] by (auto simp: date_ok_def)
  have h: "0 \<le> t_hour (odt_time x)" "t_hour (odt_time x) < 100" using ok(2) by (simp_all add: time_ok_def)
  note offset = read_offset [OF ok(3) assms(2), folded out_def]
  note time = read_time [OF ok(2) start]
  note date = read_date [OF ok(1) starts_digits [OF h], of "'':'' @ format_2_digits (t_minute (odt_time x)) @ '':''
      @ format_2_digits (t_second (odt_time x)) @ '' '' @ out"]
  note weekday = read_weekday [OF starts_digits [OF d]]
  obtain a b c where name: "weekday_names ! (nat (weekday_iso (date_day_of_week (odt_date x))) - 1) = [a, b, c]"
    and "is_ascii_alphabetic a" "\<not> is_whitespace a" by (rule weekday_name)
  then show ?thesis
    using weekday [of "date_day_of_week (odt_date x)", unfolded name] time date offset
    unfolding name rfc2822_format_def rfc_date_time_def out_def [symmetric] rfc2822_parse_def Let_def
    by (simp add: scan_steps scan_peeked_def scan_peek_def scan_is_done_def)
qed

text \<open>C37. \<open>rfc2822::parse\<close> reads back what \<open>rfc2822::format\<close> printed, for every valid
  date-time whose offset is in whole minutes: the date, the time without its fraction, and the
  offset.\<close>

theorem rfc2822_roundtrip:
  assumes "odt_ok x" and "offset_get (odt_offset x) mod 60 = 0"
  shows "rfc2822_parse (rfc2822_format x) = Some (odt_date x, (odt_time x)\<lparr>t_subsec := SubSecNanos 0\<rparr>, odt_offset x)"
  by (rule rfc_roundtrip [OF assms])

theorem rfc2822_roundtrip_witness:
  "rfc2822_parse ''Thu, 29 Feb 2024 23:59:58 -0930''
    = Some (\<lparr>d_year = Year 2024, d_month = February, d_day = 29\<rparr>,
        \<lparr>t_hour = 23, t_minute = 59, t_second = 58, t_subsec = SubSecNanos 0\<rparr>, Offset (-34200))"
proof -
  let ?x = "\<lparr>odt_date = \<lparr>d_year = Year 2024, d_month = February, d_day = 29\<rparr>,
      odt_time = \<lparr>t_hour = 23, t_minute = 59, t_second = 58, t_subsec = SubSecNanos 7\<rparr>, odt_offset = Offset (-34200)\<rparr>"
  have "odt_ok ?x" "offset_get (odt_offset ?x) mod 60 = 0" "rfc2822_format ?x = ''Thu, 29 Feb 2024 23:59:58 -0930''"
    by code_simp+
  with rfc2822_roundtrip [of ?x] show ?thesis by simp
qed

subsection \<open>What the reader returns\<close>

lemma rfc_year_ok: "rfc_year s = Some y \<Longrightarrow> year_ok y"
  using digit_val_range
  by (auto simp: rfc_year_def extract_year_def extract_2_digits_def extract_digit_def year_ok_def Let_def
      split: if_splits bind_splits dest!: digit_val_range)

lemma yields_date:
  "yields (rfc_parse_date w) date_ok"
proof -
  have new: "yields (scan_lift (date_new y m d)) date_ok" if "year_ok y" for y m d
    using that by (auto simp: date_new_def date_ok_def)
  have last: "yields (case w of Some w \<Rightarrow> if date_day_of_week d \<noteq> w then scan_fail else scan_return d | None \<Rightarrow> scan_return d) date_ok"
    if "date_ok d" for d using that by (simp split: option.split)
  have year: "yields (scan_lift (rfc_year s)) year_ok" for s using rfc_year_ok by (auto simp: pred_option_def)
  show ?thesis
    unfolding rfc_parse_date_def
    by (rule yields_bind [OF yields_any], rule yields_bind [OF yields_any], rule yields_bind [OF yields_any],
        rule yields_bind [OF yields_any], rule yields_bind [OF yields_any], rule yields_bind [OF yields_any],
        rule yields_bind [OF year], rule yields_bind [OF yields_any], rule yields_bind [OF new], assumption, rule last)
qed

lemma yields_time: "yields rfc_parse_time time_ok"
proof -
  have hour: "yields scan_digits00_23 (\<lambda>n. 0 \<le> n \<and> n < 24)" and minute: "yields scan_digits00_59 (\<lambda>n. 0 \<le> n \<and> n < 60)"
    and second: "yields scan_digits00_60_leap (\<lambda>n. 0 \<le> n \<and> n < 60)"
    using scan_two_digits_range by (auto simp: yields_def)
  have "yields (scan_bind scan_ws (\<lambda>_. scan_bind scan_digits00_60_leap (\<lambda>v. scan_bind scan_some_ws (\<lambda>_. scan_return v))))
      (\<lambda>n. 0 \<le> n \<and> n < 60)"
    by (rule yields_bind [OF yields_any], rule yields_bind [OF second], rule yields_bind [OF yields_any]) simp
  then have seconds: "yields (\<lambda>s. scan_bind scan_ws (\<lambda>_. scan_bind scan_digits00_60_leap (\<lambda>v. scan_bind scan_some_ws
      (\<lambda>_. scan_return v))) (scan_skip 1 s)) (\<lambda>n. 0 \<le> n \<and> n < 60)"
    by (auto simp: yields_def)
  show ?thesis
    unfolding rfc_parse_time_def
    by (rule yields_bind [OF hour], rule yields_bind [OF yields_any], rule yields_bind [OF yields_any],
        rule yields_bind [OF yields_any], rule yields_bind [OF minute], rule yields_bind [OF yields_any],
        rule yields_bind [OF yields_any], rule yields_bind [of _ "\<lambda>n. 0 \<le> n \<and> n < 60"],
        intro yields_if, rule seconds)
      (auto simp: time_ok_def subsec_ok_def bound_defs)
qed

lemma timezone_offset_ok: "offset_ok (Offset (timezone_offset timezones tz))"
  by (simp add: timezones_def offset_ok_def bound_defs)

lemma yields_offset: "yields rfc_parse_offset offset_ok"
proof -
  have hour: "yields scan_digits00_23 (\<lambda>n. 0 \<le> n \<and> n < 24)" and minute: "yields scan_digits00_59 (\<lambda>n. 0 \<le> n \<and> n < 60)"
    using scan_two_digits_range by (auto simp: yields_def)
  have "yields (scan_bind scan_digits00_23 (\<lambda>h. scan_bind scan_digits00_59 (\<lambda>m. scan_return (h * 3600 + m * 60))))
      (\<lambda>n. 0 \<le> n \<and> n < 86400)"
    by (rule yields_bind [OF hour], rule yields_bind [OF minute]) simp
  then have hhmm: "yields rfc_hhmm (\<lambda>n. 0 \<le> n \<and> n < 86400)"
    by (auto simp: yields_def rfc_hhmm_def)
  show ?thesis
    unfolding rfc_parse_offset_def
    by (rule yields_bind [OF yields_any], intro yields_if)
      (rule yields_bind [OF hhmm], simp add: offset_ok_def bound_defs,
       rule yields_bind [OF hhmm], simp add: offset_ok_def bound_defs,
       rule yields_bind [OF yields_any], simp add: timezone_offset_ok)
qed

text \<open>Whatever the text, what \<open>rfc2822::parse\<close> returns is a valid date, time and offset: its
  unchecked constructors (years of two and three digits, offsets) stay within their bounds.\<close>

theorem rfc2822_parse_well_formed:
  assumes "rfc2822_parse s = Some (d, t, x)"
  shows "date_ok d \<and> time_ok t \<and> offset_ok x"
  using assms
  by (auto simp: rfc2822_parse_def scan_bind_Some scan_simps split: prod.splits option.splits if_splits
      dest!: yieldsD [OF yields_date] yieldsD [OF yields_time] yieldsD [OF yields_offset])

end
