(* ===== verification/Methods.thy ===== *)
theory Methods
  imports Pattern_Types Rfc2822
begin

section \<open>The methods of the classes (\<open>src/src/classes/*.rs\<close>)\<close>

text \<open>
  What the methods do with their arguments once these have been extracted from the Python
  objects. The exceptions are the kinds that the methods raise; warnings, which do not change the
  result, are left out, as are the \<open>total\<close> variants that return a floating-point number. An
  optional argument is an \<open>option\<close>, looking up a time zone is a parameter.
\<close>

datatype exc =
    ExcValue | ExcRange | ExcType | ExcZeroDivision | ExcRepeated | ExcSkipped | ExcInvalidOffset | ExcTzNotFound | ExcOverflow

text \<open>\<open>ok_or_range_err()?\<close> and \<open>?\<close> on a computation that may panic.\<close>

abbreviation or_range :: "'a option \<Rightarrow> exc + 'a" where
  "or_range x \<equiv> or_err x ExcRange"

definition run_err :: "('e + 'a) run \<Rightarrow> ('a \<Rightarrow> ('e + 'b) run) \<Rightarrow> ('e + 'b) run" where
  "run_err m f = run_bind m (\<lambda>r. case r of Inl e \<Rightarrow> Done (Inl e) | Inr x \<Rightarrow> f x)"

definition run_range :: "'a option run \<Rightarrow> (exc + 'a) run" where
  "run_range m = run_bind m (\<lambda>r. Done (or_range r))"

subsection \<open>\<open>Date\<close>\<close>

definition date_from_i64_components :: "int \<Rightarrow> int \<Rightarrow> int \<Rightarrow> date option" where
  "date_from_i64_components y m day =
     do { year \<leftarrow> year_from_i64 y;
          month \<leftarrow> month_from_i64 m;
          if day \<ge> 1 \<and> day \<le> year_days_in_month year month
          then Some \<lparr>d_year = year, d_month = month, d_day = as_u8 day\<rparr> else None }"

definition date_next_day :: "date \<Rightarrow> exc + date" where
  "date_next_day d = or_range (date_shift d (DeltaMonths 0) (DeltaDays 1))"

definition date_prev_day :: "date \<Rightarrow> exc + date" where
  "date_prev_day d = or_range (date_shift d (DeltaMonths 0) (DeltaDays (-1)))"

definition date_nth_weekday_of_month :: "date \<Rightarrow> int \<Rightarrow> weekday \<Rightarrow> exc + date" where
  "date_nth_weekday_of_month d n w =
     (if n = 0 then Inl ExcValue
      else if \<not> (-5 \<le> n \<and> n \<le> 5) then Inl ExcValue
      else or_err (date_nth_weekday_in_month (d_year d) (d_month d) n w) ExcValue)"

definition date_nth_weekday :: "date \<Rightarrow> int \<Rightarrow> weekday \<Rightarrow> exc + date" where
  "date_nth_weekday d n target =
     (if n = 0 then Inl ExcValue
      else if \<not> (-521722 \<le> n \<and> n \<le> 521722) then Inl ExcValue
      else
        (let target_dow = weekday_iso target;
             self_dow = weekday_iso (date_day_of_week d);
             days = (if n > 0 then
                       (let off = (target_dow - self_dow) mod 7;
                            off' = (if off = 0 then 7 else off)
                        in off' + (n - 1) * 7)
                     else
                       (let off = (self_dow - target_dow) mod 7;
                            off' = (if off = 0 then 7 else off)
                        in - (off' + (- n - 1) * 7)))
         in err_bind (or_range (delta_days_new days)) (\<lambda>x. or_range (date_shift d (DeltaMonths 0) x))))"

definition date_since_iddelta :: "date \<Rightarrow> date \<Rightarrow> unit_mask \<Rightarrow> mode \<Rightarrow> calendar_increment
    \<Rightarrow> exc + itemized_date_delta" where
  "date_since_iddelta a b units m increment =
     (let neg = a < b
      in err_bind (or_range (date_diff a b increment units neg)) (\<lambda>(result, trunc, expand).
           Inr (idd_round_by_days result (cus_smallest units) a (im_resolve trunc) (im_resolve expand)
             (mode_to_abs_trunc m neg) increment neg)))"

definition date_days_since :: "date \<Rightarrow> date \<Rightarrow> int" where
  "date_days_since d other = delta_days_get (unix_days_diff (date_unix_days d) (date_unix_days other))"

definition date_days_until :: "date \<Rightarrow> date \<Rightarrow> int" where
  "date_days_until d other = delta_days_get (unix_days_diff (date_unix_days other) (date_unix_days d))"

subsection \<open>\<open>Time\<close>\<close>

definition time_from_i64_components :: "int \<Rightarrow> int \<Rightarrow> int \<Rightarrow> int \<Rightarrow> time option" where
  "time_from_i64_components hour minute second nanos =
     (if 0 \<le> hour \<and> hour < 24 \<and> 0 \<le> minute \<and> minute < 60 \<and> 0 \<le> second \<and> second < 60
      then do { subsec \<leftarrow> subsec_from_i64 nanos;
                Some \<lparr>t_hour = as_u8 hour, t_minute = as_u8 minute, t_second = as_u8 second, t_subsec = subsec\<rparr> }
      else None)"

subsection \<open>\<open>TimeDelta\<close>\<close>

definition td_mul_int :: "time_delta \<Rightarrow> int \<Rightarrow> exc + time_delta" where
  "td_mul_int d factor =
     (if factor = 1 then Inr d
      else or_range (checked i128_ok (td_total_nanos d * factor) \<bind> td_from_nanos))"

text \<open>The division truncates (\<open>sdiv\<close>, \<open>smod\<close>), the result is adjusted to the floor.\<close>

definition td_floordiv :: "time_delta \<Rightarrow> time_delta \<Rightarrow> exc + int" where
  "td_floordiv d other =
     (if td_is_zero other then Inl ExcZeroDivision
      else
        (let a = td_total_nanos d;
             b = td_total_nanos other;
             result = a sdiv b
         in Inr (if sgn a \<noteq> sgn b \<and> a smod b \<noteq> 0 then result - 1 else result)))"

definition td_mod :: "time_delta \<Rightarrow> time_delta \<Rightarrow> exc + time_delta" where
  "td_mod d other =
     (let a = td_total_nanos d;
          b = td_total_nanos other
      in if b = 0 then Inl ExcZeroDivision
         else (let result = a smod b
               in Inr (td_from_nanos_unchecked (if sgn a \<noteq> sgn b \<and> result \<noteq> 0 then result + b else result))))"

definition td_in_hrs_mins_secs_nanos :: "time_delta \<Rightarrow> int \<times> int \<times> int \<times> int" where
  "td_in_hrs_mins_secs_nanos d =
     (let secs = delta_seconds_get (td_secs d);
          (secs', nanos) =
            (if secs \<ge> 0 then (secs, subsec_get (td_subsec d))
             else if subsec_get (td_subsec d) = 0 then (secs, 0)
             else (secs + 1, subsec_get (td_subsec d) - ns_per_sec))
      in (secs' sdiv 3600, (secs' smod 3600) sdiv 60, secs' smod 60, nanos))"

subsection \<open>\<open>Instant\<close>\<close>

definition instant_from_utc :: "int \<Rightarrow> int \<Rightarrow> int \<Rightarrow> int \<Rightarrow> int \<Rightarrow> int \<Rightarrow> int \<Rightarrow> exc + instant" where
  "instant_from_utc year month day hour minute second nanosecond =
     err_bind (or_err (date_from_i64_components year month day) ExcValue) (\<lambda>d.
     err_bind (or_err (time_from_i64_components hour minute second nanosecond) ExcValue) (\<lambda>t.
       Inr (pdt_assume_utc (date_at d t))))"

definition instant_str :: "instant \<Rightarrow> bytes" where
  "instant_str i =
     (let p = instant_to_utc_plain i
      in date_iso_format (pdt_date p) False @ ''T'' @ time_iso_format (pdt_time p) PAuto False @ ''Z'')"

definition instant_parse_iso :: "bytes \<Rightarrow> exc + instant" where
  "instant_parse_iso s = err_bind (or_err (odt_parse_iso s) ExcValue) (\<lambda>x. Inr (odt_to_instant x))"

definition instant_shift_method :: "instant \<Rightarrow> time_delta \<Rightarrow> bool \<Rightarrow> exc + instant" where
  "instant_shift_method i d negate = or_range (instant_shift i (td_negate_if d negate))"

definition instant_to_fixed_offset :: "instant \<Rightarrow> offset option \<Rightarrow> exc + offset_datetime" where
  "instant_to_fixed_offset i x =
     (case x of
        None \<Rightarrow> Inr (pdt_assume_offset_unchecked (instant_to_utc_plain i) (Offset 0))
      | Some x' \<Rightarrow> or_range (instant_to_offset i x'))"

definition odt_parse_rfc2822 :: "bytes \<Rightarrow> exc + offset_datetime" where
  "odt_parse_rfc2822 s =
     err_bind (or_err (rfc2822_parse s) ExcValue) (\<lambda>(d, t, x). or_range (pdt_assume_offset (date_at d t) x))"

definition instant_parse_rfc2822 :: "bytes \<Rightarrow> exc + instant" where
  "instant_parse_rfc2822 s =
     err_bind (or_err (rfc2822_parse s) ExcValue) (\<lambda>(d, t, x).
     err_bind (or_range (pdt_assume_offset (date_at d t) x)) (\<lambda>o1. Inr (odt_to_instant o1)))"

text \<open>A rounding increment: a day, or nanoseconds. Both unwraps are of values that the arguments
  ensure: the increment is positive and at most a day, and \<open>TimeDelta\<close> reaches beyond \<open>Instant\<close>.\<close>

datatype round_increment = RoundDay | RoundExact int

definition instant_round :: "instant \<Rightarrow> round_increment \<Rightarrow> mode \<Rightarrow> exc + instant" where
  "instant_round i increment m =
     (case increment of
        RoundDay \<Rightarrow> Inl ExcValue
      | RoundExact ns \<Rightarrow>
          (let d = the (td_round (instant_to_delta i) (the (di_from_nanos ns))
                     (mode_to_abs_euclid m (epoch_get (i_epoch i) < 0)))
           in err_bind (or_range (epoch_new (delta_seconds_get (td_secs d)))) (\<lambda>e.
                Inr \<lparr>i_epoch = e, i_subsec = td_subsec d\<rparr>)))"

subsection \<open>\<open>PlainDateTime\<close>\<close>

definition pdt_str :: "plain_datetime \<Rightarrow> bytes" where
  "pdt_str p = date_iso_format (pdt_date p) False @ ''T'' @ time_iso_format (pdt_time p) PAuto False"

definition pdt_shift_method :: "plain_datetime \<Rightarrow> datetime_shift \<Rightarrow> bool \<Rightarrow> exc + plain_datetime" where
  "pdt_shift_method p s negate = or_range (pdt_shift_by p (ds_negate_if s negate))"

definition pdt_round :: "plain_datetime \<Rightarrow> round_increment \<Rightarrow> mode \<Rightarrow> exc + plain_datetime" where
  "pdt_round p increment m =
     (let round_nanos = (case increment of RoundDay \<Rightarrow> ns_per_day | RoundExact ns \<Rightarrow> ns);
          (time_rounded, next_day) = time_round (pdt_time p) round_nanos m
      in err_bind (if next_day = 1 then or_range (date_tomorrow (pdt_date p)) else Inr (pdt_date p)) (\<lambda>d.
           Inr (pdt_with_time (pdt_with_date p d) time_rounded)))"

text \<open>The derived order of \<open>PlainDateTime\<close>: the date, then the time.\<close>

definition pdt_cmp :: "plain_datetime \<Rightarrow> plain_datetime \<Rightarrow> ordering" where
  "pdt_cmp p q = cmp (pdt_date p, pdt_time p) (pdt_date q, pdt_time q)"

text \<open>The date from which the calendar units are counted: the date of \<open>a\<close>, or its neighbour
  where the time of \<open>b\<close> on that date would pass \<open>a\<close>.\<close>

definition pdt_target_date :: "plain_datetime \<Rightarrow> plain_datetime \<Rightarrow> bool \<Rightarrow> date option" where
  "pdt_target_date a b neg =
     (let c = pdt_cmp (pdt_with_date b (pdt_date a)) a
      in if \<not> neg \<and> c = Greater then date_yesterday (pdt_date a)
         else if neg \<and> c = Less then date_tomorrow (pdt_date a)
         else Some (pdt_date a))"

definition plain_since_in_units :: "plain_datetime \<Rightarrow> plain_datetime \<Rightarrow> date \<Rightarrow> unit_mask \<Rightarrow> mode
    \<Rightarrow> difference_increment \<Rightarrow> bool \<Rightarrow> itemized_delta option" where
  "plain_since_in_units a b target_date units round_mode round_increment neg =
     (let (calendar_units, exact_units) = dus_split_calendar_exact units
      in do { (calendar_results, trunc_date, expand_date) \<leftarrow>
                (if um_is_empty calendar_units then Some (idd_unset, im_of_date (pdt_date b), im_of_date (pdt_date a))
                 else do { inc \<leftarrow> (case du_to_exact_with_days (dus_smallest units) False of
                             Inl _ \<Rightarrow> dinc_to_calendar round_increment | Inr _ \<Rightarrow> Some ci_min);
                           date_diff target_date (pdt_date b) inc calendar_units neg });
              let trunc_dt = pdt_with_date b (im_resolve trunc_date);
                  expand_dt = pdt_with_date b (im_resolve expand_date)
              in if um_is_empty exact_units then
                   do { inc \<leftarrow> dinc_to_calendar round_increment;
                        Some (id_fill_calendar_units id_unset
                          (idd_round_by_time calendar_results (cus_smallest calendar_units) (pdt_assume_utc a)
                            (pdt_assume_utc trunc_dt) (pdt_assume_utc expand_dt)
                            (mode_to_abs_trunc round_mode neg) inc neg)) }
                 else
                   do { result \<leftarrow> td_in_exact_units (pdt_diff a trunc_dt) exact_units round_increment
                          (mode_to_abs_euclid round_mode neg);
                        Some (id_fill_calendar_units result calendar_results) } })"

text \<open>\<open>since\<close> and, flipped, \<open>until\<close>, in units.\<close>

definition plain_since_inner :: "plain_datetime \<Rightarrow> plain_datetime \<Rightarrow> unit_mask \<Rightarrow> mode \<Rightarrow> difference_increment
    \<Rightarrow> bool \<Rightarrow> exc + itemized_delta" where
  "plain_since_inner p other units m increment flip =
     (let (a, b) = (if flip then (other, p) else (p, other));
          neg = (pdt_cmp a b = Less)
      in err_bind (or_range (pdt_target_date a b neg)) (\<lambda>target_date.
           or_range (plain_since_in_units a b target_date units m increment neg)))"

subsection \<open>\<open>OffsetDateTime\<close>\<close>

definition odt_str :: "offset_datetime \<Rightarrow> bytes" where
  "odt_str x = date_iso_format (odt_date x) False @ ''T'' @ time_iso_format (odt_time x) PAuto False
     @ offset_format_write (offset_iso_format (odt_offset x) False)"

definition odt_to_fixed_offset :: "offset_datetime \<Rightarrow> offset option \<Rightarrow> exc + offset_datetime" where
  "odt_to_fixed_offset x new =
     (case new of None \<Rightarrow> Inr x | Some x' \<Rightarrow> or_range (instant_to_offset (odt_to_instant x) x'))"

definition odt_start_of :: "offset_datetime \<Rightarrow> datetime_boundary_unit \<Rightarrow> exc + offset_datetime" where
  "odt_start_of x u =
     err_bind (or_range (pdt_start_of_unit (odt_to_plain x) u)) (\<lambda>p. or_range (pdt_assume_offset p (odt_offset x)))"

definition odt_end_of :: "offset_datetime \<Rightarrow> datetime_boundary_unit \<Rightarrow> exc + offset_datetime" where
  "odt_end_of x u =
     err_bind (or_range (pdt_end_of_unit (odt_to_plain x) u)) (\<lambda>p. or_range (pdt_assume_offset p (odt_offset x)))"

definition odt_replace_date :: "offset_datetime \<Rightarrow> date \<Rightarrow> exc + offset_datetime" where
  "odt_replace_date x d = or_range (pdt_assume_offset (date_at d (odt_time x)) (odt_offset x))"

definition odt_replace_time :: "offset_datetime \<Rightarrow> time \<Rightarrow> exc + offset_datetime" where
  "odt_replace_time x t = or_range (pdt_assume_offset (date_at (odt_date x) t) (odt_offset x))"

definition odt_shift_method :: "offset_datetime \<Rightarrow> datetime_shift \<Rightarrow> bool \<Rightarrow> exc + offset_datetime" where
  "odt_shift_method x s negate = or_range (odt_shift_by x (ds_negate_if s negate))"

text \<open>The result is built without \<open>assume_offset\<close>, so its range is not checked.\<close>

definition odt_round :: "offset_datetime \<Rightarrow> round_increment \<Rightarrow> mode \<Rightarrow> exc + offset_datetime" where
  "odt_round x increment m =
     (let round_nanos = (case increment of RoundDay \<Rightarrow> ns_per_day | RoundExact ns \<Rightarrow> ns);
          (time_rounded, next_day) = time_round (odt_time x) round_nanos m
      in err_bind (if next_day = 1 then or_range (date_tomorrow (odt_date x)) else Inr (odt_date x)) (\<lambda>d.
           Inr \<lparr>odt_date = d, odt_time = time_rounded, odt_offset = odt_offset x\<rparr>))"

text \<open>Exact units are counted between the instants, calendar units ask for the same offset. The
  unwrapped \<open>to_exact_assuming_24h_days\<close> is on a set without years and months.\<close>

definition odt_since :: "offset_datetime \<Rightarrow> offset_datetime \<Rightarrow> unit_mask \<Rightarrow> mode \<Rightarrow> difference_increment
    \<Rightarrow> bool \<Rightarrow> exc + itemized_delta" where
  "odt_since x other units m increment flip =
     (if dus_has_calendar units then
        (if odt_offset x = odt_offset other
         then plain_since_inner (odt_to_plain x) (odt_to_plain other) units m increment flip
         else Inl ExcValue)
      else
        (let (a, b) = (if flip then (other, x) else (x, other));
             diff = instant_diff (odt_to_instant a) (odt_to_instant b)
         in or_range (td_in_exact_units diff (the (dus_to_exact_assuming_24h_days units)) increment
              (mode_to_abs_euclid m (td_is_negative diff)))))"

subsection \<open>\<open>ZonedDateTime\<close>\<close>

definition pdt_resolve_or_raise :: "plain_datetime \<Rightarrow> time_zone \<Rightarrow> resolve_policy \<Rightarrow> (exc + offset_datetime) run" where
  "pdt_resolve_or_raise p tz policy =
     run_bind (pdt_resolve_in p tz policy) (\<lambda>r. Done (
       case r of
         Inr resolved \<Rightarrow> Inr resolved
       | Inl FoldError \<Rightarrow> Inl ExcRepeated
       | Inl GapError \<Rightarrow> Inl ExcSkipped
       | Inl OutOfRange \<Rightarrow> Inl ExcRange))"

definition instant_into_zoned :: "instant \<Rightarrow> time_zone \<Rightarrow> (exc + zoned_datetime) run" where
  "instant_into_zoned i tz = run_range (instant_in_timezone i tz)"

definition policy_or_offset :: "disambiguation option \<Rightarrow> offset \<Rightarrow> resolve_policy" where
  "policy_or_offset dis x = (case dis of None \<Rightarrow> PreserveOffset x | Some d \<Rightarrow> Disambiguate d)"

definition resolve_into_zoned :: "plain_datetime \<Rightarrow> time_zone \<Rightarrow> resolve_policy \<Rightarrow> (exc + zoned_datetime) run" where
  "resolve_into_zoned p tz policy =
     run_err (pdt_resolve_or_raise p tz policy) (\<lambda>r. Done (Inr (odt_into_zoned_unchecked r tz)))"

definition zdt_new :: "int \<Rightarrow> int \<Rightarrow> int \<Rightarrow> int \<Rightarrow> int \<Rightarrow> int \<Rightarrow> int \<Rightarrow> time_zone \<Rightarrow> disambiguation option
    \<Rightarrow> (exc + zoned_datetime) run" where
  "zdt_new year month day hour minute second nanosecond tz dis =
     run_err (Done (or_err (date_from_i64_components year month day) ExcValue)) (\<lambda>d.
     run_err (Done (or_err (time_from_i64_components hour minute second nanosecond) ExcValue)) (\<lambda>t.
       resolve_into_zoned (date_at d t) tz (Disambiguate (case dis of None \<Rightarrow> Compatible | Some x \<Rightarrow> x))))"

definition pdt_assume_tz :: "plain_datetime \<Rightarrow> time_zone \<Rightarrow> disambiguation option \<Rightarrow> (exc + zoned_datetime) run" where
  "pdt_assume_tz p tz dis =
     resolve_into_zoned p tz (Disambiguate (case dis of None \<Rightarrow> Compatible | Some x \<Rightarrow> x))"

datatype offset_mismatch = MismatchRaise | KeepInstant | KeepLocal

definition odt_assume_tz :: "offset_datetime \<Rightarrow> time_zone \<Rightarrow> offset_mismatch option \<Rightarrow> (exc + zoned_datetime) run" where
  "odt_assume_tz x tz mismatch_arg =
     (let mismatch = (case mismatch_arg of None \<Rightarrow> MismatchRaise | Some m \<Rightarrow> m);
          i = odt_to_instant x
      in run_bind (zone_offset_for_instant tz (i_epoch i)) (\<lambda>actual_offset.
           if mismatch = KeepInstant \<or> actual_offset = odt_offset x then instant_into_zoned i tz
           else if mismatch = MismatchRaise then Done (Inl ExcInvalidOffset)
           else run_err (run_range (pdt_resolve_compatible (odt_to_plain x) tz)) (\<lambda>r.
                  Done (Inr (odt_into_zoned_unchecked r tz)))))"

definition zdt_shift :: "zoned_datetime \<Rightarrow> datetime_shift \<Rightarrow> disambiguation option \<Rightarrow> (exc + zoned_datetime) run" where
  "zdt_shift z s dis =
     run_err
       (if \<not> cs_is_zero (ds_calendar s) then
          run_err (Done (or_range (date_shift_by (zdt_date z) (ds_calendar s)))) (\<lambda>d.
            pdt_resolve_or_raise (date_at d (zdt_time z)) (zdt_tz z) (policy_or_offset dis (zdt_offset z)))
        else Done (Inr (zdt_to_fixed_offset z)))
       (\<lambda>shifted_by_date.
          run_err (Done (or_range (instant_shift (odt_to_instant shifted_by_date) (ds_time s)))) (\<lambda>i.
            instant_into_zoned i (zdt_tz z)))"

definition zdt_shift_method :: "zoned_datetime \<Rightarrow> datetime_shift \<Rightarrow> disambiguation option \<Rightarrow> bool
    \<Rightarrow> (exc + zoned_datetime) run" where
  "zdt_shift_method z s dis negate = zdt_shift z (ds_negate_if s negate) dis"

definition zdt_to_tz :: "zoned_datetime \<Rightarrow> time_zone \<Rightarrow> (exc + zoned_datetime) run" where
  "zdt_to_tz z tz = instant_into_zoned (zdt_to_instant z) tz"

definition zdt_replace_date :: "zoned_datetime \<Rightarrow> date \<Rightarrow> disambiguation option \<Rightarrow> (exc + zoned_datetime) run" where
  "zdt_replace_date z d dis =
     resolve_into_zoned (date_at d (zdt_time z)) (zdt_tz z) (policy_or_offset dis (zdt_offset z))"

definition zdt_replace_time :: "zoned_datetime \<Rightarrow> time \<Rightarrow> disambiguation option \<Rightarrow> (exc + zoned_datetime) run" where
  "zdt_replace_time z t dis =
     resolve_into_zoned (time_on t (zdt_date z)) (zdt_tz z) (policy_or_offset dis (zdt_offset z))"

text \<open>The start of a clock unit: the part of a fold in which the date-time already is, the end of
  a gap.\<close>

definition zdt_start_of :: "zoned_datetime \<Rightarrow> datetime_boundary_unit \<Rightarrow> (exc + zoned_datetime) run" where
  "zdt_start_of z u =
     (let zoned = (\<lambda>r. Done (Inr (odt_into_zoned_unchecked r (zdt_tz z))))
      in case u of
           TimeUnit tu \<Rightarrow>
             run_err (Done (or_range (pdt_start_of_unit (zdt_to_plain z) u))) (\<lambda>start_local.
             run_err (run_range (run_bind (zone_mapping_for_local (zdt_tz z) (pdt_local_seconds start_local)) (\<lambda>m. Done (
               case m of
                 Unique x \<Rightarrow> pdt_assume_offset start_local x
               | Fold _ before after \<Rightarrow>
                   pdt_assume_offset start_local (if after = zdt_offset z then after else before)
               | Gap transition _ after \<Rightarrow>
                   pdt_assume_offset (ls_datetime transition (t_subsec (pdt_time start_local))) after)))) zoned)
         | _ \<Rightarrow>
             run_err (Done (or_range (pdt_start_of_unit (zdt_to_plain z) u))) (\<lambda>start_local.
             run_err (run_range (pdt_resolve_compatible start_local (zdt_tz z))) zoned))"

text \<open>The end of a calendar unit is one nanosecond before the start of the next; that shift is
  unwrapped. The end of a clock unit takes the later part of a fold that is shorter than the unit.\<close>

definition zdt_end_of :: "zoned_datetime \<Rightarrow> datetime_boundary_unit \<Rightarrow> (exc + zoned_datetime) run" where
  "zdt_end_of z u =
     (case u of
        TimeUnit tu \<Rightarrow>
          run_err (Done (or_range (pdt_end_of_unit (zdt_to_plain z) u))) (\<lambda>end_local.
          run_err (run_range (
            let local_seconds = pdt_local_seconds end_local
            in run_bind (zone_mapping_for_local (zdt_tz z) local_seconds) (\<lambda>m. Done (
               case m of
                 Unique x \<Rightarrow> pdt_assume_offset end_local x
               | Fold transition before after \<Rightarrow>
                   pdt_assume_offset end_local
                     (if after = zdt_offset z
                       \<or> (ls_get local_seconds + 1 = ls_get transition
                           \<and> offset_delta_get (offset_sub before after) < time_boundary_in_secs tu)
                      then after else before)
               | Gap transition before after \<Rightarrow>
                   pdt_assume_offset
                     (ls_datetime (ls_saturating_add_i32 transition (- offset_delta_get (offset_sub after before) - 1))
                       (SubSecNanos subsec_max)) before))))
            (\<lambda>r. Done (Inr (odt_into_zoned_unchecked r (zdt_tz z)))))
      | _ \<Rightarrow>
          run_err (Done (or_range (pdt_next_start_of_unit (zdt_to_plain z) u))) (\<lambda>next_start.
          run_err (run_range (pdt_resolve_compatible next_start (zdt_tz z))) (\<lambda>r.
          run_bind (run_unwrap (instant_shift (odt_to_instant r) (td_neg td_resolution))) (\<lambda>i.
            instant_into_zoned i (zdt_tz z)))))"

definition zdt_day_length :: "zoned_datetime \<Rightarrow> (exc + time_delta) run" where
  "zdt_day_length z =
     run_err (run_range (pdt_resolve_compatible (date_at (zdt_date z) time_min) (zdt_tz z))) (\<lambda>start_of_day.
     run_err (Done (or_range (date_tomorrow (zdt_date z)))) (\<lambda>tomorrow.
     run_err (run_range (pdt_resolve_compatible (date_at tomorrow time_min) (zdt_tz z))) (\<lambda>start_of_next_day.
       Done (Inr (instant_diff (odt_to_instant start_of_next_day) (odt_to_instant start_of_day))))))"

definition zdt_round :: "zoned_datetime \<Rightarrow> round_increment \<Rightarrow> mode \<Rightarrow> (exc + zoned_datetime) run" where
  "zdt_round z increment m =
     run_err
       (case increment of
          RoundDay \<Rightarrow> run_range (zdt_round_day z m)
        | RoundExact ns \<Rightarrow>
            (let (time_rounded, next_day) = time_round (zdt_time z) ns m
             in run_err (Done (if next_day = 1 then or_range (date_tomorrow (zdt_date z)) else Inr (zdt_date z))) (\<lambda>d.
                  run_range (pdt_resolve_preserving_offset (date_at d time_rounded) (zdt_tz z) (zdt_offset z)))))
       (\<lambda>r. Done (Inr (odt_into_zoned_unchecked r (zdt_tz z))))"

definition zdt_is_ambiguous :: "zoned_datetime \<Rightarrow> bool run" where
  "zdt_is_ambiguous z =
     run_bind (zone_mapping_for_local (zdt_tz z) (pdt_local_seconds (zdt_to_plain z))) (\<lambda>m.
       Done (case m of Fold _ _ _ \<Rightarrow> True | _ \<Rightarrow> False))"

text \<open>The common end of \<open>next_transition\<close> and \<open>prev_transition\<close>.\<close>

definition transition_datetime :: "time_zone \<Rightarrow> (epoch_secs \<times> offset) option \<Rightarrow> exc + zoned_datetime option" where
  "transition_datetime tz r =
     (case r of
        None \<Rightarrow> Inr None
      | Some (epoch, x) \<Rightarrow>
          err_bind (or_range (epoch_shift_by_offset epoch x)) (\<lambda>e.
            Inr (Some (odt_into_zoned_unchecked
              (pdt_assume_offset_unchecked (epoch_datetime e (SubSecNanos subsec_min)) x) tz))))"

definition zdt_next_transition :: "zoned_datetime \<Rightarrow> exc + zoned_datetime option" where
  "zdt_next_transition z =
     transition_datetime (zdt_tz z) (zone_next_transition (zdt_tz z) (i_epoch (zdt_to_instant z)))"

definition zdt_prev_transition :: "zoned_datetime \<Rightarrow> exc + zoned_datetime option" where
  "zdt_prev_transition z =
     transition_datetime (zdt_tz z) (zone_prev_transition (zdt_tz z) (i_epoch (zdt_to_instant z)))"

definition zdt_dst_offset :: "zoned_datetime \<Rightarrow> time_delta run" where
  "zdt_dst_offset z =
     run_bind (zone_meta_for_instant (zdt_tz z) (i_epoch (zdt_to_instant z))) (\<lambda>meta.
       Done (td_from_nanos_unchecked (dst_saving meta * 1000000000)))"

definition zdt_tz_abbrev :: "zoned_datetime \<Rightarrow> bytes run" where
  "zdt_tz_abbrev z =
     run_bind (zone_meta_for_instant (zdt_tz z) (i_epoch (zdt_to_instant z))) (\<lambda>meta.
       Done (tz_abbrev_as_bytes (meta_abbrev meta)))"

definition zdt_str :: "zoned_datetime \<Rightarrow> bytes" where
  "zdt_str z = date_iso_format (zdt_date z) False @ ''T'' @ time_iso_format (zdt_time z) PAuto False
     @ offset_format_write (offset_iso_format (zdt_offset z) False) @ tz_format_write (zdt_tz z)"

definition zdt_parse_iso :: "(bytes \<Rightarrow> time_zone option) \<Rightarrow> bytes \<Rightarrow> (exc + zoned_datetime) run" where
  "zdt_parse_iso tz_get s =
     (case scan_bind pdt_read_iso (\<lambda>dt. scan_bind read_offset_and_tzname (\<lambda>r. scan_return (dt, r))) s of
        (None, _) \<Rightarrow> Done (Inl ExcValue)
      | (Some (dt, (x, tzstr)), _) \<Rightarrow>
          (case tz_get tzstr of
             None \<Rightarrow> Done (Inl ExcTzNotFound)
           | Some tz \<Rightarrow>
               (case x of
                  SomeOffset x' \<Rightarrow>
                    run_bind (zone_mapping_for_local tz (pdt_local_seconds dt)) (\<lambda>m. Done (
                      let valid = (case m of
                             Unique actual \<Rightarrow> actual = x'
                           | Fold _ before after \<Rightarrow> before = x' \<or> after = x'
                           | Gap _ _ _ \<Rightarrow> False)
                      in if \<not> valid then Inl ExcInvalidOffset
                         else err_bind (or_range (pdt_assume_offset dt x')) (\<lambda>r.
                                Inr (odt_into_zoned_unchecked r tz))))
                | ZOffset \<Rightarrow> instant_into_zoned (pdt_assume_utc dt) tz
                | offset_in_iso_string.MissingOffset \<Rightarrow>
                    run_err (run_range (pdt_resolve_compatible dt tz)) (\<lambda>r.
                      Done (Inr (odt_into_zoned_unchecked r tz))))))"

text \<open>A loop that does not return is \<open>None\<close>; \<open>zoned_target_returns\<close> excludes it.\<close>

definition zdt_since :: "zoned_datetime \<Rightarrow> zoned_datetime \<Rightarrow> unit_mask \<Rightarrow> mode \<Rightarrow> difference_increment
    \<Rightarrow> bool \<Rightarrow> (exc + itemized_delta) run option" where
  "zdt_since z other units m increment flip =
     (if dus_has_calendar units \<and> \<not> zdt_same_tz z other then Some (Done (Inl ExcValue))
      else
        (let (a, b) = (if flip then (other, z) else (z, other));
             a_inst = zdt_to_instant a;
             neg = a_inst < zdt_to_instant b
         in map_option (\<lambda>r. run_err (run_range r) (\<lambda>target_date.
              run_range (zoned_since_in_units (zdt_to_fixed_offset a) a_inst b target_date units m increment neg)))
            (zoned_target (zdt_date a) a_inst b neg)))"

subsection \<open>\<open>TimeDelta.in_units\<close>\<close>

datatype relative_to = NoAnchor | ZonedAnchor zoned_datetime | PlainAnchor plain_datetime

definition td_in_units :: "time_delta \<Rightarrow> unit_mask \<Rightarrow> mode \<Rightarrow> difference_increment \<Rightarrow> relative_to
    \<Rightarrow> (exc + itemized_delta) run option" where
  "td_in_units d units m increment anchor =
     (let neg = td_is_negative d
      in case anchor of
           ZonedAnchor z \<Rightarrow>
             (case instant_shift (zdt_to_instant z) d of
                None \<Rightarrow> Some (Done (Inl ExcRange))
              | Some shifted_inst \<Rightarrow>
                  (case instant_to_offset_in shifted_inst (zdt_tz z) of
                     Panic \<Rightarrow> Some Panic
                   | Done None \<Rightarrow> Some (Done (Inl ExcRange))
                   | Done (Some shifted) \<Rightarrow>
                       map_option (\<lambda>r. run_err (run_range r) (\<lambda>target_date.
                         run_range (zoned_since_in_units shifted shifted_inst z target_date units m increment neg)))
                       (zoned_target (odt_date shifted) shifted_inst z neg)))
         | PlainAnchor b \<Rightarrow>
             Some (Done (
               err_bind (or_range (instant_shift (pdt_assume_utc b) d)) (\<lambda>a_inst.
               err_bind (or_range (instant_to_offset a_inst (Offset 0))) (\<lambda>x.
                 plain_since_inner (odt_to_plain x) b units m increment False))))
         | NoAnchor \<Rightarrow>
             Some (Done (
               case dus_to_exact_assuming_24h_days units of
                 None \<Rightarrow> Inl ExcType
               | Some exact \<Rightarrow> or_range (td_in_exact_units d exact increment (mode_to_abs_euclid m neg)))))"

end
