(* ===== verification/Methods_Facts.thy ===== *)
theory Methods_Facts
  imports Methods Pattern_Facts Store_Facts Delta_Facts
begin

section \<open>Facts on the methods of the classes\<close>

text \<open>
  Division of durations, the n-th weekday from a date, exact arithmetic and the ISO 8601 text of
  zoned date-times, and an offset date-time that rounding leads out of range.
\<close>

subsection \<open>Floor division\<close>

lemma smod_sign: "(a :: int) smod b = sgn a * (\<bar>a\<bar> mod \<bar>b\<bar>)"
proof -
  have "a smod b = a - a sdiv b * b" using sdiv_mult_smod_eq [of a b] by linarith
  also have "a sdiv b * b = sgn a * (\<bar>a\<bar> div \<bar>b\<bar> * \<bar>b\<bar>)"
    by (simp add: signed_divide_int_def abs_if sgn_if)
  also have "\<bar>a\<bar> div \<bar>b\<bar> * \<bar>b\<bar> = \<bar>a\<bar> - \<bar>a\<bar> mod \<bar>b\<bar>" by (simp add: minus_mod_eq_div_mult)
  also have "a - sgn a * (\<bar>a\<bar> - \<bar>a\<bar> mod \<bar>b\<bar>) = sgn a * (\<bar>a\<bar> mod \<bar>b\<bar>)"
    by (simp add: right_diff_distrib sgn_mult_abs)
  finally show ?thesis .
qed

lemma floor_of_sdiv:
  fixes a b :: int
  assumes "b \<noteq> 0"
  defines "c \<equiv> sgn a \<noteq> sgn b \<and> a smod b \<noteq> 0"
  shows "(if c then a sdiv b - 1 else a sdiv b) = a div b \<and> (if c then a smod b + b else a smod b) = a mod b"
proof -
  define q where "q = (if c then a sdiv b - 1 else a sdiv b)"
  define r where "r = (if c then a smod b + b else a smod b)"
  define k where "k = \<bar>a\<bar> mod \<bar>b\<bar>"
  have k: "0 \<le> k" "k < \<bar>b\<bar>" using assms(1) by (simp_all add: k_def)
  have s: "a smod b = sgn a * k" unfolding k_def by (rule smod_sign)
  have "a = b * q + r" using sdiv_mult_smod_eq [of a b] by (simp add: q_def r_def algebra_simps)
  moreover have "0 < b \<Longrightarrow> 0 \<le> r \<and> r < b" "b < 0 \<Longrightarrow> r \<le> 0 \<and> b < r"
    using k s by (auto simp: r_def c_def sgn_if split: if_splits)
  ultimately have "a div b = q" "a mod b = r"
    using assms(1) by (cases "0 < b"; simp add: int_div_pos_eq int_div_neg_eq int_mod_pos_eq int_mod_neg_eq)+
  then show ?thesis by (simp add: q_def r_def)
qed

lemma td_zero_iff:
  assumes "td_ok d"
  shows "td_is_zero d \<longleftrightarrow> td_total_nanos d = 0"
proof -
  define x where "x = subsec_get (td_subsec d)"
  have "0 \<le> x" "x < 1000000000" using assms by (simp_all add: x_def td_ok_def subsec_ok_iff)
  then have "x = (delta_seconds_get (td_secs d) * 1000000000 + x) mod 1000000000" by simp
  then have "delta_seconds_get (td_secs d) * 1000000000 + x = 0 \<Longrightarrow> x = 0" by simp
  then show ?thesis by (auto simp: td_is_zero_def td_total_nanos_def time_units x_def)
qed

text \<open>C40. Floor division and remainder of durations, computed from the truncating division of the
  machine with a correction, are the division and the remainder that round towards minus infinity,
  as in Python; the remainder is a valid duration, and only a zero divisor is rejected.\<close>

theorem td_floor_division:
  assumes "td_ok d" and "td_ok e"
  shows "if td_total_nanos e = 0 then td_floordiv d e = Inl ExcZeroDivision \<and> td_mod d e = Inl ExcZeroDivision
    else td_floordiv d e = Inr (td_total_nanos d div td_total_nanos e)
      \<and> (\<exists>r. td_mod d e = Inr r \<and> td_ok r \<and> td_total_nanos r = td_total_nanos d mod td_total_nanos e)"
proof (cases "td_total_nanos e = 0")
  case True
  then show ?thesis using td_zero_iff [OF assms(2)] by (simp add: td_floordiv_def td_mod_def)
next
  case False
  define n where "n = td_total_nanos d mod td_total_nanos e"
  note floor = floor_of_sdiv [OF False, of "td_total_nanos d"]
  have "0 < td_total_nanos e \<Longrightarrow> 0 \<le> n \<and> n < td_total_nanos e"
    "td_total_nanos e < 0 \<Longrightarrow> n \<le> 0 \<and> td_total_nanos e < n" by (simp_all add: n_def)
  then have "delta_nanos_min \<le> n" "n \<le> delta_nanos_max"
    using tds.num_bounds [OF assms(2)] False unfolding delta_nanos_bounds by linarith+
  then have "td_ok (td_from_nanos_unchecked n)" "td_total_nanos (td_from_nanos_unchecked n) = n"
    using td_total_from_nanos by blast+
  with False floor td_zero_iff [OF assms(2)] show ?thesis
    by (simp add: td_floordiv_def td_mod_def Let_def n_def)
qed

theorem td_floor_division_witness:
  "td_floordiv (td_from_nanos_unchecked (-7000000000)) (td_from_nanos_unchecked 2000000000) = Inr (-4)
    \<and> (\<exists>r. td_mod (td_from_nanos_unchecked (-7000000000)) (td_from_nanos_unchecked 2000000000) = Inr r
          \<and> td_total_nanos r = 1000000000)"
proof -
  have "td_ok (td_from_nanos_unchecked (-7000000000))" "td_ok (td_from_nanos_unchecked 2000000000)"
    "td_total_nanos (td_from_nanos_unchecked (-7000000000)) = -7000000000"
    "td_total_nanos (td_from_nanos_unchecked 2000000000) = 2000000000" by code_simp+
  with td_floor_division [OF this(1,2)] show ?thesis by auto
qed

subsection \<open>Offset date-times\<close>

text \<open>\<open>OffsetDateTime.round\<close> builds its result without checking the range, which every other
  method does with \<open>assume_offset\<close>: rounding the last moment before the end of the range gives
  an object whose instant is out of range, so that \<open>to_instant\<close> would panic on its unwrap.\<close>

lemma odt_round_leaves_range:
  "let x = \<lparr>odt_date = \<lparr>d_year = Year 9999, d_month = December, d_day = 31\<rparr>,
             odt_time = \<lparr>t_hour = 18, t_minute = 59, t_second = 59, t_subsec = SubSecNanos 0\<rparr>, odt_offset = Offset (-18000)\<rparr>
   in odt_ok x \<and> (\<exists>y. odt_round x (RoundExact 3600000000000) HalfEven = Inr y \<and> \<not> odt_ok y
        \<and> instant_shift_by_offset (pdt_assume_utc (odt_to_plain y)) (offset_neg (odt_offset y)) = None)"
proof -
  let ?x = "\<lparr>odt_date = \<lparr>d_year = Year 9999, d_month = December, d_day = 31\<rparr>,
             odt_time = \<lparr>t_hour = 18, t_minute = 59, t_second = 59, t_subsec = SubSecNanos 0\<rparr>, odt_offset = Offset (-18000)\<rparr>"
  let ?y = "\<lparr>odt_date = \<lparr>d_year = Year 9999, d_month = December, d_day = 31\<rparr>,
             odt_time = \<lparr>t_hour = 19, t_minute = 0, t_second = 0, t_subsec = SubSecNanos 0\<rparr>, odt_offset = Offset (-18000)\<rparr>"
  have "odt_ok ?x" by code_simp
  moreover have "odt_round ?x (RoundExact 3600000000000) HalfEven = Inr ?y" by code_simp
  moreover have "\<not> odt_ok ?y" by code_simp
  moreover have "instant_shift_by_offset (pdt_assume_utc (odt_to_plain ?y)) (offset_neg (odt_offset ?y)) = None"
    by code_simp
  ultimately show ?thesis by (simp only: Let_def) blast
qed

subsection \<open>Zoned date-times: exact shifts\<close>

lemma fixed_offset_instant: "odt_to_instant (zdt_to_fixed_offset z) = zdt_to_instant z"
  by (simp add: odt_to_instant_def zdt_to_instant_def zdt_to_fixed_offset_def pdt_assume_offset_unchecked_def
      odt_to_plain_def date_at_def zdt_to_plain_def)

lemma shift_time_only: "zdt_shift z (td_to_shift d) dis
    = (case instant_shift (zdt_to_instant z) d of None \<Rightarrow> Done (Inl ExcRange) | Some i \<Rightarrow> instant_into_zoned i (zdt_tz z))"
proof -
  have "cs_is_zero cs_zero" by code_simp
  then show ?thesis
    by (simp add: zdt_shift_def td_to_shift_def run_err_def fixed_offset_instant or_err_def split: option.split)
qed

text \<open>C38. Shifting a zoned date-time by an exact duration moves its instant by exactly that duration,
  across any transitions of its zone: the result is valid, stays in the zone, and shows the local
  time of the offset that the zone has at the new instant. It never panics, and an error is
  always one of range.\<close>

theorem zoned_shift_exact:
  assumes "zdt_ok z"
  shows "case zdt_shift z (td_to_shift d) dis of
      Panic \<Rightarrow> False
    | Done (Inl e) \<Rightarrow> e = ExcRange
    | Done (Inr w) \<Rightarrow> zdt_ok w \<and> zdt_tz w = zdt_tz z
        \<and> instant_timestamp_nanos (zdt_to_instant w) = instant_timestamp_nanos (zdt_to_instant z) + td_total_nanos d
        \<and> zone_offset_for_instant (zdt_tz z) (i_epoch (zdt_to_instant w)) = Done (zdt_offset w)
        \<and> local_nanos (zdt_to_plain w) = instant_timestamp_nanos (zdt_to_instant w) + offset_nanos (zdt_offset w)"
proof (cases "instant_shift (zdt_to_instant z) d")
  case None
  then show ?thesis by (simp add: shift_time_only)
next
  case (Some i)
  have tz: "zone_ok (zdt_tz z)" using assms by (simp add: zdt_ok_def)
  note i = instant_shift_sound [OF Some]
  obtain x where x: "zone_offset_for_instant (zdt_tz z) (i_epoch i) = Done x" using zone_offset_total [OF tz] by blast
  from zoned_of_instant [OF tz _ x] i Some x show ?thesis
    by (auto simp: shift_time_only instant_into_zoned_def run_range_def or_err_def split: run.splits option.splits)
qed

theorem zoned_shift_exact_witness:
  "\<exists>w. zdt_shift \<lparr>zdt_date = \<lparr>d_year = Year 2024, d_month = October, d_day = 27\<rparr>,
        zdt_time = time_from_sec_subsec 9000 (SubSecNanos 7), zdt_offset = Offset 7200, zdt_tz = zone_v2\<rparr>
      (td_to_shift \<lparr>td_secs = DeltaSeconds 3600, td_subsec = SubSecNanos 0\<rparr>) None = Done (Inr w)
    \<and> zdt_offset w = Offset 3600 \<and> instant_timestamp_nanos (zdt_to_instant w) = 1729992600000000007"
proof -
  define z where "z = \<lparr>zdt_date = \<lparr>d_year = Year 2024, d_month = October, d_day = 27\<rparr>,
        zdt_time = time_from_sec_subsec 9000 (SubSecNanos 7), zdt_offset = Offset 7200, zdt_tz = zone_v2\<rparr>"
  define d where "d = \<lparr>td_secs = DeltaSeconds 3600, td_subsec = SubSecNanos 0\<rparr>"
  define w where "w = z\<lparr>zdt_offset := Offset 3600\<rparr>"
  have "odt_ok (zdt_to_fixed_offset z)" unfolding z_def by code_simp
  then have "zdt_ok z" by (simp add: zdt_ok_def z_def zone_v2_ok)
  note shift = zoned_shift_exact [OF this, of d None]
  have w: "zdt_shift z (td_to_shift d) None = Done (Inr w)" unfolding w_def z_def d_def by code_simp
  have "instant_timestamp_nanos (zdt_to_instant z) + td_total_nanos d = 1729992600000000007"
    unfolding z_def d_def by code_simp
  with shift w show ?thesis unfolding z_def d_def by (simp add: w_def)
qed

subsection \<open>Zoned date-times: ISO 8601 text\<close>

lemma id_chars: "is_tz_id_char c \<Longrightarrow> c \<noteq> CHR '']'' \<and> byte c < 128"
proof -
  assume c: "is_tz_id_char c"
  have "\<not> is_tz_id_char (CHR '']'')" by code_simp
  moreover have "\<forall>d \<in> set ''/_-+.''. byte d < 128" by code_simp
  ultimately show ?thesis using c
    by (auto simp: is_tz_id_char_def is_ascii_alphanumeric_def is_ascii_digit_def)
qed

lemma position_append_new: "\<forall>c \<in> set xs. \<not> P c \<Longrightarrow> P y \<Longrightarrow> position P (xs @ y # ys) = Some (length xs)"
  by (induction xs) simp_all

lemma bracketed_key:
  assumes "is_valid_key key"
  shows "position (\<lambda>c. c = CHR '']'') (CHR ''['' # key @ '']'') = Some (length key + 1)"
    and "is_ascii (CHR ''['' # key @ '']'')"
    and "slice (CHR ''['' # key @ '']'') 1 (length key + 1) = key"
proof -
  have key: "\<forall>c \<in> set key. c \<noteq> CHR '']'' \<and> byte c < 128"
    using assms id_chars by (auto simp: is_valid_key_def list_all_iff)
  show "position (\<lambda>c. c = CHR '']'') (CHR ''['' # key @ '']'') = Some (length key + 1)"
    using position_append_new [of key "\<lambda>c. c = CHR '']''" "CHR '']''" "[]"] key by simp
  have "byte (CHR ''['') < 128" "byte (CHR '']'') < 128" by code_simp+
  then show "is_ascii (CHR ''['' # key @ '']'')" using key by (simp add: is_ascii_def list_all_iff)
  show "slice (CHR ''['' # key @ '']'') 1 (length key + 1) = key" by (simp add: slice_def)
qed

lemma offset_text_sign: "\<exists>c r. offset_format_write (offset_iso_format x b) = c # r \<and> (c = CHR ''+'' \<or> c = CHR ''-'')"
  by (auto simp: offset_format_write_def offset_iso_format_def Let_def)

lemma read_own_offset_and_key:
  assumes "offset_ok x" and "is_valid_key key"
  shows "fst (read_offset_and_tzname (offset_format_write (offset_iso_format x False) @ CHR ''['' # key @ '']''))
    = Some (SomeOffset x, key)"
proof -
  let ?tz = "CHR ''['' # key @ '']''"
  obtain c r where written: "offset_format_write (offset_iso_format x False) = c # r" and sgn: "c = CHR ''+'' \<or> c = CHR ''-''"
    using offset_text_sign by blast
  have "stops ?tz" by (simp add: stops_def no_digit_def)
  from offset_read_format [OF assms(1) this, of False]
  have offset: "offset_read_iso (c # r @ ?tz) = (Some x, ?tz)" using written by simp
  have "key \<noteq> []" using assms(2) by (simp add: is_valid_key_def)
  then show ?thesis
    using sgn bracketed_key [OF assms(2)] assms(2) offset
    by (auto simp: written read_offset_and_tzname_def scan_peek_def scan_simps)
qed

text \<open>C39. The ISO 8601 text of a zoned date-time, with its offset and the key of its zone, is parsed
  back to the same date-time, in particular to the same half of a repeated hour: for the
  date-time of an instant in a zone that the store returns for its valid key, whose transitions are
  in order and far enough apart, where the instant and its local time are covered by the table or, after
  its last transition, by a rule in a year where the rule agrees with itself.\<close>

theorem zoned_iso_roundtrip:
  assumes "zone_ok tz" and "zone_spaced tz" and "instant_ok i" and "instant_in_timezone i tz = Done (Some z)"
    and "covered tz (i_epoch i) (pdt_local_seconds (zdt_to_plain z))"
    and "zone_key tz = Some key" and "is_valid_key key" and "tz_get key = Some tz"
  shows "zdt_parse_iso tz_get (zdt_str z) = Done (Inr z)"
proof -
  note z = offset_in_own_mapping [OF assms(1-5)]
  then obtain m where m: "zone_mapping_for_local tz (pdt_local_seconds (zdt_to_plain z)) = Done m"
    and x: "zdt_offset z \<in> mapping_offsets m" by blast
  have ok: "date_ok (zdt_date z)" "time_ok (zdt_time z)" "offset_ok (zdt_offset z)"
    using z by (simp_all add: zdt_ok_def odt_ok_def zdt_to_fixed_offset_def zdt_to_plain_def pdt_assume_offset_unchecked_def)
  let ?rest = "offset_format_write (offset_iso_format (zdt_offset z) False) @ CHR ''['' # key @ '']''"
  have "stops ?rest" by (rule offset_format_stops)
  from pdt_read_format [OF ok(1,2) _ this, of PAuto False False]
  have plain: "pdt_read_iso (zdt_str z) = (Some (zdt_to_plain z), ?rest)"
    using z assms(6) by (simp add: zdt_str_def tz_format_write_def zdt_to_plain_def)
  have valid: "case m of Unique actual \<Rightarrow> actual = zdt_offset z
      | Fold _ before after \<Rightarrow> before = zdt_offset z \<or> after = zdt_offset z | Gap _ _ _ \<Rightarrow> False"
    using x by (cases m) auto
  have "odt_into_zoned_unchecked (zdt_to_fixed_offset z) tz = z"
    using z by (cases z) (simp add: odt_into_zoned_unchecked_def zdt_to_fixed_offset_def pdt_assume_offset_unchecked_def zdt_to_plain_def)
  with z m valid read_own_offset_and_key [OF ok(3) assms(7)] assms(8) show ?thesis
    by (auto simp: zdt_parse_iso_def scan_simps plain or_err_def err_bind_def fst_def split: prod.splits)
qed

theorem zoned_iso_roundtrip_witness:
  "(\<exists>z. instant_in_timezone \<lparr>i_epoch = EpochSecs 1729989000, i_subsec = SubSecNanos 7\<rparr>
        (zone_v2\<lparr>zone_key := Some ''Europe/Amsterdam''\<rparr>) = Done (Some z)
      \<and> zdt_parse_iso (\<lambda>_. Some (zone_v2\<lparr>zone_key := Some ''Europe/Amsterdam''\<rparr>)) (zdt_str z) = Done (Inr z))
    \<and> (\<exists>z. instant_in_timezone \<lparr>i_epoch = EpochSecs 2224888200, i_subsec = SubSecNanos 7\<rparr>
        (zone_v2\<lparr>zone_key := Some ''Europe/Amsterdam''\<rparr>) = Done (Some z)
      \<and> zdt_parse_iso (\<lambda>_. Some (zone_v2\<lparr>zone_key := Some ''Europe/Amsterdam''\<rparr>)) (zdt_str z) = Done (Inr z))"
proof -
  define tz where "tz = zone_v2\<lparr>zone_key := Some ''Europe/Amsterdam''\<rparr>"
  have "parse_tzif file_v2 (Some ''Europe/Amsterdam'') = Done (Inr tz)" unfolding tz_def by code_simp
  then have ok: "zone_ok tz" by (rule parse_tzif_ok)
  have spaced: "zone_spaced tz" and key: "zone_key tz = Some ''Europe/Amsterdam''" "is_valid_key ''Europe/Amsterdam''"
    unfolding tz_def by code_simp+
  have main: "\<exists>z. instant_in_timezone i tz = Done (Some z) \<and> zdt_parse_iso (\<lambda>_. Some tz) (zdt_str z) = Done (Inr z)"
    if i: "instant_ok i" and cov: "case instant_in_timezone i tz of
        Done (Some z) \<Rightarrow> covered tz (i_epoch i) (pdt_local_seconds (zdt_to_plain z)) | _ \<Rightarrow> False" for i
  proof -
    obtain z where "instant_in_timezone i tz = Done (Some z)"
      "covered tz (i_epoch i) (pdt_local_seconds (zdt_to_plain z))"
      using cov by (auto split: run.splits option.splits)
    then show ?thesis using zoned_iso_roundtrip [OF ok spaced i _ _ key, of _ "\<lambda>_. Some tz"] by blast
  qed
  show ?thesis unfolding tz_def [symmetric] by (intro conjI main; (unfold tz_def)?; code_simp)
qed

end
