(* ===== verification/Args.thy ===== *)
theory Args
  imports Methods
begin

section \<open>Arguments of the methods (\<open>src/src/common/*_args.rs\<close>, \<open>src/src/py/args.rs\<close>)\<close>

text \<open>
  How the methods read their positional and keyword arguments, and how \<open>format_iso\<close> writes
  its result. A Python object is a value of \<open>pyobj\<close>: the kinds that the arguments
  distinguish, everything else being \<open>PyOther\<close>. Floating-point numbers are a type
  variable, and the functions of the code that convert them are parameters, as is the truth
  value of an object, which Python computes. Strings are compared by their contents: the code tries the
  identity of interned strings first, as a shortcut for equality. Warnings are left out.
\<close>

subsection \<open>Python objects\<close>

text \<open>\<open>PySeq\<close> is an iterable that is no string; the itemized deltas carry the tuple that
  their method \<open>_to_tuple\<close> returns.\<close>

datatype 'f pyobj =
    PyNone
  | PyBool bool
  | PyInt int
  | PyFloat 'f
  | PyStr bytes
  | PySeq "'f pyobj list"
  | PyDate date
  | PyTime time
  | PyPlainDateTime plain_datetime
  | PyTimeDelta time_delta
  | PyDateDelta date_delta
  | PyDateTimeDelta datetime_delta
  | PyItemizedDateDelta "'f pyobj" "'f pyobj" "'f pyobj" "'f pyobj"
  | PyItemizedDelta "'f pyobj" "'f pyobj" "'f pyobj" "'f pyobj" "'f pyobj" "'f pyobj" "'f pyobj" "'f pyobj"
  | PyInstant instant
  | PyOffsetDateTime offset_datetime
  | PyZonedDateTime zoned_datetime
  | PyOther

text \<open>\<open>cast_allow_subclass::<PyInt>\<close>: the class of booleans is a subclass of the integers.\<close>

fun as_py_int :: "'f pyobj \<Rightarrow> int option" where
  "as_py_int (PyInt i) = Some i"
| "as_py_int (PyBool b) = Some (of_bool b)"
| "as_py_int _ = None"

definition to_i64 :: "int \<Rightarrow> exc + int" where
  "to_i64 i = or_err (checked i64_ok i) ExcOverflow"

definition to_i128 :: "int \<Rightarrow> exc + int" where
  "to_i128 i = or_err (checked i128_ok i) ExcOverflow"

definition expect_bool :: "'f pyobj \<Rightarrow> exc + bool" where
  "expect_bool v = (case v of PyBool b \<Rightarrow> Inr b | _ \<Rightarrow> Inl ExcType)"

definition expect_int :: "'f pyobj \<Rightarrow> exc + int" where
  "expect_int v = or_err (as_py_int v) ExcType"

subsection \<open>Positional and keyword arguments\<close>

type_synonym 'f kwargs = "(bytes \<times> 'f pyobj) list"

text \<open>The handler is given the state its closure captures; \<open>Inr None\<close> stands for
  \<open>Ok(false)\<close>, an unknown keyword.\<close>

fun handle_kwargs :: "(bytes \<Rightarrow> 'f pyobj \<Rightarrow> 's \<Rightarrow> exc + 's option) \<Rightarrow> 'f kwargs \<Rightarrow> 's \<Rightarrow> exc + 's" where
  "handle_kwargs h [] s = Inr s"
| "handle_kwargs h ((k, v) # kwargs) s =
     (case h k v s of
        Inl e \<Rightarrow> Inl e
      | Inr None \<Rightarrow> Inl ExcType
      | Inr (Some s') \<Rightarrow> handle_kwargs h kwargs s')"

definition handle_one_kwarg :: "bytes \<Rightarrow> 'f kwargs \<Rightarrow> exc + 'f pyobj option" where
  "handle_one_kwarg key kwargs =
     handle_kwargs (\<lambda>k v r. Inr (if k = key then Some (Some v) else None)) kwargs None"

definition handle_no_args :: "'f pyobj list \<Rightarrow> exc + unit" where
  "handle_no_args args = (if args = [] then Inr () else Inl ExcType)"

definition handle_opt_arg :: "'f pyobj list \<Rightarrow> exc + 'f pyobj option" where
  "handle_opt_arg args = (case args of [] \<Rightarrow> Inr None | [a] \<Rightarrow> Inr (Some a) | _ \<Rightarrow> Inl ExcType)"

definition handle_one_arg :: "'f pyobj list \<Rightarrow> exc + 'f pyobj" where
  "handle_one_arg args = (case args of [a] \<Rightarrow> Inr a | _ \<Rightarrow> Inl ExcType)"

definition find_interned :: "'f pyobj \<Rightarrow> (bytes \<times> 't) list \<Rightarrow> 't option" where
  "find_interned v choices = (case v of PyStr s \<Rightarrow> map_of choices s | _ \<Rightarrow> None)"

definition match_interned_str :: "'f pyobj \<Rightarrow> (bytes \<times> 't) list \<Rightarrow> exc + 't" where
  "match_interned_str v choices = or_err (find_interned v choices) ExcValue"

subsection \<open>\<open>round_args.rs\<close>\<close>

definition mode_from_py :: "'f pyobj \<Rightarrow> exc + mode" where
  "mode_from_py v = match_interned_str v
     [(''floor'', Floor), (''ceil'', Ceil), (''trunc'', Trunc), (''expand'', Expand),
      (''half_floor'', HalfFloor), (''half_ceil'', HalfCeil), (''half_even'', HalfEven),
      (''half_trunc'', HalfTrunc), (''half_expand'', HalfExpand)]"

datatype round_unit = RNanosecond | RMicrosecond | RMillisecond | RSecond | RMinute | RHour | RDay | RWeek

definition round_unit_from_py :: "'f pyobj \<Rightarrow> bool \<Rightarrow> exc + round_unit" where
  "round_unit_from_py v for_delta = match_interned_str v
     ([(''nanosecond'', RNanosecond), (''microsecond'', RMicrosecond), (''millisecond'', RMillisecond),
       (''second'', RSecond), (''minute'', RMinute), (''hour'', RHour), (''day'', RDay)]
      @ (if for_delta then [(''week'', RWeek)] else []))"

fun round_unit_increment :: "round_unit \<Rightarrow> int" where
  "round_unit_increment RNanosecond = 1"
| "round_unit_increment RMicrosecond = 1000"
| "round_unit_increment RMillisecond = 1000000"
| "round_unit_increment RSecond = ns_per_sec"
| "round_unit_increment RMinute = ns_per_minute"
| "round_unit_increment RHour = ns_per_hour"
| "round_unit_increment RDay = ns_per_day"
| "round_unit_increment RWeek = ns_per_week"

record round_args =
  ra_increment :: round_increment
  ra_mode :: mode
  ra_got_ignore_dst :: bool
  ra_suppress_stale :: bool

datatype args_context = StandardArgs | OffsetArgs

text \<open>The keyword \<open>increment\<close>: \<open>conv\<close> is the width, 64 bits here and 128 for deltas.\<close>

definition positive_increment :: "(int \<Rightarrow> exc + int) \<Rightarrow> 'f pyobj \<Rightarrow> exc + int" where
  "positive_increment conv v =
     err_bind (or_err (as_py_int v) ExcValue) (\<lambda>i.
     err_bind (conv i) (\<lambda>raw. if raw \<le> 0 then Inl ExcValue else Inr raw))"

text \<open>The captured variables: \<open>mode\<close>, \<open>got_ignore_dst\<close>, \<open>suppress_stale\<close>,
  \<open>increment_kwarg\<close>.\<close>

definition round_kwarg :: "('f pyobj \<Rightarrow> exc + bool) \<Rightarrow> args_context \<Rightarrow> bytes \<Rightarrow> 'f pyobj
    \<Rightarrow> mode \<times> bool \<times> bool \<times> int option \<Rightarrow> exc + (mode \<times> bool \<times> bool \<times> int option) option" where
  "round_kwarg is_truthy context key v s = (case s of (m, dst, stale, inc) \<Rightarrow>
     (if key = ''mode'' then err_bind (mode_from_py v) (\<lambda>m'. Inr (Some (m', dst, stale, inc)))
      else if key = ''increment'' then
        err_bind (positive_increment to_i64 v) (\<lambda>n. Inr (Some (m, dst, stale, Some n)))
      else if context = OffsetArgs \<and> key = ''ignore_dst'' then Inr (Some (m, True, stale, inc))
      else if context = OffsetArgs \<and> key = ''stale_offset_ok'' then
        err_bind (is_truthy v) (\<lambda>b. Inr (Some (m, dst, b, inc)))
      else Inr None))"

definition round_args_parse :: "('f pyobj \<Rightarrow> exc + bool) \<Rightarrow> 'f pyobj list \<Rightarrow> 'f kwargs \<Rightarrow> args_context
    \<Rightarrow> exc + round_args" where
  "round_args_parse is_truthy args kwargs context =
     err_bind (handle_opt_arg args) (\<lambda>opt_arg.
     err_bind (handle_kwargs (round_kwarg is_truthy context) kwargs (HalfEven, False, False, None))
       (\<lambda>(m, dst, stale, increment_kwarg).
     err_bind
       (case opt_arg of
          None \<Rightarrow> Inr (RoundExact 1000000000)
        | Some (PyTimeDelta d) \<Rightarrow>
            err_bind (or_err (do { n \<leftarrow> checked u64_ok (td_total_nanos d);
                                   if n \<noteq> 0 \<and> n dvd ns_per_day then Some n else None }) ExcValue)
              (\<lambda>n. if increment_kwarg \<noteq> None then Inl ExcType else Inr (RoundExact n))
        | Some arg \<Rightarrow>
            err_bind (round_unit_from_py arg False) (\<lambda>u.
              let increment_int = (case increment_kwarg of None \<Rightarrow> 1 | Some n \<Rightarrow> n)
              in if u = RDay then (if increment_int \<noteq> 1 then Inl ExcValue else Inr RoundDay)
                 else map_sum id RoundExact (or_err
                        (do { n \<leftarrow> checked u64_ok (round_unit_increment u * increment_int);
                              if n \<noteq> 0 \<and> n dvd ns_per_day then Some n else None }) ExcValue)))
       (\<lambda>increment. Inr \<lparr>ra_increment = increment, ra_mode = m, ra_got_ignore_dst = dst,
                          ra_suppress_stale = stale\<rparr>)))"

definition delta_round_kwarg :: "('f pyobj \<Rightarrow> exc + bool) \<Rightarrow> bytes \<Rightarrow> 'f pyobj
    \<Rightarrow> mode \<times> int option \<times> bool \<Rightarrow> exc + (mode \<times> int option \<times> bool) option" where
  "delta_round_kwarg is_truthy key v s = (case s of (m, inc, suppress) \<Rightarrow>
     (if key = ''mode'' then err_bind (mode_from_py v) (\<lambda>m'. Inr (Some (m', inc, suppress)))
      else if key = ''increment'' then
        err_bind (positive_increment to_i128 v) (\<lambda>n. Inr (Some (m, Some n, suppress)))
      else if key = ''days_assumed_24h_ok'' then
        err_bind (is_truthy v) (\<lambda>b. Inr (Some (m, inc, b)))
      else Inr None))"

definition delta_args_parse :: "('f pyobj \<Rightarrow> exc + bool) \<Rightarrow> 'f pyobj list \<Rightarrow> 'f kwargs
    \<Rightarrow> exc + delta_increment \<times> mode" where
  "delta_args_parse is_truthy args kwargs =
     err_bind (handle_opt_arg args) (\<lambda>opt_arg.
     err_bind (handle_kwargs (delta_round_kwarg is_truthy) kwargs (HalfEven, None, False))
       (\<lambda>(m, increment_kwarg, _).
     err_bind
       (case opt_arg of
          None \<Rightarrow> Inr \<lparr>di_secs = 1, di_subsec = SubSecNanos subsec_min\<rparr>
        | Some (PyTimeDelta d) \<Rightarrow>
            (if increment_kwarg \<noteq> None then Inl ExcType
             else if td_is_negative d \<or> td_is_zero d then Inl ExcValue
             else Inr \<lparr>di_secs = as_u64 (delta_seconds_get (td_secs d)), di_subsec = td_subsec d\<rparr>)
        | Some arg \<Rightarrow>
            err_bind (round_unit_from_py arg True) (\<lambda>u.
            err_bind (or_range (checked u128_ok
                ((case increment_kwarg of None \<Rightarrow> 1 | Some n \<Rightarrow> n) * round_unit_increment u)))
              (\<lambda>n. or_range (di_from_nanos n))))
       (\<lambda>increment. Inr (increment, m))))"

subsection \<open>\<open>difference_args.rs\<close>\<close>

datatype total_unit =
  TYears | TMonths | TWeeks | TDays | THours | TMinutes | TSeconds | TMilliseconds | TMicroseconds | TNanoseconds

fun total_to_calendar_unit :: "total_unit \<Rightarrow> calendar_unit option" where
  "total_to_calendar_unit TYears = Some Years"
| "total_to_calendar_unit TMonths = Some Months"
| "total_to_calendar_unit TWeeks = Some Weeks"
| "total_to_calendar_unit TDays = Some Days"
| "total_to_calendar_unit _ = None"

fun total_to_difference_unit :: "total_unit \<Rightarrow> difference_unit option" where
  "total_to_difference_unit TYears = Some DYears"
| "total_to_difference_unit TMonths = Some DMonths"
| "total_to_difference_unit TWeeks = Some DWeeks"
| "total_to_difference_unit TDays = Some DDays"
| "total_to_difference_unit THours = Some DHours"
| "total_to_difference_unit TMinutes = Some DMinutes"
| "total_to_difference_unit TSeconds = Some DSeconds"
| "total_to_difference_unit TNanoseconds = Some DNanoseconds"
| "total_to_difference_unit _ = None"

definition total_unit_match_py :: "'f pyobj \<Rightarrow> total_unit option" where
  "total_unit_match_py v = find_interned v
     [(''years'', TYears), (''months'', TMonths), (''weeks'', TWeeks), (''days'', TDays), (''hours'', THours),
      (''minutes'', TMinutes), (''seconds'', TSeconds), (''milliseconds'', TMilliseconds),
      (''microseconds'', TMicroseconds), (''nanoseconds'', TNanoseconds)]"

definition total_unit_from_py :: "'f pyobj \<Rightarrow> exc + total_unit" where
  "total_unit_from_py v = or_err (total_unit_match_py v) ExcValue"

definition calendar_unit_from_py :: "'f pyobj \<Rightarrow> exc + calendar_unit" where
  "calendar_unit_from_py v = or_err (total_unit_match_py v \<bind> total_to_calendar_unit) ExcValue"

definition difference_unit_from_py :: "'f pyobj \<Rightarrow> exc + difference_unit" where
  "difference_unit_from_py v = or_err (total_unit_match_py v \<bind> total_to_difference_unit) ExcValue"

text \<open>The loop of \<open>parse_ordered_units\<close>: \<open>rank\<close> is the derived order of the units,
  \<open>s\<close> the set that the closure \<open>insert\<close> (here \<open>ins\<close>) fills.\<close>

fun ordered_units_loop :: "('f pyobj \<Rightarrow> exc + 'u) \<Rightarrow> ('u \<Rightarrow> nat) \<Rightarrow> ('s \<Rightarrow> 'u \<Rightarrow> 's) \<Rightarrow> 'f pyobj list
    \<Rightarrow> 'u option \<Rightarrow> 's \<Rightarrow> exc + 's" where
  "ordered_units_loop parse rank ins [] prev s = Inr s"
| "ordered_units_loop parse rank ins (item # items) prev s =
     (case parse item of
        Inl e \<Rightarrow> Inl e
      | Inr u \<Rightarrow>
          (if (case prev of None \<Rightarrow> False | Some p \<Rightarrow> rank p = rank u) then Inl ExcValue
           else if (case prev of None \<Rightarrow> False | Some p \<Rightarrow> rank p > rank u) then Inl ExcValue
           else ordered_units_loop parse rank ins items (Some u) (ins s u)))"

definition parse_ordered_units :: "('f pyobj \<Rightarrow> exc + 'u) \<Rightarrow> ('u \<Rightarrow> nat) \<Rightarrow> ('s \<Rightarrow> 'u \<Rightarrow> 's) \<Rightarrow> 'f pyobj
    \<Rightarrow> 's \<Rightarrow> exc + 's" where
  "parse_ordered_units parse rank ins v s =
     (case v of
        PySeq items \<Rightarrow>
          err_bind (ordered_units_loop parse rank ins items None s) (\<lambda>s'.
            if items = [] then Inl ExcValue else Inr s')
      | _ \<Rightarrow> Inl ExcType)"

definition calendar_units_from_py :: "'f pyobj \<Rightarrow> exc + unit_mask" where
  "calendar_units_from_py v = parse_ordered_units calendar_unit_from_py calendar_unit_index cus_insert v um_empty"

definition difference_units_from_py :: "'f pyobj \<Rightarrow> exc + unit_mask" where
  "difference_units_from_py v =
     err_bind (parse_ordered_units difference_unit_from_py difference_unit_index dus_insert v um_empty) (\<lambda>units.
       if dus_contains units DNanoseconds \<and> \<not> dus_contains units DSeconds then Inl ExcValue else Inr units)"

text \<open>\<open>parse_py_float\<close>, the product with the unit rounded to nanoseconds, is a parameter.\<close>

definition exact_parse_py_int :: "exact_unit \<Rightarrow> int \<Rightarrow> exc + time_delta" where
  "exact_parse_py_int u i =
     err_bind (to_i128 i) (\<lambda>n.
     err_bind (or_range (checked i128_ok (n * exact_unit_in_nanos u))) (\<lambda>nanos.
       or_range (td_from_nanos nanos)))"

definition exact_parse_py_number :: "(exact_unit \<Rightarrow> 'f \<Rightarrow> exc + time_delta) \<Rightarrow> exact_unit \<Rightarrow> 'f pyobj
    \<Rightarrow> exc + time_delta" where
  "exact_parse_py_number parse_py_float u v =
     (case as_py_int v of
        Some i \<Rightarrow> exact_parse_py_int u i
      | None \<Rightarrow>
          (case v of
             PyFloat f \<Rightarrow> if u = ENanoseconds then Inl ExcValue else parse_py_float u f
           | _ \<Rightarrow> Inl ExcValue))"

datatype difference_spec = SpecTotal difference_unit | SpecInUnits unit_mask mode difference_increment

datatype spec_units = OneUnit difference_unit | ManyUnits unit_mask

definition calendar_increment_from_py :: "'f pyobj \<Rightarrow> exc + calendar_increment" where
  "calendar_increment_from_py v =
     err_bind (expect_int v) (\<lambda>i. err_bind (to_i64 i) (\<lambda>n. or_err (ci_from_i64 n) ExcValue))"

definition difference_increment_from_py :: "'f pyobj \<Rightarrow> exc + difference_increment" where
  "difference_increment_from_py v =
     err_bind (expect_int v) (\<lambda>i. err_bind (to_i128 i) (\<lambda>n. or_err (dinc_new n) ExcValue))"

text \<open>The captured variables: \<open>mode\<close>, \<open>increment\<close>, \<open>units\<close>, \<open>got_rounding\<close>, and
  those of the closure \<open>extra\<close>.\<close>

type_synonym 'x spec_state = "mode \<times> difference_increment \<times> spec_units option \<times> bool \<times> 'x"

definition spec_kwarg :: "(bytes \<Rightarrow> 'f pyobj \<Rightarrow> 'x \<Rightarrow> exc + 'x option) \<Rightarrow> bytes \<Rightarrow> 'f pyobj
    \<Rightarrow> 'x spec_state \<Rightarrow> exc + 'x spec_state option" where
  "spec_kwarg extra key v s = (case s of (m, increment, units, got_rounding, x) \<Rightarrow>
     (if key = ''total'' then
        (if units \<noteq> None then Inl ExcType
         else err_bind (difference_unit_from_py v) (\<lambda>u. Inr (Some (m, increment, Some (OneUnit u), got_rounding, x))))
      else if key = ''in_units'' then
        (if units \<noteq> None then Inl ExcType
         else err_bind (difference_units_from_py v) (\<lambda>us. Inr (Some (m, increment, Some (ManyUnits us), got_rounding, x))))
      else if key = ''round_mode'' then
        err_bind (mode_from_py v) (\<lambda>m'. Inr (Some (m', increment, units, True, x)))
      else if key = ''round_increment'' then
        err_bind (difference_increment_from_py v) (\<lambda>i. Inr (Some (m, i, units, True, x)))
      else err_bind (extra key v x) (\<lambda>r. Inr (map_option (\<lambda>x'. (m, increment, units, got_rounding, x')) r))))"

definition spec_parse_with :: "(bytes \<Rightarrow> 'f pyobj \<Rightarrow> 'x \<Rightarrow> exc + 'x option) \<Rightarrow> 'f kwargs \<Rightarrow> 'x
    \<Rightarrow> exc + difference_spec \<times> 'x" where
  "spec_parse_with extra kwargs x =
     err_bind (handle_kwargs (spec_kwarg extra) kwargs (Trunc, DifferenceIncrement 1, None, False, x))
       (\<lambda>(m, increment, units, got_rounding, x').
          case units of
            None \<Rightarrow> Inl ExcType
          | Some (OneUnit u) \<Rightarrow> if got_rounding then Inl ExcType else Inr (SpecTotal u, x')
          | Some (ManyUnits us) \<Rightarrow> Inr (SpecInUnits us m increment, x'))"

definition spec_parse :: "'f kwargs \<Rightarrow> exc + difference_spec" where
  "spec_parse kwargs = map_sum id fst (spec_parse_with (\<lambda>_ _ _. Inr None) kwargs ())"

subsection \<open>\<open>shift_args.rs\<close> and \<open>itemized_*.rs\<close>\<close>

definition df_from_optional_py :: "int \<Rightarrow> (int \<Rightarrow> int option) \<Rightarrow> 'f pyobj \<Rightarrow> exc + delta_field" where
  "df_from_optional_py sentinel from_i64 v =
     (if v = PyNone then Inr (DeltaField sentinel)
      else err_bind (or_err (as_py_int v) ExcType) (\<lambda>i.
           err_bind (to_i64 i) (\<lambda>n. map_sum id DeltaField (or_range (from_i64 n)))))"

abbreviation df_i32_from_py :: "'f pyobj \<Rightarrow> exc + delta_field" where
  "df_i32_from_py \<equiv> df_from_optional_py i32_sentinel df_i32_from_i64"

abbreviation df_i64_from_py :: "'f pyobj \<Rightarrow> exc + delta_field" where
  "df_i64_from_py \<equiv> df_from_optional_py i64_sentinel df_i64_from_i64"

definition idd_extract :: "'f pyobj \<Rightarrow> exc + itemized_date_delta option" where
  "idd_extract v =
     (case v of
        PyItemizedDateDelta y m w d \<Rightarrow>
          err_bind (df_i32_from_py y) (\<lambda>years. err_bind (df_i32_from_py m) (\<lambda>months.
          err_bind (df_i32_from_py w) (\<lambda>weeks. err_bind (df_i32_from_py d) (\<lambda>days.
            Inr (Some \<lparr>idd_years = years, idd_months = months, idd_weeks = weeks, idd_days = days\<rparr>)))))
      | _ \<Rightarrow> Inr None)"

definition id_extract :: "'f pyobj \<Rightarrow> exc + itemized_delta option" where
  "id_extract v =
     (case v of
        PyItemizedDelta y m w d h mi s n \<Rightarrow>
          err_bind (df_i32_from_py y) (\<lambda>years. err_bind (df_i32_from_py m) (\<lambda>months.
          err_bind (df_i32_from_py w) (\<lambda>weeks. err_bind (df_i32_from_py d) (\<lambda>days.
          err_bind (df_i32_from_py h) (\<lambda>hours. err_bind (df_i64_from_py mi) (\<lambda>minutes.
          err_bind (df_i64_from_py s) (\<lambda>seconds. err_bind (df_i32_from_py n) (\<lambda>nanos.
            Inr (Some \<lparr>id_years = years, id_months = months, id_weeks = weeks, id_days = days,
              id_hours = hours, id_minutes = minutes, id_seconds = seconds, id_nanos = nanos\<rparr>)))))))))
      | _ \<Rightarrow> Inr None)"

definition dd_to_calendar_shift :: "date_delta \<Rightarrow> calendar_shift" where
  "dd_to_calendar_shift d = \<lparr>cs_months = dd_months d, cs_days = dd_days d\<rparr>"

definition parse_calendar_shift_arg :: "'f pyobj \<Rightarrow> exc + calendar_shift" where
  "parse_calendar_shift_arg v =
     (case v of
        PyDateDelta d \<Rightarrow> Inr (dd_to_calendar_shift d)
      | _ \<Rightarrow> err_bind (idd_extract v) (\<lambda>r.
          case r of Some d \<Rightarrow> or_range (idd_to_calendar_shift d) | None \<Rightarrow> Inl ExcType))"

definition parse_datetime_shift_arg :: "'f pyobj \<Rightarrow> exc + datetime_shift" where
  "parse_datetime_shift_arg v =
     (case v of
        PyTimeDelta t \<Rightarrow> Inr (td_to_shift t)
      | PyDateDelta d \<Rightarrow> Inr (cs_to_shift (dd_to_calendar_shift d))
      | PyDateTimeDelta d \<Rightarrow> Inr \<lparr>ds_calendar = dd_to_calendar_shift (dtd_date d), ds_time = dtd_time d\<rparr>
      | _ \<Rightarrow> err_bind (idd_extract v) (\<lambda>r. case r of
          Some d \<Rightarrow> map_sum id cs_to_shift (or_range (idd_to_calendar_shift d))
        | None \<Rightarrow> err_bind (id_extract v) (\<lambda>r. case r of
            Some d \<Rightarrow> or_range (id_to_shift d)
          | None \<Rightarrow> Inl ExcType)))"

text \<open>An integer argument through \<open>expect_int\<close>, \<open>to_i64\<close> and a range check.\<close>

definition int_arg_in :: "(int \<Rightarrow> 'a option) \<Rightarrow> 'f pyobj \<Rightarrow> exc + 'a" where
  "int_arg_in from_i64 v = err_bind (expect_int v) (\<lambda>i. err_bind (to_i64 i) (\<lambda>n. or_range (from_i64 n)))"

definition months_shift :: "delta_months \<Rightarrow> calendar_shift" where
  "months_shift m = \<lparr>cs_months = m, cs_days = DeltaDays 0\<rparr>"

definition days_shift :: "delta_days \<Rightarrow> calendar_shift" where
  "days_shift d = \<lparr>cs_months = DeltaMonths 0, cs_days = d\<rparr>"

definition parse_calendar_shift_unit :: "bytes \<Rightarrow> 'f pyobj \<Rightarrow> exc + calendar_shift option" where
  "parse_calendar_shift_unit key v =
     (if key = ''years'' then map_sum id (Some \<circ> months_shift) (int_arg_in delta_months_from_i64_years v)
      else if key = ''months'' then map_sum id (Some \<circ> months_shift) (int_arg_in delta_months_from_i64 v)
      else if key = ''weeks'' then map_sum id (Some \<circ> days_shift) (int_arg_in delta_days_from_i64_weeks v)
      else if key = ''days'' then map_sum id (Some \<circ> days_shift) (int_arg_in delta_days_from_i64 v)
      else Inr None)"

definition parse_datetime_shift_unit :: "(exact_unit \<Rightarrow> 'f \<Rightarrow> exc + time_delta) \<Rightarrow> bytes \<Rightarrow> 'f pyobj
    \<Rightarrow> exc + datetime_shift option" where
  "parse_datetime_shift_unit parse_py_float key v =
     err_bind (parse_calendar_shift_unit key v) (\<lambda>r. case r of
       Some calendar \<Rightarrow> Inr (Some (cs_to_shift calendar))
     | None \<Rightarrow>
         (case map_of [(''hours'', EHours), (''minutes'', EMinutes), (''seconds'', ESeconds),
             (''milliseconds'', EMilliseconds), (''microseconds'', EMicroseconds),
             (''nanoseconds'', ENanoseconds)] key of
            Some u \<Rightarrow> map_sum id (Some \<circ> td_to_shift) (exact_parse_py_number parse_py_float u v)
          | None \<Rightarrow> Inr None))"

definition calendar_shift_kwarg :: "bytes \<Rightarrow> 'f pyobj \<Rightarrow> calendar_shift \<Rightarrow> exc + calendar_shift option" where
  "calendar_shift_kwarg key v shift =
     err_bind (parse_calendar_shift_unit key v) (\<lambda>r. case r of
       None \<Rightarrow> Inr None
     | Some u \<Rightarrow> map_sum id Some (or_range (cs_add shift u)))"

definition parse_calendar_shift_kwargs :: "'f kwargs \<Rightarrow> exc + calendar_shift" where
  "parse_calendar_shift_kwargs kwargs = handle_kwargs calendar_shift_kwarg kwargs cs_zero"

definition datetime_shift_kwarg :: "(exact_unit \<Rightarrow> 'f \<Rightarrow> exc + time_delta)
    \<Rightarrow> (bytes \<Rightarrow> 'f pyobj \<Rightarrow> 'x \<Rightarrow> exc + 'x option) \<Rightarrow> bytes \<Rightarrow> 'f pyobj \<Rightarrow> datetime_shift \<times> 'x
    \<Rightarrow> exc + (datetime_shift \<times> 'x) option" where
  "datetime_shift_kwarg parse_py_float handle_extra key v s = (case s of (shift, x) \<Rightarrow>
     err_bind (parse_datetime_shift_unit parse_py_float key v) (\<lambda>r. case r of
       Some u \<Rightarrow> map_sum id (\<lambda>shift'. Some (shift', x)) (or_range (ds_add shift u))
     | None \<Rightarrow> err_bind (handle_extra key v x) (\<lambda>r. Inr (map_option (\<lambda>x'. (shift, x')) r))))"

definition parse_datetime_shift_kwargs :: "(exact_unit \<Rightarrow> 'f \<Rightarrow> exc + time_delta)
    \<Rightarrow> (bytes \<Rightarrow> 'f pyobj \<Rightarrow> 'x \<Rightarrow> exc + 'x option) \<Rightarrow> 'f kwargs \<Rightarrow> 'x \<Rightarrow> exc + datetime_shift \<times> 'x" where
  "parse_datetime_shift_kwargs parse_py_float handle_extra kwargs x =
     handle_kwargs (datetime_shift_kwarg parse_py_float handle_extra) kwargs (ds_zero, x)"

subsection \<open>\<open>disambiguation.rs\<close> and \<open>instant.rs\<close>\<close>

definition disambiguation_from_py :: "'f pyobj \<Rightarrow> exc + disambiguation" where
  "disambiguation_from_py v = match_interned_str v
     [(''compatible'', Compatible), (''raise'', Reject), (''earlier'', Earlier), (''later'', Later)]"

definition disambiguation_from_only_kwarg :: "'f kwargs \<Rightarrow> exc + disambiguation option" where
  "disambiguation_from_only_kwarg kwargs =
     err_bind (handle_one_kwarg ''disambiguate'' kwargs) (\<lambda>r. case r of
       None \<Rightarrow> Inr None
     | Some v \<Rightarrow> map_sum id Some (disambiguation_from_py v))"

fun extract_instant :: "'f pyobj \<Rightarrow> instant option" where
  "extract_instant (PyInstant i) = Some i"
| "extract_instant (PyOffsetDateTime x) = Some (odt_to_instant x)"
| "extract_instant (PyZonedDateTime z) = Some (zdt_to_instant z)"
| "extract_instant _ = None"

definition parse_instant_arg :: "'f pyobj \<Rightarrow> exc + instant" where
  "parse_instant_arg v = or_err (extract_instant v) ExcType"

text \<open>\<open>Instant::from_timestamp_f64\<close> is a parameter.\<close>

definition parse_timestamp :: "('f \<Rightarrow> instant option) \<Rightarrow> 'f pyobj \<Rightarrow> exc + instant" where
  "parse_timestamp from_f64 v =
     (case as_py_int v of
        Some i \<Rightarrow> err_bind (to_i64 i) (\<lambda>n. or_range (instant_from_timestamp n))
      | None \<Rightarrow> (case v of PyFloat f \<Rightarrow> or_range (from_f64 f) | _ \<Rightarrow> Inl ExcType))"

definition parse_timestamp_millis :: "'f pyobj \<Rightarrow> exc + instant" where
  "parse_timestamp_millis v = int_arg_in instant_from_timestamp_millis v"

definition parse_timestamp_nanos :: "'f pyobj \<Rightarrow> exc + instant" where
  "parse_timestamp_nanos v =
     err_bind (expect_int v) (\<lambda>i. err_bind (to_i128 i) (\<lambda>n. or_range (instant_from_timestamp_nanos n)))"

end
