(* ===== verification/Output.thy ===== *)
theory Output
  imports Args
begin

section \<open>Building strings (\<open>common/fmt.rs\<close>, \<open>py/string.rs\<close>, \<open>common/format_args.rs\<close>)\<close>

text \<open>
  \<open>PyAsciiStrBuilder\<close> allocates a string of the length that a chunk announces and lets the
  chunk write into it. Release builds do not check the writes: a chunk that writes more than it
  announced writes beyond the object, one that writes less leaves bytes uninitialised. Both, and
  a byte that is not ASCII, are \<open>None\<close> here.
\<close>

subsection \<open>The builder\<close>

record ascii_builder =
  ab_data :: "char option list"
  ab_index :: nat

definition ab_new :: "nat \<Rightarrow> ascii_builder" where
  "ab_new len = \<lparr>ab_data = replicate len None, ab_index = 0\<rparr>"

definition ab_write_byte :: "char \<Rightarrow> ascii_builder \<Rightarrow> ascii_builder option" where
  "ab_write_byte b sink =
     (if byte b < 128 \<and> ab_index sink < length (ab_data sink)
      then Some \<lparr>ab_data = (ab_data sink)[ab_index sink := Some b], ab_index = ab_index sink + 1\<rparr>
      else None)"

definition ab_write :: "bytes \<Rightarrow> ascii_builder \<Rightarrow> ascii_builder option" where
  "ab_write s sink =
     (let i = ab_index sink; n = length s
      in if is_ascii s \<and> i + n \<le> length (ab_data sink)
         then Some \<lparr>ab_data = take i (ab_data sink) @ map Some s @ drop (i + n) (ab_data sink), ab_index = i + n\<rparr>
         else None)"

definition ab_finish :: "ascii_builder \<Rightarrow> bytes option" where
  "ab_finish sink = (if None \<in> set (ab_data sink) then None else Some (map the (ab_data sink)))"

text \<open>A chunk: the length it announces and the writes it makes, of one byte or of many.\<close>

datatype sink_write = WriteByte char | WriteBytes bytes

fun run_write :: "sink_write \<Rightarrow> ascii_builder \<Rightarrow> ascii_builder option" where
  "run_write (WriteByte b) sink = ab_write_byte b sink"
| "run_write (WriteBytes s) sink = ab_write s sink"

fun run_writes :: "sink_write list \<Rightarrow> ascii_builder \<Rightarrow> ascii_builder option" where
  "run_writes [] sink = Some sink"
| "run_writes (w # ws) sink = run_write w sink \<bind> run_writes ws"

type_synonym chunk = "nat \<times> sink_write list"

definition ascii_format :: "chunk \<Rightarrow> bytes option" where
  "ascii_format c = do { sink \<leftarrow> run_writes (snd c) (ab_new (fst c)); ab_finish sink }"

subsection \<open>Chunks\<close>

definition bytes_chunk :: "bytes \<Rightarrow> chunk" where
  "bytes_chunk s = (length s, [WriteBytes s])"

definition byte_chunk :: "char \<Rightarrow> chunk" where
  "byte_chunk b = (1, [WriteByte b])"

definition tuple_chunk :: "chunk list \<Rightarrow> chunk" where
  "tuple_chunk cs = (sum_list (map fst cs), concat (map snd cs))"

definition date_chunk :: "date \<Rightarrow> bool \<Rightarrow> chunk" where
  "date_chunk d basic =
     (date_iso_len basic,
      WriteBytes (format_4_digits (year_get (d_year d)))
      # (if basic then [WriteBytes (format_2_digits (month_get (d_month d)))]
         else [WriteBytes ''-'', WriteBytes (format_2_digits (month_get (d_month d))), WriteBytes ''-''])
      @ [WriteBytes (format_2_digits (d_day d))])"

definition time_chunk :: "time \<Rightarrow> precision \<Rightarrow> bool \<Rightarrow> chunk" where
  "time_chunk t unit basic =
     (time_iso_len t unit basic,
      (let (subsec_str, subsec_len) = subsec_iso_format (t_subsec t);
           sep = (if \<not> basic then [WriteByte (CHR '':'')] else [])
       in WriteBytes (format_2_digits (t_hour t))
          # (if unit = PHour then []
             else sep @ WriteBytes (format_2_digits (t_minute t))
               # (if unit = PMinute then []
                  else sep @ WriteBytes (format_2_digits (t_second t))
                    # (if unit = PSecond then []
                       else [WriteBytes (take (case unit of PAuto \<Rightarrow> subsec_len | PNanosecond \<Rightarrow> 10
                           | PMicrosecond \<Rightarrow> 7 | _ \<Rightarrow> 4) subsec_str)])))))"

definition offset_chunk :: "offset_format \<Rightarrow> chunk" where
  "offset_chunk f =
     (offset_format_len f,
      (let sep = (if \<not> of_basic f then [WriteByte (CHR '':'')] else [])
       in WriteByte (of_sign_char f) # WriteBytes (format_2_digits (of_hrs f))
          # sep @ WriteBytes (format_2_digits (of_mins f))
          # (if of_secs f \<noteq> 0 then sep @ [WriteBytes (format_2_digits (of_secs f))] else [])))"

definition tz_chunk :: "time_zone \<Rightarrow> chunk" where
  "tz_chunk tz =
     (tz_format_len tz,
      (case zone_key tz of None \<Rightarrow> [] | Some key \<Rightarrow> [WriteByte (CHR ''[''), WriteBytes key, WriteByte (CHR '']'')]))"

subsection \<open>\<open>format_args.rs\<close>\<close>

datatype suffix = SuffixAbsent | SuffixZulu | SuffixOffset offset | SuffixOffsetTz offset "bytes option"

datatype suffix_format = FormatAbsent | FormatZulu | FormatOffset offset_format | FormatOffsetTz offset_format bytes

fun suffix_len :: "suffix_format \<Rightarrow> nat" where
  "suffix_len FormatAbsent = 0"
| "suffix_len FormatZulu = 1"
| "suffix_len (FormatOffset f) = offset_format_len f"
| "suffix_len (FormatOffsetTz f tz) = offset_format_len f + length tz + 2"

fun suffix_writes :: "suffix_format \<Rightarrow> sink_write list" where
  "suffix_writes FormatAbsent = []"
| "suffix_writes FormatZulu = [WriteByte (CHR ''Z'')]"
| "suffix_writes (FormatOffset f) = snd (offset_chunk f)"
| "suffix_writes (FormatOffsetTz f tz) =
     snd (offset_chunk f) @ [WriteByte (CHR ''[''), WriteBytes tz, WriteByte (CHR '']'')]"

definition suffix_chunk :: "suffix_format \<Rightarrow> chunk" where
  "suffix_chunk s = (suffix_len s, suffix_writes s)"

datatype tz_display = TzAlways | TzNever | TzAuto

definition parse_precision :: "'f pyobj \<Rightarrow> exc + precision" where
  "parse_precision v = match_interned_str v
     [(''millisecond'', PMillisecond), (''hour'', PHour), (''minute'', PMinute), (''second'', PSecond),
      (''microsecond'', PMicrosecond), (''nanosecond'', PNanosecond), (''auto'', PAuto)]"

definition date_format_kwarg :: "bytes \<Rightarrow> 'f pyobj \<Rightarrow> bool \<Rightarrow> exc + bool option" where
  "date_format_kwarg key v basic = (if key = ''basic'' then map_sum id Some (expect_bool v) else Inr None)"

definition format_date_iso :: "date \<Rightarrow> 'f pyobj list \<Rightarrow> 'f kwargs \<Rightarrow> exc + bytes option" where
  "format_date_iso d args kwargs =
     err_bind (handle_no_args args) (\<lambda>_.
     err_bind (handle_kwargs date_format_kwarg kwargs False) (\<lambda>basic.
       Inr (ascii_format (date_chunk d basic))))"

definition time_format_kwarg :: "bytes \<Rightarrow> 'f pyobj \<Rightarrow> precision \<times> bool \<Rightarrow> exc + (precision \<times> bool) option" where
  "time_format_kwarg key v s = (case s of (unit, basic) \<Rightarrow>
     (if key = ''unit'' then map_sum id (\<lambda>u. Some (u, basic)) (parse_precision v)
      else if key = ''basic'' then map_sum id (\<lambda>b. Some (unit, b)) (expect_bool v)
      else Inr None))"

definition format_time_iso :: "time \<Rightarrow> 'f pyobj list \<Rightarrow> 'f kwargs \<Rightarrow> exc + bytes option" where
  "format_time_iso t args kwargs =
     err_bind (handle_no_args args) (\<lambda>_.
     err_bind (handle_kwargs time_format_kwarg kwargs (PAuto, False)) (\<lambda>(unit, basic).
       Inr (ascii_format (time_chunk t unit basic))))"

text \<open>The captured variables: \<open>sep\<close>, \<open>unit\<close>, \<open>basic\<close>, \<open>tz_display\<close>.\<close>

type_synonym datetime_format_state = "char \<times> precision \<times> bool \<times> tz_display"

definition datetime_format_kwarg :: "suffix \<Rightarrow> bytes \<Rightarrow> 'f pyobj \<Rightarrow> datetime_format_state
    \<Rightarrow> exc + datetime_format_state option" where
  "datetime_format_kwarg suffix key v s = (case s of (sep, unit, basic, tz) \<Rightarrow>
     (if key = ''sep'' then
        map_sum id (\<lambda>c. Some (c, unit, basic, tz)) (match_interned_str v [('' '', CHR '' ''), (''T'', CHR ''T'')])
      else if key = ''unit'' then map_sum id (\<lambda>u. Some (sep, u, basic, tz)) (parse_precision v)
      else if key = ''basic'' then map_sum id (\<lambda>b. Some (sep, unit, b, tz)) (expect_bool v)
      else if (case suffix of SuffixOffsetTz _ _ \<Rightarrow> True | _ \<Rightarrow> False) \<and> key = ''tz'' then
        map_sum id (\<lambda>t. Some (sep, unit, basic, t))
          (match_interned_str v [(''auto'', TzAuto), (''never'', TzNever), (''always'', TzAlways)])
      else Inr None))"

definition suffix_format_of :: "suffix \<Rightarrow> bool \<Rightarrow> tz_display \<Rightarrow> exc + suffix_format" where
  "suffix_format_of suffix basic tz =
     (case suffix of
        SuffixAbsent \<Rightarrow> Inr FormatAbsent
      | SuffixZulu \<Rightarrow> Inr FormatZulu
      | SuffixOffset x \<Rightarrow> Inr (FormatOffset (offset_iso_format x basic))
      | SuffixOffsetTz x key_opt \<Rightarrow>
          (case (key_opt, tz) of
             (Some key, TzAuto) \<Rightarrow> Inr (FormatOffsetTz (offset_iso_format x basic) key)
           | (Some key, TzAlways) \<Rightarrow> Inr (FormatOffsetTz (offset_iso_format x basic) key)
           | (_, TzNever) \<Rightarrow> Inr (FormatOffset (offset_iso_format x basic))
           | (_, TzAuto) \<Rightarrow> Inr (FormatOffset (offset_iso_format x basic))
           | (None, TzAlways) \<Rightarrow> Inl ExcValue))"

definition format_datetime_iso :: "date \<Rightarrow> time \<Rightarrow> 'f pyobj list \<Rightarrow> 'f kwargs \<Rightarrow> suffix
    \<Rightarrow> exc + bytes option" where
  "format_datetime_iso d t args kwargs suffix =
     err_bind (handle_no_args args) (\<lambda>_.
     err_bind (handle_kwargs (datetime_format_kwarg suffix) kwargs (CHR ''T'', PAuto, False, TzAlways))
       (\<lambda>(sep, unit, basic, tz).
     err_bind (suffix_format_of suffix basic tz) (\<lambda>f.
       Inr (ascii_format (tuple_chunk [date_chunk d basic, byte_chunk sep, time_chunk t unit basic, suffix_chunk f])))))"

subsection \<open>\<open>format_iso\<close> of the classes\<close>

definition instant_format_iso :: "instant \<Rightarrow> 'f pyobj list \<Rightarrow> 'f kwargs \<Rightarrow> exc + bytes option" where
  "instant_format_iso i args kwargs =
     (let p = instant_to_utc_plain i in format_datetime_iso (pdt_date p) (pdt_time p) args kwargs SuffixZulu)"

definition pdt_format_iso :: "plain_datetime \<Rightarrow> 'f pyobj list \<Rightarrow> 'f kwargs \<Rightarrow> exc + bytes option" where
  "pdt_format_iso p args kwargs = format_datetime_iso (pdt_date p) (pdt_time p) args kwargs SuffixAbsent"

definition odt_format_iso :: "offset_datetime \<Rightarrow> 'f pyobj list \<Rightarrow> 'f kwargs \<Rightarrow> exc + bytes option" where
  "odt_format_iso x args kwargs =
     format_datetime_iso (odt_date x) (odt_time x) args kwargs (SuffixOffset (odt_offset x))"

definition zdt_format_iso :: "zoned_datetime \<Rightarrow> 'f pyobj list \<Rightarrow> 'f kwargs \<Rightarrow> exc + bytes option" where
  "zdt_format_iso z args kwargs =
     format_datetime_iso (zdt_date z) (zdt_time z) args kwargs (SuffixOffsetTz (zdt_offset z) (zone_key (zdt_tz z)))"

subsection \<open>\<open>repr\<close>\<close>

definition date_repr :: "date \<Rightarrow> bytes option" where
  "date_repr d = ascii_format (tuple_chunk [bytes_chunk ''Date(\"'', date_chunk d False, bytes_chunk ''\")''])"

definition time_repr :: "time \<Rightarrow> bytes option" where
  "time_repr t = ascii_format (tuple_chunk [bytes_chunk ''Time(\"'', time_chunk t PAuto False, bytes_chunk ''\")''])"

definition instant_repr :: "instant \<Rightarrow> bytes option" where
  "instant_repr i =
     (let p = instant_to_utc_plain i
      in ascii_format (tuple_chunk [bytes_chunk ''Instant(\"'', date_chunk (pdt_date p) False, bytes_chunk '' '',
           time_chunk (pdt_time p) PAuto False, bytes_chunk ''Z\")'']))"

definition pdt_repr :: "plain_datetime \<Rightarrow> bytes option" where
  "pdt_repr p = ascii_format (tuple_chunk [bytes_chunk ''PlainDateTime(\"'', date_chunk (pdt_date p) False,
     byte_chunk (CHR '' ''), time_chunk (pdt_time p) PAuto False, bytes_chunk ''\")''])"

definition odt_repr :: "offset_datetime \<Rightarrow> bytes option" where
  "odt_repr x = ascii_format (tuple_chunk [bytes_chunk ''OffsetDateTime(\"'', date_chunk (odt_date x) False,
     byte_chunk (CHR '' ''), time_chunk (odt_time x) PAuto False, offset_chunk (offset_iso_format (odt_offset x) False),
     bytes_chunk ''\")''])"

definition zdt_repr :: "zoned_datetime \<Rightarrow> bytes option" where
  "zdt_repr z = ascii_format (tuple_chunk [bytes_chunk ''ZonedDateTime(\"'', date_chunk (zdt_date z) False,
     byte_chunk (CHR '' ''), time_chunk (zdt_time z) PAuto False, offset_chunk (offset_iso_format (zdt_offset z) False),
     byte_chunk (CHR ''[''),
     bytes_chunk (case zone_key (zdt_tz z) of None \<Rightarrow> ''<system timezone without ID>'' | Some key \<Rightarrow> key),
     bytes_chunk '']\")''])"

end
