(* ===== verification/Output_Facts.thy ===== *)
theory Output_Facts
  imports Output Zoned_Facts Iso_Facts
begin

section \<open>The strings that are built\<close>

text \<open>
  Every chunk writes as many bytes as it announces, all of them ASCII, so that the builder never
  writes outside its string nor leaves a byte of it uninitialised. Together with the readers this makes
  \<open>format_iso\<close> invertible, whatever its keyword arguments.
\<close>

subsection \<open>The builder\<close>

fun written_by :: "sink_write \<Rightarrow> bytes" where
  "written_by (WriteByte b) = [b]"
| "written_by (WriteBytes s) = s"

definition written :: "sink_write list \<Rightarrow> bytes" where
  "written ws = concat (map written_by ws)"

lemma written_simps [simp]:
  "written [] = []" "written (w # ws) = written_by w @ written ws" "written (ws @ vs) = written ws @ written vs"
  by (simp_all add: written_def)

lemma is_ascii_simps [simp]:
  "is_ascii []" "is_ascii (c # s) \<longleftrightarrow> byte c < 128 \<and> is_ascii s" "is_ascii (s @ t) \<longleftrightarrow> is_ascii s \<and> is_ascii t"
  by (auto simp: is_ascii_def)

text \<open>A builder that holds \<open>s\<close> and has room for \<open>k\<close> more bytes.\<close>

definition holding :: "bytes \<Rightarrow> nat \<Rightarrow> ascii_builder" where
  "holding s k = \<lparr>ab_data = map Some s @ replicate k None, ab_index = length s\<rparr>"

lemma write_holding:
  assumes "is_ascii (written_by w)"
  shows "run_write w (holding s (length (written_by w) + k)) = Some (holding (s @ written_by w) k)"
proof (cases w)
  case (WriteByte b)
  then show ?thesis using assms
    by (simp add: ab_write_byte_def holding_def list_update_append)
next
  case (WriteBytes x)
  then show ?thesis using assms by (simp add: ab_write_def holding_def)
qed

lemma writes_holding:
  "is_ascii (written ws) \<Longrightarrow> run_writes ws (holding s (length (written ws) + k)) = Some (holding (s @ written ws) k)"
proof (induction ws arbitrary: s)
  case (Cons w ws)
  have "run_write w (holding s (length (written_by w) + (length (written ws) + k)))
      = Some (holding (s @ written_by w) (length (written ws) + k))"
    using Cons.prems by (intro write_holding) simp
  with Cons show ?case by (simp add: add.assoc)
qed simp

definition chunk_ok :: "chunk \<Rightarrow> bool" where
  "chunk_ok c \<longleftrightarrow> fst c = length (written (snd c)) \<and> is_ascii (written (snd c))"

lemma ascii_format_ok:
  assumes "chunk_ok c"
  shows "ascii_format c = Some (written (snd c))"
proof -
  have "ab_new (fst c) = holding [] (length (written (snd c)) + 0)"
    using assms by (simp add: ab_new_def holding_def chunk_ok_def)
  with writes_holding [of "snd c" "[]" 0] assms show ?thesis
    by (auto simp: ascii_format_def chunk_ok_def ab_finish_def holding_def comp_def)
qed

lemma tuple_chunk_written: "written (snd (tuple_chunk cs)) = concat (map (written \<circ> snd) cs)"
  by (induction cs) (simp_all add: tuple_chunk_def)

lemma tuple_chunk_simps:
  "chunk_ok (tuple_chunk [])"
  "chunk_ok c \<Longrightarrow> chunk_ok (tuple_chunk cs) \<Longrightarrow> chunk_ok (tuple_chunk (c # cs))"
  by (simp_all add: tuple_chunk_def chunk_ok_def)

lemma tuple_chunk_ok: "\<forall>c \<in> set cs. chunk_ok c \<Longrightarrow> chunk_ok (tuple_chunk cs)"
  by (induction cs) (simp_all add: tuple_chunk_simps)

subsection \<open>The chunks\<close>

lemma digit_ascii [simp]: "0 \<le> d \<Longrightarrow> d \<le> 9 \<Longrightarrow> byte (digit_char d) < 128"
  using digit_char_digit(1) [of d] by (simp add: is_ascii_digit_def)

lemma two_digits_ascii [simp]: "0 \<le> n \<Longrightarrow> n < 100 \<Longrightarrow> is_ascii (format_2_digits n)"
  by (rule two_digits_of [of n]) auto

lemma ascii_marks [simp]:
  "byte (CHR ''-'') < 128" "byte (CHR ''+'') < 128" "byte (CHR '':'') < 128" "byte (CHR ''.'') < 128"
  "byte (CHR ''T'') < 128" "byte (CHR '' '') < 128" "byte (CHR ''Z'') < 128" "byte (CHR ''['') < 128"
  "byte (CHR '']'') < 128"
  by code_simp+

lemma date_chunk_ok:
  assumes "date_ok d"
  shows "chunk_ok (date_chunk d basic)" and "written (snd (date_chunk d basic)) = date_iso_format d basic"
proof -
  show shown: "written (snd (date_chunk d basic)) = date_iso_format d basic"
    by (simp add: date_chunk_def date_iso_format_def)
  have "is_ascii (date_iso_format d basic)"
    by (rule date_digits [OF assms, of basic]) simp
  then show "chunk_ok (date_chunk d basic)"
    using date_format_length [OF assms, of basic] by (simp add: chunk_ok_def shown) (simp add: date_chunk_def)
qed

lemma time_chunk_written: "written (snd (time_chunk t unit basic)) = time_iso_format t unit basic"
  by (simp add: time_chunk_def time_iso_format_def split: prod.split)

lemma subsec_text_ok:
  assumes "subsec_ok x" and "subsec_iso_format x = (s, n)"
  shows "length s = 10 \<and> n \<le> 10 \<and> is_ascii s"
proof (cases "subsec_get x = 0")
  case True
  have "length ''.000000000'' = 10" "is_ascii ''.000000000''" by code_simp+
  then show ?thesis using True assms(2) by (auto simp: subsec_iso_format_def)
next
  case False
  have "0 \<le> d mod 10 \<and> d mod 10 \<le> 9" for d :: int by (rule mod_10_range)
  then show ?thesis using False assms(2) last_significant_le
    by (auto simp: subsec_iso_format_def Let_def is_ascii_def list_all_iff split: if_splits)
qed

lemma take_ascii: "is_ascii s \<Longrightarrow> is_ascii (take n s)"
  by (auto simp: is_ascii_def list_all_iff dest: in_set_takeD)

lemma time_chunk_ok:
  assumes "time_ok t"
  shows "chunk_ok (time_chunk t unit basic)"
proof -
  obtain s n where sub: "subsec_iso_format (t_subsec t) = (s, n)" by (cases "subsec_iso_format (t_subsec t)") auto
  have "subsec_ok (t_subsec t)" using assms by (simp add: time_ok_def)
  note s = subsec_text_ok [OF this sub]
  have "is_ascii (format_2_digits (t_hour t))" "is_ascii (format_2_digits (t_minute t))"
    "is_ascii (format_2_digits (t_second t))"
    using assms by (simp_all add: time_ok_def)
  with s show ?thesis
    by (cases unit; cases basic)
      (simp_all add: chunk_ok_def time_chunk_written time_iso_format_def sub take_ascii, simp_all add: time_chunk_def time_iso_len_def sub)
qed

lemma offset_chunk_written: "written (snd (offset_chunk f)) = offset_format_write f"
  by (simp add: offset_chunk_def offset_format_write_def)

lemma offset_format_ascii:
  assumes "offset_ok x"
  shows "is_ascii (offset_format_write (offset_iso_format x basic))"
proof -
  define a where "a = \<bar>offset_get x\<bar>"
  have a: "0 \<le> a" "a \<le> 86399" using assms by (auto simp: a_def offset_ok_def bound_defs)
  have "0 \<le> a div 3600" using a(1) by (simp add: pos_imp_zdiv_nonneg_iff)
  moreover have "a div 3600 \<le> 23" using zdiv_mono1 [OF a(2), of 3600] by simp
  moreover have "0 \<le> a div 60 mod 60" "a div 60 mod 60 < 60" "0 \<le> a mod 60" "a mod 60 < 60" by simp_all
  ultimately show ?thesis
    unfolding offset_format_write_def offset_iso_format_def Let_def a_def [symmetric] by simp
qed

lemma offset_chunk_ok:
  assumes "offset_ok x"
  shows "chunk_ok (offset_chunk (offset_iso_format x basic))"
  using offset_format_ascii [OF assms, of basic]
  by (simp add: chunk_ok_def offset_chunk_written) (simp add: offset_chunk_def offset_format_len_def offset_format_write_def)

definition own_offset_format :: "offset_format \<Rightarrow> bool" where
  "own_offset_format f \<longleftrightarrow> (\<exists>x basic. offset_ok x \<and> f = offset_iso_format x basic)"

lemma own_offset_formatI: "offset_ok x \<Longrightarrow> own_offset_format (offset_iso_format x basic)"
  by (auto simp: own_offset_format_def)

lemma own_offset_text:
  assumes "own_offset_format f"
  shows "offset_format_len f = length (offset_format_write f)" and "is_ascii (offset_format_write f)"
  using assms offset_format_ascii
  by (auto simp: own_offset_format_def) (simp add: offset_format_len_def offset_format_write_def)

fun suffix_format_ok :: "suffix_format \<Rightarrow> bool" where
  "suffix_format_ok FormatAbsent = True"
| "suffix_format_ok FormatZulu = True"
| "suffix_format_ok (FormatOffset f) = own_offset_format f"
| "suffix_format_ok (FormatOffsetTz f key) = (is_ascii key \<and> own_offset_format f)"

lemma suffix_chunk_ok: "suffix_format_ok f \<Longrightarrow> chunk_ok (suffix_chunk f)"
  by (cases f) (auto simp: suffix_chunk_def chunk_ok_def offset_chunk_written own_offset_text)

text \<open>What \<open>format_iso\<close> is given after the date and the time: an offset of the type, a
  key that the store accepted.\<close>

fun suffix_ok :: "suffix \<Rightarrow> bool" where
  "suffix_ok SuffixAbsent = True"
| "suffix_ok SuffixZulu = True"
| "suffix_ok (SuffixOffset x) = offset_ok x"
| "suffix_ok (SuffixOffsetTz x key) = (offset_ok x \<and> pred_option is_ascii key)"

lemma suffix_format_of_ok: "suffix_ok suffix \<Longrightarrow> suffix_format_of suffix basic tz = Inr f \<Longrightarrow> suffix_format_ok f"
  by (induction suffix rule: suffix_ok.induct)
    (auto simp: suffix_format_of_def own_offset_formatI split: option.splits tz_display.splits)

lemma byte_chunk_ok [simp]: "chunk_ok (byte_chunk c) \<longleftrightarrow> byte c < 128"
  by (simp add: byte_chunk_def chunk_ok_def)

lemma bytes_chunk_ok [simp]: "chunk_ok (bytes_chunk s) \<longleftrightarrow> is_ascii s"
  by (simp add: bytes_chunk_def chunk_ok_def)

lemma byte_chunks_written [simp]:
  "written (snd (byte_chunk c)) = [c]" "written (snd (bytes_chunk s)) = s"
  by (simp_all add: byte_chunk_def bytes_chunk_def)

lemma datetime_text:
  assumes "date_ok d" and "time_ok t" and "byte c < 128" and "suffix_format_ok f"
  shows "ascii_format (tuple_chunk [date_chunk d b, byte_chunk c, time_chunk t u b, suffix_chunk f])
    = Some (date_iso_format d b @ c # time_iso_format t u b @ written (suffix_writes f))"
proof -
  have "chunk_ok (tuple_chunk [date_chunk d b, byte_chunk c, time_chunk t u b, suffix_chunk f])"
    using assms date_chunk_ok(1) time_chunk_ok suffix_chunk_ok by (intro tuple_chunk_ok) simp
  from ascii_format_ok [OF this] show ?thesis using assms(1)
    by (simp add: tuple_chunk_written date_chunk_ok(2) time_chunk_written suffix_chunk_def)
qed

subsection \<open>Keyword arguments\<close>

lemma handle_kwargs_invariant:
  assumes "handle_kwargs h kwargs s = Inr s'" and "P s"
    and "\<And>k v s s'. (k, v) \<in> set kwargs \<Longrightarrow> P s \<Longrightarrow> h k v s = Inr (Some s') \<Longrightarrow> P s'"
  shows "P s'"
  using assms
proof (induction kwargs arbitrary: s)
  case (Cons kv kwargs)
  obtain k v where kv: "kv = (k, v)" by (cases kv)
  with Cons.prems(1) obtain s1 where s1: "h k v s = Inr (Some s1)" and rest: "handle_kwargs h kwargs s1 = Inr s'"
    by (auto split: sum.splits option.splits)
  have "(k, v) \<in> set (kv # kwargs)" using kv by simp
  from Cons.prems(3) [OF this Cons.prems(2) s1] have "P s1" .
  from Cons.IH [OF rest this] Cons.prems(3) show ?case by (meson list.set_intros(2))
qed simp

lemma handle_kwargs_error:
  assumes "handle_kwargs h kwargs s = Inl e"
  shows "e = ExcType \<or> (\<exists>k v s. (k, v) \<in> set kwargs \<and> h k v s = Inl e)"
  using assms
proof (induction kwargs arbitrary: s)
  case (Cons kv kwargs)
  then show ?case by (cases kv) (auto split: sum.splits option.splits)
qed simp

lemma match_interned_Inr:
  "match_interned_str v choices = Inr x \<longleftrightarrow> (\<exists>s. v = PyStr s \<and> map_of choices s = Some x)"
  by (cases v) (auto simp: match_interned_str_def find_interned_def or_err_def split: option.splits)

lemma match_interned_Inl: "match_interned_str v choices = Inl e \<Longrightarrow> e = ExcValue"
  by (auto simp: match_interned_str_def or_err_def split: option.splits)

lemma map_sum_iff:
  "map_sum id f r = Inr y \<longleftrightarrow> (\<exists>x. r = Inr x \<and> y = f x)" "map_sum id f r = Inl e \<longleftrightarrow> r = Inl e"
  by (cases r; auto)+

lemma err_bind_iff:
  "err_bind r f = Inr y \<longleftrightarrow> (\<exists>x. r = Inr x \<and> f x = Inr y)"
  "err_bind r f = Inl e \<longleftrightarrow> r = Inl e \<or> (\<exists>x. r = Inr x \<and> f x = Inl e)"
  by (cases r; auto simp: err_bind_def)+

text \<open>The keyword \<open>unit\<close>, where given, keeps all digits.\<close>

definition exact_unit_kwargs :: "'f kwargs \<Rightarrow> bool" where
  "exact_unit_kwargs kwargs \<longleftrightarrow>
     list_all (\<lambda>(k, v). k = ''unit'' \<longrightarrow> (case v of PyStr s \<Rightarrow> s = ''auto'' \<or> s = ''nanosecond'' | _ \<Rightarrow> False)) kwargs"

lemma exact_unit_kwarg:
  assumes "exact_unit_kwargs kwargs" and "(''unit'', v) \<in> set kwargs" and "parse_precision v = Inr u"
  shows "u \<in> {PAuto, PNanosecond}"
proof -
  from assms(1,2) have "v = PyStr ''auto'' \<or> v = PyStr ''nanosecond''"
    by (cases v) (auto simp: exact_unit_kwargs_def list_all_iff)
  with assms(3) show ?thesis by (auto simp: parse_precision_def match_interned_Inr)
qed

lemma separator_kwarg:
  "match_interned_str v [('' '', CHR '' ''), (''T'', CHR ''T'')] = Inr c \<Longrightarrow> is_datetime_sep c \<and> byte c < 128"
  by (auto simp: match_interned_Inr is_datetime_sep_def split: if_splits)

lemma datetime_kwargs:
  assumes "handle_kwargs (datetime_format_kwarg suffix) kwargs (CHR ''T'', PAuto, False, TzAlways) = Inr (c, u, b, tz)"
  shows "is_datetime_sep c \<and> byte c < 128" and "exact_unit_kwargs kwargs \<Longrightarrow> u \<in> {PAuto, PNanosecond}"
proof -
  have "case (c, u, b, tz) of (c, u, _) \<Rightarrow>
      (is_datetime_sep c \<and> byte c < 128) \<and> (exact_unit_kwargs kwargs \<longrightarrow> u \<in> {PAuto, PNanosecond})"
  proof (rule handle_kwargs_invariant [OF assms], goal_cases)
    case 1
    then show ?case by (simp add: is_datetime_sep_def)
  next
    case (2 k v s s')
    then show ?case using separator_kwarg exact_unit_kwarg [of kwargs v]
      by (cases s) (auto simp: datetime_format_kwarg_def map_sum_iff split: if_splits)
  qed
  then show "is_datetime_sep c \<and> byte c < 128" "exact_unit_kwargs kwargs \<Longrightarrow> u \<in> {PAuto, PNanosecond}" by simp_all
qed

lemma format_datetime_iso_text:
  assumes "date_ok d" and "time_ok t" and "suffix_ok suffix"
    and "format_datetime_iso d t args kwargs suffix = Inr r"
  obtains c u b f tz where "is_datetime_sep c" and "exact_unit_kwargs kwargs \<longrightarrow> u \<in> {PAuto, PNanosecond}"
    and "suffix_format_of suffix b tz = Inr f"
    and "r = Some (date_iso_format d b @ c # time_iso_format t u b @ written (suffix_writes f))"
proof -
  from assms(4) obtain c u b tz f where
    kw: "handle_kwargs (datetime_format_kwarg suffix) kwargs (CHR ''T'', PAuto, False, TzAlways) = Inr (c, u, b, tz)"
    and f: "suffix_format_of suffix b tz = Inr f"
    and r: "r = ascii_format (tuple_chunk [date_chunk d b, byte_chunk c, time_chunk t u b, suffix_chunk f])"
    by (auto simp: format_datetime_iso_def err_bind_iff)
  note k = datetime_kwargs [OF kw]
  from datetime_text [OF assms(1,2) _ suffix_format_of_ok [OF assms(3) f], of c b u] k(1) r
  show ?thesis using k by (intro that [OF _ _ f]) simp_all
qed

lemma expect_bool_Inl: "expect_bool v = Inl e \<Longrightarrow> e = ExcType"
  by (cases v) (simp_all add: expect_bool_def)

lemma datetime_format_kwarg_error:
  assumes "datetime_format_kwarg suffix k v s = Inl e"
  shows "e = ExcType \<or> e = ExcValue"
proof -
  obtain c u b tz where s: "s = (c, u, b, tz)" by (cases s)
  from assms have "(\<exists>choices :: (bytes \<times> char) list. match_interned_str v choices = Inl e)
      \<or> parse_precision v = Inl e \<or> expect_bool v = Inl e
      \<or> (\<exists>choices :: (bytes \<times> tz_display) list. match_interned_str v choices = Inl e)"
    unfolding s datetime_format_kwarg_def prod.case by (simp only: map_sum_iff split: if_splits) blast+
  then show ?thesis by (auto simp: parse_precision_def dest: match_interned_Inl expect_bool_Inl)
qed

lemma format_datetime_iso_error:
  assumes "format_datetime_iso d t args kwargs suffix = Inl e"
  shows "e = ExcType \<or> e = ExcValue"
proof -
  consider "handle_no_args args = Inl e"
    | "handle_kwargs (datetime_format_kwarg suffix) kwargs (CHR ''T'', PAuto, False, TzAlways) = Inl e"
    | b tz where "suffix_format_of suffix b tz = Inl e"
    using assms by (auto simp: format_datetime_iso_def err_bind_iff)
  then show ?thesis
  proof cases
    case 1
    then show ?thesis by (simp add: handle_no_args_def split: if_splits)
  next
    case 2
    from handle_kwargs_error [OF this] datetime_format_kwarg_error show ?thesis by blast
  next
    case 3
    then show ?thesis by (auto simp: suffix_format_of_def split: suffix.splits option.splits tz_display.splits)
  qed
qed

subsection \<open>The properties\<close>

text \<open>C12. \<open>format_iso\<close> is inverted by \<open>parse_iso\<close>: whatever keyword arguments an
  offset date-time is formatted with (separator, basic format, and a unit that keeps all digits), the
  string is built without a write outside its memory, and parsing it gives the date-time back;
  bad arguments are type or value errors.\<close>

theorem odt_format_iso_roundtrip:
  assumes "odt_ok x" and "exact_unit_kwargs kwargs"
  shows "case odt_format_iso x args kwargs of
      Inl e \<Rightarrow> e = ExcType \<or> e = ExcValue
    | Inr r \<Rightarrow> r \<noteq> None \<and> odt_parse_iso (the r) = Some x"
proof (cases "odt_format_iso x args kwargs")
  case (Inl e)
  then have "format_datetime_iso (odt_date x) (odt_time x) args kwargs (SuffixOffset (odt_offset x)) = Inl e"
    by (simp add: odt_format_iso_def)
  from format_datetime_iso_error [OF this] Inl show ?thesis by simp
next
  case (Inr r)
  have ok: "date_ok (odt_date x)" "time_ok (odt_time x)" "suffix_ok (SuffixOffset (odt_offset x))"
    using assms(1) by (simp_all add: odt_ok_def)
  from Inr have "format_datetime_iso (odt_date x) (odt_time x) args kwargs (SuffixOffset (odt_offset x)) = Inr r"
    by (simp add: odt_format_iso_def)
  from format_datetime_iso_text [OF ok this] obtain c u b f tz where c: "is_datetime_sep c"
    and u: "u \<in> {PAuto, PNanosecond}" and f: "suffix_format_of (SuffixOffset (odt_offset x)) b tz = Inr f"
    and r: "r = Some (date_iso_format (odt_date x) b @ c # time_iso_format (odt_time x) u b @ written (suffix_writes f))"
    using assms(2) by metis
  from f have "written (suffix_writes f) = offset_format_write (offset_iso_format (odt_offset x) b)"
    by (auto simp: suffix_format_of_def offset_chunk_written)
  with odt_parse_format_sep [OF assms(1) u c, of b b b] Inr r show ?thesis by simp
qed

theorem odt_format_iso_roundtrip_witness:
  "\<exists>s. odt_format_iso \<lparr>odt_date = date_min, odt_time = time_max, odt_offset = Offset 3723\<rparr> ([] :: unit pyobj list)
      [(''sep'', PyStr '' ''), (''basic'', PyBool True), (''unit'', PyStr ''nanosecond'')] = Inr (Some s)
    \<and> odt_parse_iso s = Some \<lparr>odt_date = date_min, odt_time = time_max, odt_offset = Offset 3723\<rparr>"
proof -
  define x where "x = \<lparr>odt_date = date_min, odt_time = time_max, odt_offset = Offset 3723\<rparr>"
  define kw :: "unit kwargs" where
    "kw = [(''sep'', PyStr '' ''), (''basic'', PyBool True), (''unit'', PyStr ''nanosecond'')]"
  have x: "odt_ok x" and kw: "exact_unit_kwargs kw" unfolding x_def kw_def by code_simp+
  have "odt_format_iso x [] kw = Inr (Some ''00010101 235959.999999999+010203'')" unfolding x_def kw_def by code_simp
  with odt_format_iso_roundtrip [OF x kw, of "[]"] show ?thesis unfolding x_def kw_def by simp
qed

lemma chunk_format_defined: "chunk_ok c \<Longrightarrow> ascii_format c \<noteq> None"
  by (simp add: ascii_format_ok)

lemma format_datetime_iso_defined:
  assumes "date_ok d" and "time_ok t" and "suffix_ok suffix"
  shows "format_datetime_iso d t args kwargs suffix \<noteq> Inr None"
proof
  assume "format_datetime_iso d t args kwargs suffix = Inr None"
  from format_datetime_iso_text [OF assms this] show False by blast
qed

lemma format_parts_defined:
  "date_ok d \<Longrightarrow> format_date_iso d args kwargs \<noteq> Inr None"
  "time_ok t \<Longrightarrow> format_time_iso t args kwargs \<noteq> Inr None"
  using chunk_format_defined [OF date_chunk_ok(1)] chunk_format_defined [OF time_chunk_ok]
  by (auto simp: format_date_iso_def format_time_iso_def err_bind_iff)

lemma repr_marks [simp]:
  "is_ascii ''Date(\"''" "is_ascii ''Time(\"''" "is_ascii ''Instant(\"''" "is_ascii ''PlainDateTime(\"''"
  "is_ascii ''OffsetDateTime(\"''" "is_ascii ''ZonedDateTime(\"''" "is_ascii '']\")''" "is_ascii ''\")''" "is_ascii ''Z\")''"
  "is_ascii ''<system timezone without ID>''" "is_ascii '' ''"
  unfolding is_ascii_def by code_simp+

lemma repr_defined:
  assumes "date_ok d" and "time_ok t"
  shows "date_repr d \<noteq> None" and "time_repr t \<noteq> None" and "pdt_repr \<lparr>pdt_date = d, pdt_time = t\<rparr> \<noteq> None"
    and "offset_ok x \<Longrightarrow> odt_repr \<lparr>odt_date = d, odt_time = t, odt_offset = x\<rparr> \<noteq> None"
    and "offset_ok x \<Longrightarrow> pred_option is_ascii (zone_key tz)
      \<Longrightarrow> zdt_repr \<lparr>zdt_date = d, zdt_time = t, zdt_offset = x, zdt_tz = tz\<rparr> \<noteq> None"
  unfolding date_repr_def time_repr_def pdt_repr_def odt_repr_def zdt_repr_def
  by (rule chunk_format_defined, intro tuple_chunk_simps;
      simp add: assms date_chunk_ok time_chunk_ok offset_chunk_ok option.pred_set del: is_ascii_simps split: option.split)+

text \<open>C13. The strings of \<open>format_iso\<close> and \<open>repr\<close> of the six types of dates, times and
  date-times are built without leaving their memory, for all keyword arguments and every unit: no
  chunk writes more bytes than it announced, none writes fewer, and all of them are ASCII.
  The key of the zone of a zoned date-time has to be ASCII.\<close>

theorem strings_stay_in_bounds:
  assumes "date_ok d" and "time_ok t" and "instant_ok i" and "pdt_ok p" and "odt_ok x"
    and "zdt_ok z" and "pred_option is_ascii (zone_key (zdt_tz z))"
  shows "format_date_iso d args kwargs \<noteq> Inr None \<and> format_time_iso t args kwargs \<noteq> Inr None
    \<and> instant_format_iso i args kwargs \<noteq> Inr None \<and> pdt_format_iso p args kwargs \<noteq> Inr None
    \<and> odt_format_iso x args kwargs \<noteq> Inr None \<and> zdt_format_iso z args kwargs \<noteq> Inr None
    \<and> date_repr d \<noteq> None \<and> time_repr t \<noteq> None \<and> instant_repr i \<noteq> None
    \<and> pdt_repr p \<noteq> None \<and> odt_repr x \<noteq> None \<and> zdt_repr z \<noteq> None"
proof -
  have x: "date_ok (odt_date x)" "time_ok (odt_time x)" "offset_ok (odt_offset x)"
    using assms(5) by (simp_all add: odt_ok_def)
  have z: "date_ok (zdt_date z)" "time_ok (zdt_time z)" "offset_ok (zdt_offset z)"
    using assms(6) by (simp_all add: zdt_ok_def odt_ok_def zdt_to_fixed_offset_def zdt_to_plain_def pdt_assume_offset_unchecked_def)
  have i: "date_ok (pdt_date (instant_to_utc_plain i))" "time_ok (pdt_time (instant_to_utc_plain i))"
    using to_utc_plain(1) [OF assms(3)] by (simp_all add: pdt_ok_def)
  have p: "date_ok (pdt_date p)" "time_ok (pdt_time p)" using assms(4) by (simp_all add: pdt_ok_def)
  have "pdt_repr p \<noteq> None" using repr_defined(3) [OF p] by (cases p) simp
  moreover have "odt_repr x \<noteq> None" using repr_defined(4) [OF x(1,2,3)] by (cases x) simp
  moreover have "zdt_repr z \<noteq> None" using repr_defined(5) [OF z(1,2,3) assms(7)] by (cases z) simp
  moreover have "instant_repr i \<noteq> None"
    unfolding instant_repr_def Let_def
    by (rule chunk_format_defined, intro tuple_chunk_simps) (simp_all add: i date_chunk_ok time_chunk_ok del: is_ascii_simps)
  ultimately show ?thesis
    using assms(1,2,7) i p x z
    by (simp add: format_datetime_iso_defined format_parts_defined repr_defined(1,2) zdt_format_iso_def
        odt_format_iso_def instant_format_iso_def pdt_format_iso_def Let_def)
qed

theorem strings_stay_in_bounds_witness:
  "zdt_repr \<lparr>zdt_date = \<lparr>d_year = Year 2024, d_month = October, d_day = 27\<rparr>,
     zdt_time = time_from_sec_subsec 9000 (SubSecNanos 7), zdt_offset = Offset 7200, zdt_tz = zone_v2\<rparr> \<noteq> None
   \<and> odt_format_iso \<lparr>odt_date = date_min, odt_time = time_max, odt_offset = Offset (-3723)\<rparr> ([] :: unit pyobj list)
       [(''unit'', PyStr ''hour'')] \<noteq> Inr None"
proof -
  define z where "z = \<lparr>zdt_date = \<lparr>d_year = Year 2024, d_month = October, d_day = 27\<rparr>,
     zdt_time = time_from_sec_subsec 9000 (SubSecNanos 7), zdt_offset = Offset 7200, zdt_tz = zone_v2\<rparr>"
  define i where "i = \<lparr>i_epoch = EpochSecs 0, i_subsec = SubSecNanos 0\<rparr>"
  define x where "x = \<lparr>odt_date = date_min, odt_time = time_max, odt_offset = Offset (-3723)\<rparr>"
  have "odt_ok (zdt_to_fixed_offset z)" unfolding z_def by code_simp
  then have z: "zdt_ok z" by (simp add: zdt_ok_def z_def zone_v2_ok)
  have k: "pred_option is_ascii (zone_key (zdt_tz z))" by (simp add: z_def zone_v2_def)
  have ok: "date_ok date_min" "time_ok time_max" "instant_ok i" "pdt_ok pdt_min" "odt_ok x"
    unfolding i_def x_def by code_simp+
  from strings_stay_in_bounds [OF ok z k, of "[] :: unit pyobj list" "[(''unit'', PyStr ''hour'')]"] show ?thesis
    unfolding z_def x_def by blast
qed

end
