(* ===== verification/Args_Facts.thy ===== *)
theory Args_Facts
  imports Args Output_Facts Difference_Facts
begin

section \<open>What accepted arguments mean\<close>





subsection \<open>Shifts\<close>






subsection \<open>Units\<close>









subsection \<open>Increments\<close>











end
