(* ===== verification/Spec2Isabelle.thy ===== *)
theory Spec2Isabelle
  imports Moments_Facts Store_Facts Pickle_Facts Difference_Facts Zoned_Facts Delta_Text_Facts Pattern_Facts Rfc2822_Facts
    Methods_Facts Output_Facts Args_Facts
begin

text \<open>
  \<^bold>\<open>The date and time core of whenever.\<close>

  The repository is a date-time library for Python whose extension module is implemented in Rust
  under \<open>src/src\<close>. The development models the Rust code: \<open>domain\<close> (the types, their
  arithmetic, rounding, differences), \<open>common\<close> (scanning, formatting, patterns, RFC 2822,
  pickling), \<open>tz\<close> (POSIX rules, TZif files, the store of zones) and the logic of
  \<open>classes\<close>, which combines the others behind the Python objects.

  \<^bold>\<open>How the parts interact.\<close> A \<open>Date\<close> and a \<open>Time\<close> make a plain date-time; with
  a UTC offset it denotes an instant, a number of nanoseconds since 1970. A zone says which
  offset an instant has and which instants a local time may be; it is read from a TZif file,
  whose end may be a POSIX rule, and the store loads each zone once and shares it. A zoned
  date-time is a plain date-time, an offset and a zone. Durations are exact (\<open>TimeDelta\<close>), in
  calendar units (\<open>DateDelta\<close>) or both; shifts add them, differences recover them. Every
  type has its text (ISO 8601, patterns, RFC 2822) and its pickled bytes.

  \<^bold>\<open>Theories and sources.\<close> A pair \<open>X\<close>, \<open>X_Facts\<close> holds the definitions
  and what is proved of them. Definitions have the names of the code; the first letters tell the type
  (\<open>pdt\<close> plain, \<open>odt\<close> with an offset, \<open>zdt\<close> zoned, \<open>td\<close>,
  \<open>dd\<close>, \<open>dtd\<close> the deltas).

  \<^item> \<open>Prelude\<close>: casts and checked arithmetic of machine integers, three-way comparison, and the
    contracts that several types share as locales: \<open>bounded_newtype\<close> (a checked constructor),
    \<open>counted\<close> (a type that is an interval of integers), \<open>sound_shift\<close> and
    \<open>exact_shift\<close> (an operation that moves along it).
  \<^item> \<open>Scalar\<close> (\<open>domain/scalar.rs\<close>): the newtypes, each an interpretation of
    \<open>bounded_newtype\<close>.
  \<^item> \<open>Calendar\<close>, \<open>Civil\<close>, \<open>Calendar_Facts\<close> (\<open>domain/date.rs\<close>):
    dates, day numbers, ISO weeks, shifts. \<open>Civil\<close> shows that the multiply-and-shift algorithm
    of \<open>UnixDays::date\<close>, kept on 32-bit and 64-bit words as in the code, inverts the day count for
    every day of the years 1 to 9999.
  \<^item> \<open>Round\<close> (\<open>domain/round.rs\<close>): the nine modes, what rounding means
    (\<open>rounds_to\<close>), and the locale \<open>rounder\<close> of the routines that compare a remainder with a
    threshold; \<open>Clock\<close> (\<open>domain/time.rs\<close>) and \<open>Scalar\<close> provide it.
  \<^item> \<open>Delta\<close> (\<open>domain/time_delta.rs\<close>, \<open>date_delta.rs\<close>,
    \<open>datetime_delta.rs\<close>, \<open>shift.rs\<close>): arithmetic, rounding, signs;
    \<open>Delta_Text\<close>: their ISO 8601 text.
  \<^item> \<open>Moments\<close> (\<open>domain/instant.rs\<close>, \<open>plain_datetime.rs\<close>,
    \<open>offset_datetime.rs\<close>, \<open>local.rs\<close>): instants, plain and offset date-times on the line of
    nanoseconds, and the choice of an offset for a repeated or skipped local time.
  \<^item> \<open>Scan\<close> (\<open>common/parse.rs\<close>), \<open>Iso_Text\<close>, \<open>Iso_Facts\<close>: the scanner as a
    state monad over the remaining bytes (a reader returns an option and the rest), the readers and
    the writers of ISO 8601.
  \<^item> \<open>Posix\<close> (\<open>tz/posix.rs\<close>), \<open>Tzif\<close> (\<open>tz/tzif.rs\<close>): parsing,
    the offset of an instant and the mapping of a local time.
  \<^item> \<open>Store\<close> (\<open>tz/store.rs\<close>): the least-recently-used list and the weak table as a state with
    the strong references that keep a zone alive, the steps on it (finding, loading, storing, clearing,
    dropping a reference) as a relation.
  \<^item> \<open>Pickle\<close> (\<open>common/pickle.rs\<close>): the payloads; \<open>codec\<close> is the contract of
    a pair of an encoder and a decoder.
  \<^item> \<open>Difference\<close> (\<open>domain/difference.rs\<close>, \<open>itemized_delta.rs\<close>,
    \<open>itemized_date_delta.rs\<close>): differences in a set of units, with increments and rounding.
  \<^item> \<open>Zoned\<close> (\<open>domain/zoned_datetime.rs\<close>): resolution in a zone, rounding to days,
    the search for the last date that does not overshoot.
  \<^item> \<open>Pattern\<close>, \<open>Pattern_Types\<close> (\<open>common/pattern.rs\<close> and the
    \<open>format\<close>/\<open>parse\<close> methods): compilation, validation, formatting, parsing.
  \<^item> \<open>Rfc2822\<close> (\<open>common/rfc2822.rs\<close>).
  \<^item> \<open>Methods\<close> (\<open>classes/*.rs\<close>): what the methods compute once their arguments are
    extracted.
  \<^item> \<open>Args\<close> (\<open>common/*_args.rs\<close>, \<open>disambiguation.rs\<close>, \<open>instant.rs\<close>,
    \<open>py/args.rs\<close>, \<open>py/num.rs\<close>): how arguments are read from Python objects, which are one
    datatype; \<open>Output\<close> (\<open>common/fmt.rs\<close>, \<open>format_args.rs\<close>, \<open>py/string.rs\<close>):
    \<open>format_iso\<close>, \<open>repr\<close> and the string builder they write into, whose memory is a list
    of cells that are written or not.

  \<^bold>\<open>Conventions.\<close> A newtype is a one-constructor datatype, a struct a record, an enum a datatype.
  Bytes are characters, so that a text is a \<open>string\<close>. \<open>Option\<close> and \<open>?\<close> are
  \<open>option\<close> and its bind; \<open>Result\<close> is a sum with \<open>Inl\<close> for the error; the
  Python exceptions that the methods raise are the datatype \<open>exc\<close>. In the queries and readers of
  zones, in the methods that use them and in the string builder, where an index, an \<open>unwrap\<close> or a write can
  really fail, the result has type \<open>run\<close> (\<open>Tzif\<close>: \<open>Done\<close> of a value or
  \<open>Panic\<close>) or an option, and the absence of panics is a theorem. An \<open>unwrap\<close> that the invariant of
  the type covers is \<open>the\<close> of an option, with a note beside the definition: the instant of an offset or zoned
  date-time (defined by \<open>odt_instant_defined\<close>), the date of a POSIX rule (\<open>posix_rule_date\<close>), the
  carry of \<open>TimeDelta::round\<close> (\<open>td_round_no_panic\<close>), the end of a week, the rounding of an
  instant and the rounding of differences. Machine integers are integers with their
  casts written out and bounds that exclude overflow; \<open>Civil\<close> keeps words, as it relies on them.

  \<^bold>\<open>What is shown.\<close>
  \<^item> Round trips: dates and day numbers, instants and UTC date-times, ISO 8601 text of every type,
    including a zoned date-time in a repeated hour, durations, RFC 2822, patterns, pickles.
  \<^item> Meaning: ISO weeks by the rule of Thursdays, month shifts with clamping, n-th weekdays, rounding as
    the nearest multiple (or the one the mode names), differences of dates as, unit by
    unit, the greatest number of steps that does not pass the target, durations in clock units as a greedy split,
    keyword arguments as the sum of what they name, exact shifts as addition of nanoseconds.
  \<^item> Refinement: the bisection of a zone's table is \<open>the offset of the last transition\<close>, the
    mapping of a local time is the set of instants that show it, the list of the cache is the history of
    the keys used last.
  \<^item> Invariants and safety: what readers return is well-formed and in range; queries on a well-formed
    zone do not panic (with the one exception stated there); in every reachable store the list of recent zones and
    the table agree, and every reference leads to a zone; a key never leads out of the search path. Every chunk of a string writes exactly the bytes that it
    announced, so that the unchecked writes of the builder stay inside its string.

  \<^bold>\<open>Bounds, loops and termination.\<close> There is no fuel. The loops that scan text terminate because
  every round consumes a byte, the bisection because the interval shrinks, the loop over units because the list does.
  The two loops of \<open>zoned_target\<close> that look for a date which does not overshoot have no
  evident bound in the code, as they step day by day through an arbitrary zone: they are
  \<open>partial_function (option)\<close>, where a loop that does not return is \<open>None\<close>, and
  \<open>zoned_target_returns\<close> shows that they return on every well-formed zone.

  \<^bold>\<open>Parameters.\<close> The files of the time-zone database are a function from paths to bytes, the store
  of a method is a function from keys to zones. The conversions of floating-point numbers and the truth
  value of a Python object are functions that the definitions take. Zones are any that are well-formed in the
  sense of \<open>zone_ok\<close>, which the readers of files guarantee; the theorems that need
  transitions in order and far enough apart say so (\<open>zone_spaced\<close>), as a file may hold any, and those
  that need the table or the rule of a zone to be consistent where it is used say that (\<open>covered\<close>,
  \<open>rule_agrees\<close>): a rule with summer time all year, for one, is not so at the end of a year.

  \<^bold>\<open>Not modelled.\<close>
  \<^item> The rest of \<open>py\<close>, \<open>pymodule\<close>, \<open>lib.rs\<close>: wrappers of the C API of CPython and the
    registration of classes; \<open>docstrings.rs\<close>: generated text. Arguments that CPython parses
    itself (\<open>PyArg_ParseTupleAndKeywords\<close>) and warnings.
  \<^item> Conversions through \<open>f64\<close>: float timestamps, float factors and \<open>total\<close> in float units.
  \<^item> Conversions from and to the \<open>datetime\<close> module, hashing.
  \<^item> \<open>common/sync.rs\<close> and the mutex of the store: the steps of the store are atomic in the
    model.
\<close>

end
